(* ===== verification/Prelude.thy ===== *)
theory Prelude
  imports Main "HOL-Library.List_Lexorder" "HOL-Library.Char_ord" "HOL-Library.Sublist"
begin

text \<open>
  Shared vocabulary of the development: the JavaScript string operations the source uses,
  written out on character lists, the order JavaScript compares strings with, the result
  type of operations that may throw, and the fact collections the component proofs share.

  A JavaScript string is a list of code units. Here a string is HOL's \<open>string\<close>, a list of
  8-bit characters: every string constant of the modelled source and every string a property
  below evaluates lies in that range. \<open><\<close> on strings compares code units from the left and
  a proper prefix is smaller, which is the order of \<open>List_Lexorder\<close> over \<open>Char_ord\<close>.
\<close>

named_theorems rank_facts \<open>digits, integer heads and their order\<close>
named_theorems policy_facts \<open>the permission, role and relation tables\<close>
named_theorems filter_facts \<open>the field whitelist and the filter AST\<close>

section \<open>Results of operations that may throw\<close>

type_synonym ('e, 'a) result = "'e + 'a"

abbreviation Throw :: "'e \<Rightarrow> ('e, 'a) result" where "Throw \<equiv> Inl"
abbreviation Return :: "'a \<Rightarrow> ('e, 'a) result" where "Return \<equiv> Inr"

definition bind_result :: "('e, 'a) result \<Rightarrow> ('a \<Rightarrow> ('e, 'b) result) \<Rightarrow> ('e, 'b) result" where
  "bind_result r k = (case r of Inl e \<Rightarrow> Inl e | Inr a \<Rightarrow> k a)"

lemma bind_result_simps [simp]:
  "bind_result (Inl e) k = Inl e"
  "bind_result (Inr a) k = k a"
  by (simp_all add: bind_result_def)

lemma bind_result_eq_Inr [simp]:
  "bind_result r k = Inr b \<longleftrightarrow> (\<exists>a. r = Inr a \<and> k a = Inr b)"
  by (cases r) simp_all

lemma bind_result_eq_Inl:
  "bind_result r k = Inl e \<longleftrightarrow> r = Inl e \<or> (\<exists>a. r = Inr a \<and> k a = Inl e)"
  by (cases r) simp_all

lemma bind_result_cong [fundef_cong]:
  "r = r' \<Longrightarrow> (\<And>a. r' = Inr a \<Longrightarrow> k a = k' a) \<Longrightarrow> bind_result r k = bind_result r' k'"
  by (cases r') simp_all

text \<open>\<open>xs.map(f)\<close> where \<open>f\<close> may throw: the first error ends it.\<close>

fun map_result :: "('a \<Rightarrow> ('e, 'b) result) \<Rightarrow> 'a list \<Rightarrow> ('e, 'b list) result" where
  "map_result f [] = Return []"
| "map_result f (x # xs) =
     bind_result (f x) (\<lambda>y. bind_result (map_result f xs) (\<lambda>ys. Return (y # ys)))"

lemma map_result_cong [fundef_cong]:
  "xs = ys \<Longrightarrow> (\<And>x. x \<in> set ys \<Longrightarrow> f x = g x) \<Longrightarrow> map_result f xs = map_result g ys"
  by (induction ys arbitrary: xs) auto

lemma map_result_Inr_iff:
  "map_result f xs = Inr ys \<longleftrightarrow> length xs = length ys \<and> list_all2 (\<lambda>x y. f x = Inr y) xs ys"
  by (induction xs arbitrary: ys) (auto simp: list_all2_Cons1)

lemma map_result_Inl: "map_result f xs = Inl e \<Longrightarrow> \<exists>x \<in> set xs. f x = Inl e"
  by (induction xs) (auto simp: bind_result_eq_Inl)

lemma bind_result_assoc: "bind_result (bind_result r f) g = bind_result r (\<lambda>x. bind_result (f x) g)"
  by (cases r) simp_all

lemma bind_result_cong2: "(\<And>a. r = Inr a \<Longrightarrow> f a = g a) \<Longrightarrow> bind_result r f = bind_result r g"
  by (cases r) simp_all

section \<open>JavaScript string operations\<close>

text \<open>\<open>s.charAt(i)\<close>: the one-character string at \<open>i\<close>, or the empty string out of range.\<close>

definition char_at :: "string \<Rightarrow> nat \<Rightarrow> string" where
  "char_at s i = (if i < length s then [s ! i] else [])"

lemma char_at_Cons_0 [simp]: "char_at (c # s) 0 = [c]"
  by (simp add: char_at_def)

lemma char_at_Nil [simp]: "char_at [] i = []"
  by (simp add: char_at_def)

lemma char_at_Cons_Suc [simp]: "char_at (c # s) (Suc i) = char_at s i"
  by (simp add: char_at_def)

text \<open>\<open>hay.indexOf(needle)\<close>: the first position where \<open>needle\<close> starts, or \<open>-1\<close>.\<close>

fun index_of_from :: "int \<Rightarrow> string \<Rightarrow> string \<Rightarrow> int" where
  "index_of_from i [] needle = (if needle = [] then i else -1)"
| "index_of_from i (c # hay) needle =
     (if prefix needle (c # hay) then i else index_of_from (i + 1) hay needle)"

definition index_of :: "string \<Rightarrow> string \<Rightarrow> int" where
  "index_of hay needle = index_of_from 0 hay needle"

text \<open>\<open>s.charCodeAt(0)\<close> of a non-empty string; the callers have excluded the empty one.\<close>

fun char_code :: "string \<Rightarrow> int" where
  "char_code [] = 0"
| "char_code (c # _) = int (of_char c)"

text \<open>\<open>s.slice(a, b)\<close> for \<open>0 \<le> a\<close>, clamped to the string as JavaScript clamps it.\<close>

definition slice :: "nat \<Rightarrow> nat \<Rightarrow> string \<Rightarrow> string" where
  "slice a b s = drop a (take b s)"

definition ends_with :: "string \<Rightarrow> string \<Rightarrow> bool" where
  "ends_with s t = suffix t s"

text \<open>\<open>toUpperCase\<close> and \<open>toLowerCase\<close> on ASCII letters and the Latin-1 letters above them.\<close>

definition upper_char :: "char \<Rightarrow> char" where
  "upper_char c = (let n = of_char c :: nat in
     if 97 \<le> n \<and> n \<le> 122 \<or> 224 \<le> n \<and> n \<le> 254 \<and> n \<noteq> 247 then char_of (n - 32) else c)"

definition lower_char :: "char \<Rightarrow> char" where
  "lower_char c = (let n = of_char c :: nat in
     if 65 \<le> n \<and> n \<le> 90 \<or> 192 \<le> n \<and> n \<le> 222 \<and> n \<noteq> 215 then char_of (n + 32) else c)"

abbreviation to_upper :: "string \<Rightarrow> string" where "to_upper \<equiv> map upper_char"
abbreviation to_lower :: "string \<Rightarrow> string" where "to_lower \<equiv> map lower_char"

text \<open>\<open>parts.join(sep)\<close>.\<close>

fun join :: "string \<Rightarrow> string list \<Rightarrow> string" where
  "join sep [] = []"
| "join sep [x] = x"
| "join sep (x # y # xs) = x @ sep @ join sep (y # xs)"

text \<open>\<open>String(n)\<close> of a non-negative integer.\<close>

fun decimal_of_nat :: "nat \<Rightarrow> string" where
  "decimal_of_nat n =
     (if n < 10 then [char_of (48 + n)] else decimal_of_nat (n div 10) @ [char_of (48 + n mod 10)])"

declare decimal_of_nat.simps [simp del]

section \<open>The order of strings\<close>

lemma less_append_left [simp]: "(xs :: 'a::linorder list) @ ys < xs @ zs \<longleftrightarrow> ys < zs"
  by (induction xs) simp_all

lemma less_append_right: "(xs :: 'a::linorder list) < xs @ ys \<longleftrightarrow> ys \<noteq> []"
  using less_append_left [of xs "[]" ys] by (cases ys) simp_all

text \<open>Of two strings neither of which is a prefix of the other, the order ignores what follows.\<close>

lemma less_append_both:
  "(xs :: 'a::linorder list) < ys \<Longrightarrow> \<not> prefix xs ys \<Longrightarrow> xs @ us < ys @ vs"
proof (induction xs arbitrary: ys)
  case Nil
  then show ?case by simp
next
  case (Cons x xs)
  then show ?case by (cases ys) auto
qed

lemma less_same_length_append:
  "(xs :: 'a::linorder list) < ys \<Longrightarrow> length xs = length ys \<Longrightarrow> xs @ us < ys @ vs"
  by (rule less_append_both) (auto simp: prefix_def)

lemma less_hd_append: "(x :: 'a::linorder) < y \<Longrightarrow> x # us < y # vs"
  by simp

lemma join_map_eq:
  "(\<And>x. x \<in> set xs \<Longrightarrow> f x = g x) \<Longrightarrow> join sep (map f xs) = join sep (map g xs)"
  by (metis map_eq_conv)

end
