(* ===== verification/Rank.thy ===== *)
theory Rank
  imports Prelude
begin

text \<open>
  Fractional indexing, \<open>packages/contracts/src/rank.ts\<close>: the strings that order cards, lists
  and pages. A rank is a self-describing integer part followed by a fraction. This
  theory translates the module; \<open>Rank_Correct\<close> proves that a generated rank is well formed
  and lies strictly between its neighbours.
\<close>

section \<open>The module\<close>

definition RANK_DIGITS :: string where
  "RANK_DIGITS = ''0123456789ABCDEFGHIJKLMNOPQRSTUVWXYZabcdefghijklmnopqrstuvwxyz''"

definition BASE :: int where "BASE = int (length RANK_DIGITS)"
definition ZERO :: string where "ZERO = char_at RANK_DIGITS 0"
definition LAST :: string where "LAST = char_at RANK_DIGITS (nat (BASE - 1))"

definition digitValue :: "string \<Rightarrow> int" where
  "digitValue char = index_of RANK_DIGITS char"

definition digitAt :: "int \<Rightarrow> string" where
  "digitAt value = (if value < 0 then [] else char_at RANK_DIGITS (nat value))"

definition ZERO_INTEGER :: string where "ZERO_INTEGER = ''a'' @ ZERO"
definition SMALLEST_INTEGER :: string where
  "SMALLEST_INTEGER = ''A'' @ concat (replicate 26 ZERO)"

definition RANK_REBALANCE_THRESHOLD :: nat where "RANK_REBALANCE_THRESHOLD = 24"

text \<open>One constructor per \<open>throw new InvalidRankError\<close> of the module, with what it names.\<close>

datatype rank_error =
    NoIntegerPart string
  | NotARank string string
  | OutOfOrder string string
  | ExhaustedAbove
  | ExhaustedBelow
  | BadCount int

subsection \<open>The integer part\<close>

definition integerLength :: "string \<Rightarrow> int" where
  "integerLength head =
     (if ''a'' \<le> head \<and> head \<le> ''z'' then char_code head - char_code ''a'' + 2
      else if ''A'' \<le> head \<and> head \<le> ''Z'' then char_code ''Z'' - char_code head + 2
      else -1)"

definition integerPartOf :: "string \<Rightarrow> (rank_error, string) result" where
  "integerPartOf rank =
     (let len = integerLength (char_at rank 0) in
      if len < 0 \<or> len > int (length rank) then Throw (NoIntegerPart rank)
      else Return (slice 0 (nat len) rank))"

text \<open>
  The \<open>for\<close> loops of \<open>incrementInteger\<close> and \<open>decrementInteger\<close>: \<open>index + 1\<close> counts down
  from the number of digits, and the loop stops as soon as the carry is absorbed. The
  result is the digit array and whether the carry is still pending.
\<close>

fun increment_loop :: "string \<Rightarrow> string list \<Rightarrow> nat \<Rightarrow> string list \<times> bool" where
  "increment_loop x digits 0 = (digits, True)"
| "increment_loop x digits (Suc index) =
     (let next = digitValue (char_at x (index + 1)) + 1 in
      if next = BASE then increment_loop x (digits[index := ZERO]) index
      else (digits[index := digitAt next], False))"

definition incrementInteger :: "string \<Rightarrow> string option" where
  "incrementInteger x =
     (let head = char_at x 0;
          digits0 = map (\<lambda>c. [c]) (drop 1 x);
          (digits, carry) = increment_loop x digits0 (length digits0) in
      if \<not> carry then Some (head @ concat digits)
      else if head = ''Z'' then Some ZERO_INTEGER
      else if head = ''z'' then None
      else
        (let nextHead = [char_of (char_code head + 1)];
             digits' = (if ''a'' < nextHead then digits @ [ZERO] else butlast digits) in
         Some (nextHead @ concat digits')))"

fun decrement_loop :: "string \<Rightarrow> string list \<Rightarrow> nat \<Rightarrow> string list \<times> bool" where
  "decrement_loop x digits 0 = (digits, True)"
| "decrement_loop x digits (Suc index) =
     (let next = digitValue (char_at x (index + 1)) - 1 in
      if next = -1 then decrement_loop x (digits[index := LAST]) index
      else (digits[index := digitAt next], False))"

definition decrementInteger :: "string \<Rightarrow> string option" where
  "decrementInteger x =
     (let head = char_at x 0;
          digits0 = map (\<lambda>c. [c]) (drop 1 x);
          (digits, borrow) = decrement_loop x digits0 (length digits0) in
      if \<not> borrow then Some (head @ concat digits)
      else if head = ''a'' then Some (''Z'' @ LAST)
      else if head = ''A'' then None
      else
        (let nextHead = [char_of (char_code head - 1)];
             digits' = (if nextHead < ''Z'' then digits @ [LAST] else butlast digits) in
         Some (nextHead @ concat digits')))"

subsection \<open>Validation\<close>

definition isRank :: "string \<Rightarrow> bool" where
  "isRank v =
     (if length v = 0 then False
      else
        (let len = integerLength (char_at v 0) in
         if len < 0 \<or> len > int (length v) then False
         else if \<exists>char \<in> set v. digitValue [char] < 0 then False
         else \<not> ends_with (drop (nat len) v) ZERO))"

definition requireRank :: "string \<Rightarrow> string \<Rightarrow> (rank_error, unit) result" where
  "requireRank v label = (if \<not> isRank v then Throw (NotARank label v) else Return ())"

subsection \<open>Generation\<close>

text \<open>The \<open>while\<close> loop that counts the prefix \<open>a\<close>, padded with zeros, shares with \<open>b\<close>.\<close>

fun shared_prefix :: "string \<Rightarrow> string \<Rightarrow> nat" where
  "shared_prefix a [] = 0"
| "shared_prefix a (d # b) =
     (if (case a of [] \<Rightarrow> ZERO | c # _ \<Rightarrow> [c]) = [d] then Suc (shared_prefix (tl a) b) else 0)"

lemma BASE_62 [simp]: "BASE = 62"
  by (simp add: BASE_def RANK_DIGITS_def)

lemma shared_prefix_le: "shared_prefix a b \<le> length b"
  by (induction a b rule: shared_prefix.induct) auto

text \<open>
  \<open>midpoint\<close>: \<open>None\<close> stands for the \<open>null\<close> that denotes 1. \<open>Math.round(0.5 * (low + high))\<close>
  rounds halves up, which is \<open>(low + high + 1) div 2\<close>.
\<close>

function midpoint :: "string \<Rightarrow> string option \<Rightarrow> string" where
  "midpoint a b =
     (let shared = (case b of None \<Rightarrow> 0 | Some t \<Rightarrow> shared_prefix a t) in
      if shared > 0 then
        slice 0 shared (the b) @ midpoint (drop shared a) (Some (drop shared (the b)))
      else
        (let low = (if a = [] then 0 else digitValue (char_at a 0));
             high = (case b of None \<Rightarrow> BASE | Some t \<Rightarrow> digitValue (char_at t 0)) in
         if high - low > 1 then digitAt ((low + high + 1) div 2)
         else if b \<noteq> None \<and> length (the b) > 1 then slice 0 1 (the b)
         else digitAt low @ midpoint (drop 1 a) None))"
  by pat_completeness auto
termination
proof (relation "measures [\<lambda>(a, b). case b of None \<Rightarrow> 0 | Some t \<Rightarrow> Suc (length t), \<lambda>(a, b). length a]",
       goal_cases)
  case 1
  show ?case by simp
next
  case (2 a b shared)
  then show ?case using shared_prefix_le [of a "the b"]
    by (cases b; cases "the b") auto
next
  case (3 a b shared low high)
  then show ?case by (cases a) (auto split: option.splits)
qed

declare midpoint.simps [simp del]

definition beforeRank :: "string \<Rightarrow> (rank_error, string) result" where
  "beforeRank after =
     bind_result (integerPartOf after) (\<lambda>integer.
       let fraction = drop (length integer) after in
       if integer = SMALLEST_INTEGER then Return (integer @ midpoint [] (Some fraction))
       else if integer < after then Return integer
       else (case decrementInteger integer of
               None \<Rightarrow> Throw ExhaustedBelow
             | Some decremented \<Rightarrow> Return decremented))"

definition afterRank :: "string \<Rightarrow> (rank_error, string) result" where
  "afterRank before =
     bind_result (integerPartOf before) (\<lambda>integer.
       case incrementInteger integer of
         Some incremented \<Rightarrow> Return incremented
       | None \<Rightarrow> Return (integer @ midpoint (drop (length integer) before) None))"

text \<open>The part of \<open>between\<close> after its guards, when both neighbours are present.\<close>

definition between_both :: "string \<Rightarrow> string \<Rightarrow> (rank_error, string) result" where
  "between_both before after =
     bind_result (integerPartOf before) (\<lambda>integerBefore.
     bind_result (integerPartOf after) (\<lambda>integerAfter.
       if integerBefore = integerAfter then
         Return (integerBefore @ midpoint (drop (length integerBefore) before)
                                          (Some (drop (length integerAfter) after)))
       else (case incrementInteger integerBefore of
               None \<Rightarrow> Throw ExhaustedAbove
             | Some incremented \<Rightarrow>
                 if incremented < after then Return incremented
                 else Return (integerBefore @
                              midpoint (drop (length integerBefore) before) None))))"

definition between :: "string option \<Rightarrow> string option \<Rightarrow> (rank_error, string) result" where
  "between before after =
     bind_result (case before of None \<Rightarrow> Return () | Some b \<Rightarrow> requireRank b ''before'') (\<lambda>_.
     bind_result (case after of None \<Rightarrow> Return () | Some a \<Rightarrow> requireRank a ''after'') (\<lambda>_.
       case (before, after) of
         (Some b, Some a) \<Rightarrow> if a \<le> b then Throw (OutOfOrder b a) else between_both b a
       | (None, None) \<Rightarrow> Return ZERO_INTEGER
       | (None, Some a) \<Rightarrow> beforeRank a
       | (Some b, None) \<Rightarrow> afterRank b))"

definition initialRank :: string where "initialRank = ZERO_INTEGER"

text \<open>
  The loop of \<open>rankSequence\<close>, over the operation that yields the next rank after the cursor.
\<close>

fun rank_loop :: "('r option \<Rightarrow> ('e, 'r) result) \<Rightarrow> nat \<Rightarrow> 'r option \<Rightarrow> ('e, 'r list) result" where
  "rank_loop next 0 cursor = Return []"
| "rank_loop next (Suc n) cursor =
     bind_result (next cursor) (\<lambda>r.
     bind_result (rank_loop next n (Some r)) (\<lambda>rs. Return (r # rs)))"

definition rankSequence :: "int \<Rightarrow> (rank_error, string list) result" where
  "rankSequence count =
     (if count < 0 then Throw (BadCount count)
      else rank_loop (\<lambda>cursor. between cursor None) (nat count) None)"

definition needsRebalance :: "string list \<Rightarrow> bool" where
  "needsRebalance ranks = (\<exists>rank \<in> set ranks. length rank \<ge> RANK_REBALANCE_THRESHOLD)"

datatype ranked = Ranked (rank_of: string) (id_of: string)

definition compareRanked :: "ranked \<Rightarrow> ranked \<Rightarrow> int" where
  "compareRanked a b =
     (if rank_of a < rank_of b then -1
      else if rank_of a > rank_of b then 1
      else if id_of a < id_of b then -1
      else if id_of a > id_of b then 1
      else 0)"

end
