(* ===== verification/Rank_Correct.thy ===== *)
theory Rank_Correct
  imports Rank "HOL-Library.Multiset"
begin

text \<open>
  Correctness of \<open>Rank\<close>. First the digits and their order, then the integer part (an
  increment is a larger well-formed integer, a decrement a smaller one), then \<open>midpoint\<close>,
  and last \<open>between\<close> and \<open>rankSequence\<close>.
\<close>

section \<open>Digits\<close>

definition digit :: "char \<Rightarrow> bool" where
  "digit c \<longleftrightarrow> c \<in> set RANK_DIGITS"

lemma length_RANK_DIGITS [simp]: "length RANK_DIGITS = 62"
  by (simp add: RANK_DIGITS_def)

lemma ZERO_eq: "ZERO = ''0''"
  by (simp add: ZERO_def RANK_DIGITS_def char_at_def)

lemma LAST_eq: "LAST = ''z''"
  by (simp add: LAST_def RANK_DIGITS_def char_at_def)

lemma RANK_DIGITS_sorted: "sorted_wrt (<) RANK_DIGITS"
proof -
  have "successively (<) RANK_DIGITS"
    by (simp add: RANK_DIGITS_def)
  then show ?thesis
    by (simp add: successively_conv_sorted_wrt transp_on_less)
qed

lemma RANK_DIGITS_nth_less:
  "j < 62 \<Longrightarrow> k < 62 \<Longrightarrow> RANK_DIGITS ! j < RANK_DIGITS ! k \<longleftrightarrow> j < k"
  using RANK_DIGITS_sorted sorted_wrt_nth_less [of "(<)" RANK_DIGITS]
  by (metis length_RANK_DIGITS linorder_neqE_nat order.asym)

lemma RANK_DIGITS_distinct: "distinct RANK_DIGITS"
  using RANK_DIGITS_sorted strict_sorted_iff by blast

lemma index_of_from_single:
  "index_of_from i hay [c] = (if c \<in> set hay then index_of_from i hay [c] else -1)"
  by (induction hay arbitrary: i) auto

lemma index_of_from_nth:
  "distinct hay \<Longrightarrow> k < length hay \<Longrightarrow> index_of_from i hay [hay ! k] = i + int k"
proof (induction hay arbitrary: i k)
  case Nil
  then show ?case by simp
next
  case (Cons d hay)
  then show ?case by (cases k) auto
qed

lemma digitValue_nth: "k < 62 \<Longrightarrow> digitValue [RANK_DIGITS ! k] = int k"
  using index_of_from_nth [OF RANK_DIGITS_distinct, of k 0]
  by (simp add: digitValue_def index_of_def)

lemma digitValue_not_digit: "\<not> digit c \<Longrightarrow> digitValue [c] = -1"
  using index_of_from_single [of 0 RANK_DIGITS c]
  by (simp add: digitValue_def index_of_def digit_def)

lemma digitE:
  assumes "digit c"
  obtains k where "k < 62" "c = RANK_DIGITS ! k" "digitValue [c] = int k"
  using assms digitValue_nth by (metis digit_def in_set_conv_nth length_RANK_DIGITS)

lemma digitValue_neg [simp]: "digitValue [c] < 0 \<longleftrightarrow> \<not> digit c"
  using digitValue_not_digit by (fastforce elim: digitE)

lemma digitValue_bounds: "digit c \<Longrightarrow> 0 \<le> digitValue [c] \<and> digitValue [c] < 62"
  by (auto elim: digitE)

lemma digitValue_mono:
  "digit c \<Longrightarrow> digit d \<Longrightarrow> digitValue [c] < digitValue [d] \<longleftrightarrow> c < d"
  by (auto elim!: digitE simp: RANK_DIGITS_nth_less)

lemma digitValue_inj:
  "digit c \<Longrightarrow> digit d \<Longrightarrow> digitValue [c] = digitValue [d] \<longleftrightarrow> c = d"
  using digitValue_mono by (metis linorder_less_linear order.irrefl)

lemma digitAt_obtain:
  assumes "0 \<le> v" "v < 62"
  obtains c where "digitAt v = [c]" "digit c" "digitValue [c] = v"
proof
  let ?c = "RANK_DIGITS ! nat v"
  show "digitAt v = [?c]" using assms by (simp add: digitAt_def char_at_def)
  show "digit ?c" using assms by (simp add: digit_def)
  show "digitValue [?c] = v" using assms digitValue_nth [of "nat v"] by simp
qed

lemma digitAt_digitValue: "digit c \<Longrightarrow> digitAt (digitValue [c]) = [c]"
  by (auto elim!: digitE simp: digitAt_def char_at_def)

lemma zero_digit [simp]: "digit CHR ''0''" "digitValue ''0'' = 0"
  by (simp_all add: digit_def RANK_DIGITS_def digitValue_def index_of_def)

lemma last_digit [simp]: "digit CHR ''z''" "digitValue ''z'' = 61"
  by (simp_all add: digit_def RANK_DIGITS_def digitValue_def index_of_def)

lemma digitValue_Nil [simp]: "digitValue [] = 0"
  by (simp add: digitValue_def index_of_def RANK_DIGITS_def)

lemma digit_le_last:
  assumes "digit c"
  shows "c \<le> CHR ''z''"
proof (rule ccontr)
  assume "\<not> c \<le> CHR ''z''"
  with assms have "61 < digitValue [c]"
    using digitValue_mono [of "CHR ''z''" c] by simp
  with assms show False using digitValue_bounds by fastforce
qed

section \<open>The fraction\<close>

text \<open>A fraction is digits with no trailing zero digit; the empty fraction denotes 0.\<close>

definition fraction_ok :: "string \<Rightarrow> bool" where
  "fraction_ok f \<longleftrightarrow> (\<forall>c \<in> set f. digit c) \<and> (f = [] \<or> last f \<noteq> CHR ''0'')"

lemma fraction_ok_Nil [simp]: "fraction_ok []"
  by (simp add: fraction_ok_def)

lemma fraction_ok_Cons:
  "fraction_ok (c # f) \<longleftrightarrow> digit c \<and> (f = [] \<longrightarrow> c \<noteq> CHR ''0'') \<and> fraction_ok f"
  by (auto simp: fraction_ok_def)

lemma fraction_ok_append:
  "fraction_ok f \<Longrightarrow> f \<noteq> [] \<Longrightarrow> \<forall>c \<in> set p. digit c \<Longrightarrow> fraction_ok (p @ f)"
  by (auto simp: fraction_ok_def)

lemma fraction_ok_tl: "fraction_ok f \<Longrightarrow> fraction_ok (tl f)"
  by (cases f) (auto simp: fraction_ok_Cons)

lemma slice_0 [simp]: "slice 0 n s = take n s"
  by (simp add: slice_def)

text \<open>What is left after the shared prefix is still in order and differs at once.\<close>

lemma shared_prefix_rest:
  "fraction_ok a \<Longrightarrow> fraction_ok b \<Longrightarrow> a < b \<Longrightarrow>
   drop (shared_prefix a b) a < drop (shared_prefix a b) b \<and>
   fraction_ok (drop (shared_prefix a b) a) \<and> fraction_ok (drop (shared_prefix a b) b) \<and>
   (\<forall>m. drop (shared_prefix a b) a < m \<longrightarrow> a < take (shared_prefix a b) b @ m)"
proof (induction a b rule: shared_prefix.induct)
  case (1 a)
  then show ?case by simp
next
  case (2 a d b)
  show ?case
  proof (cases "(case a of [] \<Rightarrow> ZERO | c # _ \<Rightarrow> [c]) = [d]")
    case False
    with 2 show ?thesis by auto
  next
    case True
    have rest: "fraction_ok (tl a)" "fraction_ok b" "tl a < b"
      using "2.prems" True by (auto simp: fraction_ok_Cons ZERO_eq neq_Nil_conv split: list.splits)
    show ?thesis
      using "2.IH" [OF True rest] True "2.prems"
      by (cases a) (auto simp: ZERO_eq)
  qed
qed

lemma digit_between:
  assumes "0 \<le> l" "h \<le> 62" "l + 1 < h"
  obtains c where "digitAt ((l + h + 1) div 2) = [c]" "digit c"
    "l < digitValue [c]" "digitValue [c] < h"
proof -
  have "0 \<le> (l + h + 1) div 2" "(l + h + 1) div 2 < 62" using assms by auto
  then obtain c where "digitAt ((l + h + 1) div 2) = [c]" "digit c"
    "digitValue [c] = (l + h + 1) div 2"
    by (rule digitAt_obtain)
  then show ?thesis using assms that by auto
qed

lemma digitValue_pos_not_zero: "0 < digitValue [c] \<Longrightarrow> c \<noteq> CHR ''0''"
  by auto

text \<open>
  The digit-by-digit part of \<open>midpoint\<close>, entered when the first positions differ (or
  there is no upper bound): the result lies strictly between and is a fraction again.
\<close>

lemma midpoint_between:
  "fraction_ok a \<Longrightarrow> (\<And>t. b = Some t \<Longrightarrow> fraction_ok t \<and> a < t) \<Longrightarrow>
   fraction_ok (midpoint a b) \<and> a < midpoint a b \<and> (\<forall>t. b = Some t \<longrightarrow> midpoint a b < t)"
proof (induction a b rule: midpoint.induct)
  case (1 a b)
  define shared where "shared = (case b of None \<Rightarrow> 0 | Some t \<Rightarrow> shared_prefix a t)"
  define low where "low = (if a = [] then 0 else digitValue (char_at a 0))"
  define high where "high = (case b of None \<Rightarrow> BASE | Some t \<Rightarrow> digitValue (char_at t 0))"
  note unfold = midpoint.simps [of a b, folded shared_def low_def high_def, unfolded Let_def]
  show ?case
  proof (cases "shared > 0")
    case True
    then obtain t where b: "b = Some t" and s: "shared = shared_prefix a t"
      by (auto simp: shared_def split: option.splits)
    have t: "fraction_ok t" "a < t" using "1.prems"(2) [OF b] by auto
    have rest: "drop shared a < drop shared t" "fraction_ok (drop shared a)"
        "fraction_ok (drop shared t)" "\<And>m. drop shared a < m \<Longrightarrow> a < take shared t @ m"
      using shared_prefix_rest [OF "1.prems"(1) t, folded s] by auto
    define m where "m = midpoint (drop shared a) (Some (drop shared t))"
    have m: "fraction_ok m" "drop shared a < m" "m < drop shared t"
      using "1.IH"(1) [OF shared_def True] rest b by (auto simp: m_def)
    have eq: "midpoint a b = take shared t @ m"
      using unfold True b by (simp add: m_def)
    have "m \<noteq> []" using m(2) by auto
    moreover have "\<forall>c \<in> set (take shared t). digit c"
      using t(1) set_take_subset [of shared t] by (auto simp: fraction_ok_def)
    ultimately have "fraction_ok (take shared t @ m)"
      using m(1) fraction_ok_append by blast
    moreover have "a < take shared t @ m" using rest(4) m(2) by blast
    moreover have "take shared t @ m < t"
      using m(3) by (metis append_take_drop_id less_append_left)
    ultimately show ?thesis using eq b by simp
  next
    case False
    have a0: "a = [] \<or> (\<exists>c a'. a = c # a' \<and> digit c \<and> low = digitValue [c])"
      using "1.prems"(1) by (cases a) (auto simp: low_def fraction_ok_Cons)
    have low: "0 \<le> low" "low < 62"
      using a0 digitValue_bounds by (auto simp: low_def)
    have b0: "b = None \<and> high = 62 \<or>
        (\<exists>d t. b = Some (d # t) \<and> digit d \<and> high = digitValue [d] \<and> low < high \<and>
               fraction_ok (d # t))"
    proof (cases b)
      case None
      then show ?thesis by (simp add: high_def)
    next
      case (Some t)
      with "1.prems"(2) have t: "fraction_ok t" "a < t" by auto
      then obtain d t' where dt: "t = d # t'" by (cases t) auto
      with t have d: "digit d" "high = digitValue [d]"
        using Some by (auto simp: fraction_ok_Cons high_def)
      have ne: "(case a of [] \<Rightarrow> ZERO | c # _ \<Rightarrow> [c]) \<noteq> [d]"
        using False Some dt by (auto simp: shared_def split: if_splits)
      have "low < high"
      proof (cases a)
        case Nil
        then show ?thesis
          using ne d digitValue_bounds [of d] digitValue_inj [of d "CHR ''0''"]
          by (auto simp: low_def ZERO_eq)
      next
        case (Cons c a')
        then show ?thesis
          using ne d dt t a0 digitValue_mono [of c d] by (auto simp: low_def)
      qed
      then show ?thesis using Some dt t d by blast
    qed
    have less_of_low: "a < c # m" if "digit c" "low < digitValue [c]" for c m
      using a0 that digitValue_mono by auto
    have high_le: "high \<le> 62" using b0 digitValue_bounds by fastforce
    show ?thesis
    proof (cases "high - low > 1")
      case True
      then obtain c where c: "digitAt ((low + high + 1) div 2) = [c]" "digit c"
          "low < digitValue [c]" "digitValue [c] < high"
        using digit_between [of low high] low high_le by auto
      have eq: "midpoint a b = [c]" using unfold False True c(1) by simp
      have "fraction_ok [c]"
        using c low digitValue_pos_not_zero [of c] by (auto simp: fraction_ok_Cons)
      moreover have "a < [c]" using less_of_low c by blast
      moreover have "\<forall>t. b = Some t \<longrightarrow> [c] < t"
        using b0 c digitValue_mono by fastforce
      ultimately show ?thesis unfolding eq by blast
    next
      case narrow: False
      show ?thesis
      proof (cases "b \<noteq> None \<and> length (the b) > 1")
        case True
        then obtain d t where d: "b = Some (d # t)" "t \<noteq> []" "digit d" "low < digitValue [d]"
          using b0 by auto
        have "midpoint a b = [d]" using unfold False narrow True d(1) by simp
        moreover have "fraction_ok [d]"
          using d low digitValue_pos_not_zero [of d] by (auto simp: fraction_ok_Cons)
        ultimately show ?thesis using d less_of_low by (cases t) auto
      next
        case short: False
        define m where "m = midpoint (drop 1 a) None"
        have tail: "fraction_ok (drop 1 a)"
          using fraction_ok_tl [OF "1.prems"(1)] by (simp add: drop_Suc)
        have m: "fraction_ok m" "drop 1 a < m"
          using "1.IH"(2) [OF shared_def False low_def high_def narrow short tail]
          by (auto simp: m_def)
        obtain c where c: "digitAt low = [c]" "digit c" "digitValue [c] = low"
          using low by (rule digitAt_obtain)
        have eq: "midpoint a b = c # m" using unfold False narrow short c(1) by (auto simp: m_def)
        have "m \<noteq> []" using m(2) by auto
        then have "fraction_ok (c # m)" using m(1) c(2) by (simp add: fraction_ok_Cons)
        moreover have "a < c # m"
          using a0 m(2) c digitValue_inj by auto
        moreover have "\<forall>t. b = Some t \<longrightarrow> c # m < t"
          using b0 c digitValue_mono by fastforce
        ultimately show ?thesis unfolding eq by blast
      qed
    qed
  qed
qed

section \<open>The integer part\<close>

definition int_part :: "string \<Rightarrow> bool" where
  "int_part x \<longleftrightarrow> x \<noteq> [] \<and> integerLength (char_at x 0) = int (length x) \<and> (\<forall>c \<in> set x. digit c)"

lemma integerLength_cases:
  "integerLength [h] =
     (if CHR ''a'' \<le> h \<and> h \<le> CHR ''z'' then int (of_char h) - 95
      else if CHR ''A'' \<le> h \<and> h \<le> CHR ''Z'' then 92 - int (of_char h) else -1)"
  by (auto simp: integerLength_def)

text \<open>Digits and heads by their character codes, where the order and the lengths are arithmetic.\<close>

lemma RANK_DIGITS_codes: "RANK_DIGITS = map char_of ([48..<58] @ [65..<91] @ [97..<123 :: nat])"
  by code_simp

lemma digit_code:
  "digit c \<longleftrightarrow> (let n = of_char c :: nat in
     48 \<le> n \<and> n < 58 \<or> 65 \<le> n \<and> n < 91 \<or> 97 \<le> n \<and> n < 123)"
proof -
  let ?S = "{48..<58} \<union> {65..<91} \<union> {97..<123 :: nat}"
  have "digit c \<longleftrightarrow> c \<in> char_of ` ?S"
    by (simp only: digit_def RANK_DIGITS_codes set_map set_append set_upt Un_assoc)
  also have "\<dots> \<longleftrightarrow> of_char c \<in> ?S"
  proof
    assume "c \<in> char_of ` ?S"
    then obtain n where "n \<in> ?S" "c = char_of n" by blast
    then show "of_char c \<in> ?S" by auto
  next
    assume "of_char c \<in> ?S"
    then show "c \<in> char_of ` ?S" by (rule image_eqI [rotated]) simp
  qed
  finally show ?thesis by (simp add: Let_def disj_assoc)
qed

lemma integerLength_code:
  "integerLength [h] =
     (let n = int (of_char h) in
      if 97 \<le> n \<and> n \<le> 122 then n - 95 else if 65 \<le> n \<and> n \<le> 90 then 92 - n else -1)"
proof -
  have le: "c \<le> d \<longleftrightarrow> int (of_char c) \<le> int (of_char d)" for c d :: char
    by (simp add: less_eq_char_def)
  have "of_char CHR ''a'' = (97 :: nat)" "of_char CHR ''z'' = (122 :: nat)"
    "of_char CHR ''A'' = (65 :: nat)" "of_char CHR ''Z'' = (90 :: nat)"
    by simp_all
  then show ?thesis by (simp add: integerLength_cases le Let_def)
qed

lemma of_char_of_int:
  "0 \<le> n \<Longrightarrow> n < 256 \<Longrightarrow> (of_char (char_of (n :: int)) :: nat) = nat n"
proof -
  assume "0 \<le> n" "n < 256"
  then have "(of_char (char_of n) :: int) = n" by (simp add: of_char_of)
  then show ?thesis by (metis nat_int of_nat_of_char)
qed

lemma char_less_code: "c < d \<longleftrightarrow> (of_char c :: nat) < of_char d"
  by (simp add: less_char_def)

lemma head_codes:
  "of_char CHR ''a'' = (97 :: nat)" "of_char CHR ''z'' = (122 :: nat)"
  "of_char CHR ''A'' = (65 :: nat)" "of_char CHR ''Z'' = (90 :: nat)"
  by simp_all

lemma code_neq: "h \<noteq> c \<Longrightarrow> (of_char h :: nat) \<noteq> of_char c"
  by simp

lemma head_successor:
  assumes "0 < integerLength [h]" "h \<noteq> CHR ''z''" "h \<noteq> CHR ''Z''"
    and h': "h' = char_of (char_code [h] + 1)"
  shows "digit h' \<and> h < h' \<and>
    integerLength [h'] = (if ''a'' < [h'] then integerLength [h] + 1 else integerLength [h] - 1)"
proof -
  let ?n = "of_char h :: nat"
  have n: "97 \<le> ?n \<and> ?n \<le> 121 \<or> 65 \<le> ?n \<and> ?n \<le> 89"
    using assms(1) code_neq [OF assms(2), unfolded head_codes]
      code_neq [OF assms(3), unfolded head_codes]
    by (auto simp: integerLength_code Let_def split: if_splits)
  have h'n: "of_char h' = ?n + 1"
    using n by (auto simp: h' of_char_of_int nat_add_distrib)
  show ?thesis
    using n by (auto simp: digit_code integerLength_code char_less_code h'n Let_def)
qed

lemma head_predecessor:
  assumes "0 < integerLength [h]" "h \<noteq> CHR ''a''" "h \<noteq> CHR ''A''"
    and h': "h' = char_of (char_code [h] - 1)"
  shows "digit h' \<and> h' < h \<and>
    integerLength [h'] = (if [h'] < ''Z'' then integerLength [h] + 1 else integerLength [h] - 1)"
proof -
  let ?n = "of_char h :: nat"
  have n: "98 \<le> ?n \<and> ?n \<le> 122 \<or> 66 \<le> ?n \<and> ?n \<le> 90"
    using assms(1) code_neq [OF assms(2), unfolded head_codes]
      code_neq [OF assms(3), unfolded head_codes]
    by (auto simp: integerLength_code Let_def split: if_splits)
  have h'n: "of_char h' = ?n - 1"
    using n by (auto simp: h' of_char_of_int nat_diff_distrib)
  show ?thesis
    using n by (auto simp: digit_code integerLength_code char_less_code h'n Let_def)
qed

lemma head_length: "0 < integerLength [h] \<Longrightarrow> 2 \<le> integerLength [h] \<and> integerLength [h] \<le> 27"
  by (auto simp: integerLength_code Let_def split: if_splits)

lemma int_part_Cons:
  "int_part (h # ds) \<longleftrightarrow>
     digit h \<and> integerLength [h] = int (length ds) + 1 \<and> ds \<noteq> [] \<and> (\<forall>d \<in> set ds. digit d)"
  using head_length [of h] by (cases ds) (auto simp: int_part_def)

lemma int_partE:
  assumes "int_part x"
  obtains h ds where "x = h # ds" "digit h" "integerLength [h] = int (length ds) + 1" "ds \<noteq> []"
    "\<forall>d \<in> set ds. digit d" "0 < integerLength [h]"
  using assms by (cases x) (auto simp: int_part_Cons int_part_def [of "[]"])

lemma int_part_length: "int_part x \<Longrightarrow> 2 \<le> length x \<and> length x \<le> 27"
proof (erule int_partE)
  fix h ds
  assume "x = h # ds" "integerLength [h] = int (length ds) + 1" "0 < integerLength [h]"
  then show ?thesis using head_length [of h] by simp
qed

text \<open>Two integer parts with the same head have the same length, so neither extends the other.\<close>

lemma int_part_not_prefix: "int_part x \<Longrightarrow> int_part y \<Longrightarrow> x \<noteq> y \<Longrightarrow> \<not> prefix x y"
proof (rule notI)
  assume "int_part x" "int_part y" "x \<noteq> y" "prefix x y"
  then have "length x = length y"
    by (auto elim!: int_partE)
  with \<open>prefix x y\<close> \<open>x \<noteq> y\<close> show False by (auto simp: prefix_def)
qed

lemma int_part_less_append:
  "int_part x \<Longrightarrow> int_part y \<Longrightarrow> x < y \<Longrightarrow> x @ us < y @ vs"
  using less_append_both int_part_not_prefix by (metis order.irrefl)

lemma integerPartOf_append:
  "int_part i \<Longrightarrow> integerPartOf (i @ f) = Inr i"
  by (auto simp: integerPartOf_def Let_def elim!: int_partE)

lemma isRank_append: "int_part i \<Longrightarrow> isRank (i @ f) \<longleftrightarrow> fraction_ok f"
proof -
  assume i: "int_part i"
  then obtain h ds where x: "i = h # ds" "integerLength [h] = int (length ds) + 1"
    "\<forall>c \<in> set i. digit c"
    by (auto elim!: int_partE)
  show ?thesis
    using x by (auto simp: isRank_def Let_def fraction_ok_def ends_with_def ZERO_eq
        suffix_def nat_add_distrib)
      (metis append_butlast_last_id)+
qed

lemma isRank_split:
  assumes "isRank v"
  obtains i f where "v = i @ f" "int_part i" "fraction_ok f"
proof -
  define n where "n = nat (integerLength (char_at v 0))"
  from assms have v: "v \<noteq> []" "0 \<le> integerLength (char_at v 0)" "n \<le> length v"
    "\<forall>c \<in> set v. digit c"
    by (auto simp: isRank_def Let_def n_def split: if_splits)
  then obtain h ds where h: "v = h # ds" by (cases v) auto
  have "0 < integerLength [h]" using v(2) h by (auto simp: integerLength_code Let_def split: if_splits)
  then have n: "n \<ge> 2" "integerLength [h] = int n" using head_length [of h] h by (auto simp: n_def)
  have "int_part (take n v)"
    using v n h set_take_subset [of n v] by (auto simp: int_part_def char_at_def take_Cons')
  moreover have "v = take n v @ drop n v" by simp
  ultimately show thesis
    using isRank_append [of "take n v" "drop n v"] assms that [of "take n v" "drop n v"] by auto
qed

subsection \<open>Increment and decrement\<close>

abbreviation sing :: "string \<Rightarrow> string list" where "sing \<equiv> map (\<lambda>c. [c])"

lemma concat_sing [simp]: "concat (sing cs) = cs"
  by (induction cs) auto

text \<open>
  The interface the two carry loops share: at its limit digit the loop resets the position
  and goes on, at any other digit it steps the position in the direction \<open>ord\<close> and stops.
\<close>

locale carry_loop =
  fixes loop :: "string \<Rightarrow> string list \<Rightarrow> nat \<Rightarrow> string list \<times> bool"
    and lim :: char and rst :: char and ord :: "char \<Rightarrow> char \<Rightarrow> bool"
  assumes loop_0: "loop x D 0 = (D, True)"
    and loop_limit: "char_at x (k + 1) = [lim] \<Longrightarrow> loop x D (Suc k) = loop x (D[k := [rst]]) k"
    and loop_step: "char_at x (k + 1) = [c] \<Longrightarrow> digit c \<Longrightarrow> c \<noteq> lim \<Longrightarrow>
      \<exists>d. digit d \<and> ord c d \<and> loop x D (Suc k) = (D[k := [d]], False)"
begin

text \<open>
  What the loop computes: either every digit was at its limit and has been reset, or the
  last digit that was not is stepped and the ones after it are reset.
\<close>

lemma loop_spec:
  "k \<le> length ds \<Longrightarrow> \<forall>d \<in> set ds. digit d \<Longrightarrow>
   loop (h # ds) (sing (take k ds) @ R) k = (D, carry) \<Longrightarrow>
   if carry then take k ds = replicate k lim \<and> D = sing (replicate k rst) @ R
   else \<exists>p c d n. take k ds = p @ c # replicate n lim \<and> digit d \<and> ord c d \<and>
          D = sing (p @ d # replicate n rst) @ R"
proof (induction k arbitrary: R)
  case 0
  then show ?case by (auto simp: loop_0)
next
  case (Suc k)
  let ?c = "ds ! k"
  have c: "digit ?c" using Suc.prems by simp
  have at: "char_at (h # ds) (k + 1) = [?c]" using Suc.prems by (simp add: char_at_def)
  have tk: "take (Suc k) ds = take k ds @ [?c]" using Suc.prems by (simp add: take_Suc_conv_app_nth)
  have upd: "(sing (take (Suc k) ds) @ R)[k := v] = sing (take k ds) @ v # R" for v
    using Suc.prems by (simp add: tk list_update_append)
  show ?case
  proof (cases "?c = lim")
    case True
    have "loop (h # ds) (sing (take k ds) @ [rst] # R) k = (D, carry)"
      using Suc.prems(3) loop_limit [of "h # ds" k] at True by (simp add: upd)
    from Suc.IH [OF _ Suc.prems(2) this] Suc.prems(1)
    have IH: "if carry then take k ds = replicate k lim \<and> D = sing (replicate k rst) @ [rst] # R
      else \<exists>p c d n. take k ds = p @ c # replicate n lim \<and> digit d \<and> ord c d \<and>
             D = sing (p @ d # replicate n rst) @ [rst] # R"
      by simp
    have snoc: "replicate n e @ e # xs = replicate (Suc n) e @ xs" for n xs and e :: 'a
      by (simp add: replicate_app_Cons_same)
    show ?thesis
    proof (cases carry)
      case True
      with IH \<open>?c = lim\<close> show ?thesis by (simp add: tk snoc map_replicate replicate_append_same)
    next
      case False
      with IH obtain p c d n where "take k ds = p @ c # replicate n lim" "digit d" "ord c d"
          "D = sing (p @ d # replicate n rst) @ [rst] # R"
        by auto
      then have "take (Suc k) ds = p @ c # replicate (Suc n) lim" "digit d" "ord c d"
          "D = sing (p @ d # replicate (Suc n) rst) @ R"
        using \<open>?c = lim\<close> by (simp_all add: tk snoc map_replicate replicate_append_same)
      with False show ?thesis by (metis (full_types))
    qed
  next
    case False
    then obtain d where d: "digit d" "ord ?c d"
        "loop (h # ds) (sing (take (Suc k) ds) @ R) (Suc k) = (sing (take k ds) @ [d] # R, False)"
      using loop_step [OF at c] upd by metis
    then have "\<not> carry" "D = sing (take k ds @ d # replicate 0 rst) @ R"
      using Suc.prems(3) by simp_all
    moreover have "take (Suc k) ds = take k ds @ ?c # replicate 0 lim" by (simp add: tk)
    ultimately show ?thesis using d by (metis (full_types))
  qed
qed

text \<open>The loop run over all the digits of an integer part.\<close>

lemma loop_digits:
  assumes "\<forall>d \<in> set ds. digit d" "digit rst"
    and run: "loop (h # ds) (sing ds) (length ds) = (D, carry)"
  obtains "carry" "ds = replicate (length ds) lim" "D = sing (replicate (length ds) rst)"
  | p c d n where "\<not> carry" "ds = p @ c # replicate n lim" "digit d" "ord c d"
      "D = sing (p @ d # replicate n rst)" "\<forall>e \<in> set (p @ d # replicate n rst). digit e"
proof -
  have "if carry then ds = replicate (length ds) lim \<and> D = sing (replicate (length ds) rst)
    else \<exists>p c d n. ds = p @ c # replicate n lim \<and> digit d \<and> ord c d \<and>
           D = sing (p @ d # replicate n rst)"
    by (rule loop_spec [of "length ds" ds h "[]" D carry, unfolded take_all [OF order_refl] append_Nil2])
      (use assms(1) run in auto)
  then show thesis
  proof (cases carry)
    case True
    with \<open>if carry then _ else _\<close> show thesis using that(1) by simp
  next
    case False
    with \<open>if carry then _ else _\<close> obtain p c d n where *: "ds = p @ c # replicate n lim"
        "digit d" "ord c d" "D = sing (p @ d # replicate n rst)"
      by auto
    then have "\<forall>e \<in> set (p @ d # replicate n rst). digit e"
      using assms by auto
    with * False show thesis using that(2) by blast
  qed
qed

end

definition next_digit :: "char \<Rightarrow> char \<Rightarrow> bool" where
  "next_digit c d \<longleftrightarrow> digit c \<and> digit d \<and> digitValue [d] = digitValue [c] + 1"

lemma next_digit_less: "next_digit c d \<Longrightarrow> c < d"
  using digitValue_mono [of c d] by (auto simp: next_digit_def)

interpretation inc: carry_loop increment_loop "CHR ''z''" "CHR ''0''" next_digit
proof (unfold_locales, goal_cases)
  case (1 x D)
  show ?case by simp
next
  case (2 x k D)
  then show ?case by (simp add: ZERO_eq)
next
  case (3 x k c D)
  have "digitValue [c] + 1 \<noteq> BASE"
    using 3 digitValue_inj [of c "CHR ''z''"] by auto
  moreover obtain d where "digitAt (digitValue [c] + 1) = [d]" "digit d"
      "digitValue [d] = digitValue [c] + 1"
    using digitValue_bounds [OF 3(2)] calculation digitAt_obtain [of "digitValue [c] + 1"] by auto
  ultimately show ?case using 3 by (auto simp: Let_def next_digit_def)
qed

interpretation dec: carry_loop decrement_loop "CHR ''0''" "CHR ''z''" "\<lambda>c d. next_digit d c"
proof (unfold_locales, goal_cases)
  case (1 x D)
  show ?case by simp
next
  case (2 x k D)
  then show ?case by (simp add: LAST_eq)
next
  case (3 x k c D)
  have "digitValue [c] - 1 \<noteq> -1"
    using 3 digitValue_inj [of c "CHR ''0''"] by auto
  moreover obtain d where "digitAt (digitValue [c] - 1) = [d]" "digit d"
      "digitValue [d] = digitValue [c] - 1"
    using digitValue_bounds [OF 3(2)] calculation digitAt_obtain [of "digitValue [c] - 1"] by auto
  ultimately show ?case using 3 by (auto simp: Let_def next_digit_def)
qed

lemma replicate_last_max:
  "(\<forall>c \<in> set ys. digit c) \<Longrightarrow> length ys \<le> n \<Longrightarrow> ys \<le> replicate n CHR ''z''"
proof (induction ys arbitrary: n)
  case Nil
  then show ?case by simp
next
  case (Cons c ys)
  then obtain m where "n = Suc m" by (cases n) auto
  with Cons show ?case using digit_le_last [of c] by (auto simp: order.order_iff_strict)
qed

lemma replicate_zero_min:
  "(\<forall>c \<in> set ys. digit c) \<Longrightarrow> length ys = n \<Longrightarrow> replicate n CHR ''0'' \<le> ys"
proof (induction ys arbitrary: n)
  case Nil
  then show ?case by simp
next
  case (Cons c ys)
  have "CHR ''0'' \<le> c"
    using Cons.prems(1) digitValue_mono [of c "CHR ''0''"] digitValue_bounds [of c]
    by (force simp: not_less [symmetric])
  with Cons show ?case by (auto simp: order.order_iff_strict)
qed

lemma int_part_le_head: "int_part y \<Longrightarrow> int_part x \<Longrightarrow> x < y \<Longrightarrow> hd x \<le> hd y"
  by (auto elim!: int_partE)

lemma butlast_replicate: "butlast (replicate n c) = replicate (n - 1) c"
  by (simp add: butlast_conv_take min_def)

lemma concat_replicate_sing: "concat (replicate n [c]) = replicate n c"
  by (induction n) simp_all

lemma carry_digits: "sing (replicate n c) = replicate n [c]"
  by (simp add: map_replicate)

text \<open>The four outcomes of \<open>incrementInteger\<close> on a well-formed integer.\<close>

lemma incrementInteger_cases:
  assumes "int_part x"
  obtains (step) h p c d n where "x = h # p @ c # replicate n CHR ''z''" "next_digit c d"
      "int_part (h # p @ d # replicate n CHR ''0'')"
      "incrementInteger x = Some (h # p @ d # replicate n CHR ''0'')"
  | (cross) "hd x = CHR ''Z''" "incrementInteger x = Some ''a0''"
  | (exhausted) "x = replicate 27 CHR ''z''" "incrementInteger x = None"
  | (carry) h k h' k' where "x = h # replicate k CHR ''z''" "h < h'"
      "int_part (h' # replicate k' CHR ''0'')" "h' > CHR ''a'' \<Longrightarrow> k' = k + 1"
      "incrementInteger x = Some (h' # replicate k' CHR ''0'')" "h \<noteq> CHR ''Z''"
proof -
  from assms obtain h ds where x: "x = h # ds" "digit h" "integerLength [h] = int (length ds) + 1"
      "ds \<noteq> []" "\<forall>d \<in> set ds. digit d" "0 < integerLength [h]"
    by (rule int_partE)
  obtain D carry where run: "increment_loop (h # ds) (sing ds) (length ds) = (D, carry)"
    by (cases "increment_loop (h # ds) (sing ds) (length ds)")
  have unfold: "incrementInteger x =
      (if \<not> carry then Some (h # concat D)
       else if h = CHR ''Z'' then Some ''a0'' else if h = CHR ''z'' then None
       else (let h' = char_of (char_code [h] + 1) in
             Some (h' # concat (if ''a'' < [h'] then D @ [ZERO] else butlast D))))"
    by (simp add: incrementInteger_def x(1) run ZERO_INTEGER_def ZERO_eq Let_def del: less_list_code)
  from x(5) zero_digit(1) run show thesis
  proof (cases rule: inc.loop_digits)
    case 1
    have D: "D = sing (replicate (length ds) CHR ''0'')" and z: "ds = replicate (length ds) CHR ''z''"
      using 1 by auto
    consider "h = CHR ''Z''" | "h = CHR ''z''" | "h \<noteq> CHR ''Z''" "h \<noteq> CHR ''z''" by blast
    then show thesis
    proof cases
      case 1
      then show thesis using unfold \<open>carry\<close> x(1) cross by simp
    next
      case 2
      have "length ds = 26" using x(3) 2 by (simp add: integerLength_def)
      then have "x = replicate 27 CHR ''z''" using x(1) z 2 by (simp add: numeral_eq_Suc)
      then show thesis using unfold \<open>carry\<close> 2 exhausted by simp
    next
      case 3
      define h' where "h' = char_of (char_code [h] + 1)"
      note h' = head_successor [OF x(6) 3(2) 3(1) h'_def]
      define ds' where "ds' = concat (if ''a'' < [h'] then D @ [ZERO] else butlast D)"
      define k' where "k' = (if ''a'' < [h'] then length ds + 1 else length ds - 1)"
      have ds': "ds' = replicate k' CHR ''0''"
        by (simp add: ds'_def k'_def D carry_digits ZERO_eq butlast_replicate concat_replicate_sing
              replicate_append_same)
      have "ds' \<noteq> []"
        using ds' k'_def h' x(3,4) head_length [of h'] by (cases ds) (auto split: if_splits)
      then have "int_part (h' # ds')"
        using h' x(3,4) by (auto simp: int_part_Cons ds' k'_def split: if_splits)
      moreover have "incrementInteger x = Some (h' # ds')"
        using \<open>carry\<close> 3 unfolding unfold h'_def ds'_def by (simp only: Let_def if_False if_True simp_thms)
      ultimately show thesis
        using carry [of h "length ds" h' k'] x(1) z h' 3(1) by (simp add: ds' k'_def)
    qed
  next
    case (2 p c d n)
    have "int_part (h # p @ d # replicate n CHR ''0'')" using 2 x by (auto simp: int_part_Cons)
    moreover have "incrementInteger x = Some (h # p @ d # replicate n CHR ''0'')"
      using unfold 2 by (simp del: map_append)
    ultimately show thesis using step x(1) 2 by blast
  qed
qed

lemma int_part_zero: "int_part ''a0''"
  by (simp add: int_part_Cons integerLength_def digit_code)

lemma incrementInteger_spec:
  assumes "int_part x"
  shows "case incrementInteger x of
           Some y \<Rightarrow> int_part y \<and> x < y
         | None \<Rightarrow> \<forall>y. int_part y \<longrightarrow> \<not> x < y"
  using assms
proof (cases rule: incrementInteger_cases)
  case (step h p c d n)
  then show ?thesis using next_digit_less by simp
next
  case cross
  then show ?thesis using int_part_zero assms by (auto elim!: int_partE)
next
  case exhausted
  have "\<not> x < y" if y: "int_part y" for y
    using replicate_last_max [of y 27] int_part_length [OF y] y exhausted(1)
    by (auto simp: int_part_def)
  then show ?thesis using exhausted by simp
next
  case (carry h k h' k')
  then show ?thesis by simp
qed

lemma decrementInteger_spec:
  assumes "int_part x"
  shows "case decrementInteger x of
           Some y \<Rightarrow> int_part y \<and> y < x
         | None \<Rightarrow> x = SMALLEST_INTEGER"
proof -
  from assms obtain h ds where x: "x = h # ds" "digit h" "integerLength [h] = int (length ds) + 1"
      "ds \<noteq> []" "\<forall>d \<in> set ds. digit d" "0 < integerLength [h]"
    by (rule int_partE)
  obtain D carry where run: "decrement_loop (h # ds) (sing ds) (length ds) = (D, carry)"
    by (cases "decrement_loop (h # ds) (sing ds) (length ds)")
  have unfold: "decrementInteger x =
      (if \<not> carry then Some (h # concat D)
       else if h = CHR ''a'' then Some ''Zz'' else if h = CHR ''A'' then None
       else (let h' = char_of (char_code [h] - 1) in
             Some (h' # concat (if [h'] < ''Z'' then D @ [LAST] else butlast D))))"
    by (simp add: decrementInteger_def x(1) run LAST_eq Let_def del: less_list_code)
  from x(5) last_digit(1) run show ?thesis
  proof (cases rule: dec.loop_digits)
    case 1
    have D: "D = sing (replicate (length ds) CHR ''z'')" and z: "ds = replicate (length ds) CHR ''0''"
      using 1 by auto
    consider "h = CHR ''a''" | "h = CHR ''A''" | "h \<noteq> CHR ''a''" "h \<noteq> CHR ''A''" by blast
    then show ?thesis
    proof cases
      case 1
      have "int_part ''Zz''" by (simp add: int_part_Cons integerLength_def digit_code)
      moreover have "''Zz'' < x" using x(1) 1 by simp
      ultimately show ?thesis using unfold \<open>carry\<close> 1 by simp
    next
      case 2
      have "length ds = 26" using x(3) 2 by (simp add: integerLength_def)
      then have "ds = replicate 26 CHR ''0''" using z by simp
      then have "x = SMALLEST_INTEGER"
        using x(1) 2 by (simp add: SMALLEST_INTEGER_def ZERO_eq numeral_eq_Suc)
      then show ?thesis using unfold \<open>carry\<close> 2 by simp
    next
      case 3
      define h' where "h' = char_of (char_code [h] - 1)"
      note h' = head_predecessor [OF x(6) 3(1) 3(2) h'_def]
      define ds' where "ds' = concat (if [h'] < ''Z'' then D @ [LAST] else butlast D)"
      have ds': "ds' = replicate (if [h'] < ''Z'' then length ds + 1 else length ds - 1) CHR ''z''"
        by (simp add: ds'_def D carry_digits LAST_eq butlast_replicate concat_replicate_sing
              replicate_append_same)
      have "ds' \<noteq> []" using ds' h' x(3,4) head_length [of h'] by (cases ds) (auto split: if_splits)
      have "int_part (h' # ds')"
        using h' x(3,4) \<open>ds' \<noteq> []\<close> by (auto simp: int_part_Cons ds' split: if_splits)
      moreover have "h' # ds' < x" using x(1) h' by simp
      moreover have "decrementInteger x = Some (h' # ds')"
        using \<open>carry\<close> 3 unfolding unfold h'_def ds'_def by (simp only: Let_def if_False if_True simp_thms)
      ultimately show ?thesis by simp
    qed
  next
    case (2 p c d n)
    have "int_part (h # p @ d # replicate n CHR ''z'')"
      using 2 x by (auto simp: int_part_Cons)
    moreover have "h # p @ d # replicate n CHR ''z'' < x"
      using 2 x(1) next_digit_less by simp
    moreover have "decrementInteger x = Some (h # p @ d # replicate n CHR ''z'')"
      using unfold 2 by (simp del: map_append)
    ultimately show ?thesis by simp
  qed
qed

section \<open>Generated ranks\<close>

lemma isRank_int_part: "int_part i \<Longrightarrow> isRank i"
  using isRank_append [of i "[]"] by simp

lemma isRank_ZERO_INTEGER: "isRank ZERO_INTEGER"
  by (rule isRank_int_part)
    (simp add: ZERO_INTEGER_def ZERO_eq int_part_Cons integerLength_def digit_code)

lemma midpoint_above:
  "fraction_ok f \<Longrightarrow> fraction_ok (midpoint f None) \<and> f < midpoint f None"
  using midpoint_between [of f None] by simp

lemma afterRank_spec:
  assumes "isRank b"
  shows "\<exists>r. afterRank b = Inr r \<and> isRank r \<and> b < r"
proof -
  from assms obtain i f where b: "b = i @ f" "int_part i" "fraction_ok f" by (rule isRank_split)
  show ?thesis
  proof (cases "incrementInteger i")
    case None
    then show ?thesis
      using b midpoint_above [OF b(3)] by (simp add: afterRank_def integerPartOf_append isRank_append)
  next
    case (Some y)
    then have "int_part y" "i < y" using incrementInteger_spec [OF b(2)] by auto
    then show ?thesis
      using b Some int_part_less_append [OF b(2), of y f "[]"]
      by (simp add: afterRank_def integerPartOf_append isRank_int_part)
  qed
qed

lemma beforeRank_spec:
  assumes "isRank a" "a \<noteq> SMALLEST_INTEGER"
  shows "\<exists>r. beforeRank a = Inr r \<and> isRank r \<and> r < a"
proof -
  from assms obtain i f where a: "a = i @ f" "int_part i" "fraction_ok f" by (auto elim: isRank_split)
  consider "i = SMALLEST_INTEGER" | "i \<noteq> SMALLEST_INTEGER" "f \<noteq> []"
    | "i \<noteq> SMALLEST_INTEGER" "f = []" by blast
  then show ?thesis
  proof cases
    case 1
    then have "[] < f" using a(1) assms(2) by (cases f) auto
    then show ?thesis
      using a 1 midpoint_between [of "[]" "Some f"]
      by (simp add: beforeRank_def integerPartOf_append isRank_append)
  next
    case 2
    then show ?thesis
      using a by (simp add: beforeRank_def integerPartOf_append isRank_int_part less_append_right)
  next
    case 3
    then obtain y where "decrementInteger i = Some y" "int_part y" "y < i"
      using decrementInteger_spec [OF a(2)] by (auto split: option.splits)
    with a 3 show ?thesis
      by (simp add: beforeRank_def integerPartOf_append [of i "[]", simplified] isRank_int_part)
  qed
qed

lemma between_both_spec:
  assumes "isRank b" "isRank a" "b < a"
  shows "\<exists>r. between_both b a = Inr r \<and> isRank r \<and> b < r \<and> r < a"
proof -
  from assms obtain i f where b: "b = i @ f" "int_part i" "fraction_ok f" by (auto elim: isRank_split)
  from assms obtain j g where a: "a = j @ g" "int_part j" "fraction_ok g" by (auto elim: isRank_split)
  show ?thesis
  proof (cases "i = j")
    case True
    then show ?thesis
      using b a assms(3) midpoint_between [of f "Some g"]
      by (simp add: between_both_def integerPartOf_append isRank_append)
  next
    case False
    have ij: "i < j"
      using assms(3) b a False int_part_less_append [of j i g f] by (meson linorder_less_linear order.asym)
    then obtain y where y: "incrementInteger i = Some y" "int_part y" "i < y"
      using incrementInteger_spec [OF b(2)] a(2) by (auto split: option.splits)
    show ?thesis
    proof (cases "y < a")
      case True
      then show ?thesis
        using b a y False int_part_less_append [OF b(2) y(2) y(3), of f "[]"]
        by (simp add: between_both_def integerPartOf_append isRank_int_part)
    next
      case below: False
      have "i @ midpoint f None < a" using int_part_less_append [OF b(2) a(2) ij] a(1) by simp
      then show ?thesis
        using b a y False below midpoint_above [OF b(3)]
        by (simp add: between_both_def integerPartOf_append isRank_append)
    qed
  qed
qed

section \<open>The number an integer part denotes\<close>

text \<open>
  The non-negative integers of the encoding in order: those of length \<open>n + 1\<close> follow the
  \<open>62 + \<dots> + 62 ^ (n - 1)\<close> shorter ones. \<open>incrementInteger\<close> adds one.
\<close>

definition digits_value :: "string \<Rightarrow> nat" where
  "digits_value ds = foldl (\<lambda>v c. 62 * v + nat (digitValue [c])) 0 ds"

definition shorter_integers :: "nat \<Rightarrow> nat" where
  "shorter_integers n = (\<Sum>i = 1..n. 62 ^ i)"

definition integer_value :: "string \<Rightarrow> nat" where
  "integer_value x = shorter_integers (length x - 2) + digits_value (tl x)"

lemma digits_value_snoc: "digits_value (ds @ [c]) = 62 * digits_value ds + nat (digitValue [c])"
  by (simp add: digits_value_def)

lemma digits_value_append: "digits_value (ds @ es) = digits_value ds * 62 ^ length es + digits_value es"
proof (induction es rule: rev_induct)
  case Nil
  then show ?case by (simp add: digits_value_def)
next
  case (snoc c es)
  then show ?case by (simp add: digits_value_snoc flip: append_assoc)
qed

lemma digits_value_replicate:
  "digits_value (replicate n CHR ''0'') = 0" "digits_value (replicate n CHR ''z'') + 1 = 62 ^ n"
proof (induction n)
  case 0
  case 1 show ?case by (simp add: digits_value_def)
  case 2 show ?case by (simp add: digits_value_def)
next
  case (Suc n)
  case 1 show ?case using Suc(1) by (simp add: digits_value_snoc flip: replicate_append_same)
  case 2 show ?case using Suc(2) by (simp add: digits_value_snoc flip: replicate_append_same)
qed

lemma digits_value_Cons: "digits_value (c # ds) = nat (digitValue [c]) * 62 ^ length ds + digits_value ds"
  using digits_value_append [of "[c]" ds] by (simp add: digits_value_def)

lemma shorter_integers_Suc: "shorter_integers (Suc n) = shorter_integers n + 62 ^ Suc n"
  by (simp add: shorter_integers_def)

lemma shorter_integers_mono: "m \<le> n \<Longrightarrow> shorter_integers m \<le> shorter_integers n"
  unfolding shorter_integers_def by (rule sum_mono2) auto

lemma incrementInteger_value:
  assumes "int_part x" "CHR ''a'' \<le> hd x"
  shows "case incrementInteger x of
           Some y \<Rightarrow> integer_value y = integer_value x + 1 \<and> CHR ''a'' \<le> hd y
         | None \<Rightarrow> integer_value x + 1 = shorter_integers 26"
  using assms(1)
proof (cases rule: incrementInteger_cases)
  case (step h p c d n)
  have "digits_value (c # replicate n CHR ''z'') + 1 = digits_value (d # replicate n CHR ''0'')"
    using digits_value_replicate [of n] step(2) digitValue_bounds [of c]
    by (simp add: digits_value_Cons next_digit_def nat_add_distrib)
  then show ?thesis using step assms(2) by (simp add: integer_value_def digits_value_append)
next
  case cross
  then show ?thesis using assms(2) by simp
next
  case exhausted
  have "tl x = replicate 26 CHR ''z''" using exhausted by (simp add: numeral_eq_Suc)
  then show ?thesis
    using exhausted digits_value_replicate(2) [of 26] shorter_integers_Suc [of 25]
    by (simp add: integer_value_def)
next
  case (carry h k h' k')
  then have "k' = k + 1" using assms(2) by simp
  moreover have "k \<noteq> 0" using assms(1) carry(1) by (auto simp: int_part_Cons)
  then obtain m where "k = Suc m" by (cases k) auto
  ultimately show ?thesis
    using carry assms(2) digits_value_replicate [of k] digits_value_replicate(1) [of k']
      shorter_integers_Suc [of m]
    by (simp add: integer_value_def)
qed

lemma integer_value_length:
  assumes "int_part x" "integer_value x < shorter_integers m"
  shows "length x \<le> m + 1"
proof (rule ccontr)
  assume "\<not> length x \<le> m + 1"
  then have "shorter_integers m \<le> shorter_integers (length x - 2)"
    by (intro shorter_integers_mono) simp
  with assms(2) show False by (simp add: integer_value_def)
qed

section \<open>Sequences of ranks\<close>

text \<open>
  The interface \<open>rank_loop\<close> relies on: asked for a rank after the cursor, the operation
  returns a valid one above it, as long as the budget \<open>room\<close> of the cursor is not used up.
\<close>

locale rank_source =
  fixes gen :: "'r::linorder option \<Rightarrow> ('e, 'r) result"
    and ok :: "'r option \<Rightarrow> nat \<Rightarrow> bool" and good :: "'r \<Rightarrow> bool"
  assumes next_ok: "ok c (Suc n) \<Longrightarrow>
    \<exists>r. gen c = Inr r \<and> good r \<and> ok (Some r) n \<and> (\<forall>b. c = Some b \<longrightarrow> b < r)"
begin

lemma rank_loop_ok:
  "ok c n \<Longrightarrow> \<exists>rs. rank_loop gen n c = Inr rs \<and> length rs = n \<and> (\<forall>r \<in> set rs. good r) \<and>
     sorted_wrt (<) rs \<and> (\<forall>b. c = Some b \<longrightarrow> (\<forall>r \<in> set rs. b < r))"
proof (induction n arbitrary: c)
  case 0
  then show ?case by simp
next
  case (Suc n)
  obtain r where r: "gen c = Inr r" "good r" "ok (Some r) n" "\<forall>b. c = Some b \<longrightarrow> b < r"
    using next_ok [OF Suc.prems] by blast
  obtain rs where "rank_loop gen n (Some r) = Inr rs" "length rs = n" "\<forall>r \<in> set rs. good r"
      "sorted_wrt (<) rs" "\<forall>s \<in> set rs. r < s"
    using Suc.IH [OF r(3)] by auto
  with r show ?case by fastforce
qed

end

lemma between_append_spec: "isRank b \<Longrightarrow> \<exists>r. between (Some b) None = Inr r \<and> isRank r \<and> b < r"
  using afterRank_spec [of b] by (auto simp: between_def requireRank_def)

lemma between_empty: "between None None = Inr ZERO_INTEGER"
  by (simp add: between_def)

interpretation ranks_above: rank_source "\<lambda>c. between c None" "\<lambda>c n. \<forall>b. c = Some b \<longrightarrow> isRank b" isRank
proof (unfold_locales, goal_cases)
  case (1 c n)
  then show ?case
    using between_append_spec by (cases c) (auto simp: between_empty isRank_ZERO_INTEGER)
qed

text \<open>The same operation with a bound on the length: \<open>n\<close> more integers fit below \<open>m + 2\<close> characters.\<close>

definition room :: "nat \<Rightarrow> string option \<Rightarrow> nat \<Rightarrow> bool" where
  "room m c n \<longleftrightarrow>
     (case c of None \<Rightarrow> n \<le> shorter_integers m
      | Some b \<Rightarrow> int_part b \<and> CHR ''a'' \<le> hd b \<and> integer_value b + n < shorter_integers m)"

lemma afterRank_int_part:
  "int_part b \<Longrightarrow> incrementInteger b = Some y \<Longrightarrow> between (Some b) None = Inr y"
  using integerPartOf_append [of b "[]"]
  by (simp add: between_def requireRank_def isRank_int_part afterRank_def)

lemma short_ranks_law:
  assumes "m \<le> 26"
  shows "rank_source (\<lambda>c. between c None) (room m) (\<lambda>r. isRank r \<and> length r \<le> m + 1)"
proof (unfold_locales, goal_cases)
  case (1 c n)
  show ?case
  proof (cases c)
    case None
    have "integer_value ''a0'' = 0"
      by (simp add: integer_value_def digits_value_def shorter_integers_def)
    moreover have "length ''a0'' \<le> m + 1"
      using 1 None integer_value_length [OF int_part_zero, of m] calculation
      by (simp add: room_def)
    ultimately show ?thesis
      using 1 None by (simp add: between_empty room_def ZERO_INTEGER_def ZERO_eq
          int_part_zero isRank_int_part)
  next
    case (Some b)
    then have b: "int_part b" "CHR ''a'' \<le> hd b" "integer_value b + Suc n < shorter_integers m"
      using 1 by (auto simp: room_def)
    have "shorter_integers m \<le> shorter_integers 26" using assms by (rule shorter_integers_mono)
    then obtain y where y: "incrementInteger b = Some y" "integer_value y = integer_value b + 1"
        "CHR ''a'' \<le> hd y" "int_part y" "b < y"
      using b incrementInteger_value [OF b(1,2)] incrementInteger_spec [OF b(1)]
      by (auto split: option.splits)
    then have "length y \<le> m + 1" using b integer_value_length [of y m] by simp
    then show ?thesis
      using Some b y afterRank_int_part by (auto simp: room_def isRank_int_part)
  qed
qed

interpretation short_ranks: rank_source "\<lambda>c. between c None" "room (min m 26)"
    "\<lambda>r. isRank r \<and> length r \<le> min m 26 + 1" for m
  by (rule short_ranks_law) simp

text \<open>Before the smallest integer there is no room, and \<open>between\<close> does not notice.\<close>

lemma between_prepend_spec:
  assumes "isRank a"
  shows "\<exists>r. between None (Some a) = Inr r \<and> isRank r \<and> (r < a \<longleftrightarrow> a \<noteq> SMALLEST_INTEGER)"
proof (cases "a = SMALLEST_INTEGER")
  case False
  then show ?thesis
    using beforeRank_spec [OF assms] assms by (auto simp: between_def requireRank_def)
next
  case True
  have "between None (Some SMALLEST_INTEGER) = Inr (SMALLEST_INTEGER @ ''0V'')" by code_simp
  moreover have "isRank (SMALLEST_INTEGER @ ''0V'')" by code_simp
  ultimately show ?thesis using True by (simp add: not_less less_imp_le less_append_right)
qed

section \<open>The order of ranked rows\<close>

lemma compareRanked_less_iff:
  "compareRanked a b < 0 \<longleftrightarrow> rank_of a < rank_of b \<or> rank_of a = rank_of b \<and> id_of a < id_of b"
  by (auto simp: compareRanked_def)

lemma compareRanked_le_iff:
  "compareRanked a b \<le> 0 \<longleftrightarrow> rank_of a < rank_of b \<or> rank_of a = rank_of b \<and> id_of a \<le> id_of b"
  by (auto simp: compareRanked_def)

instantiation ranked :: linorder
begin

definition less_eq_ranked :: "ranked \<Rightarrow> ranked \<Rightarrow> bool" where
  "less_eq_ranked a b \<longleftrightarrow> compareRanked a b \<le> 0"

definition less_ranked :: "ranked \<Rightarrow> ranked \<Rightarrow> bool" where
  "less_ranked a b \<longleftrightarrow> compareRanked a b < 0"

instance
  by standard
    (auto simp: less_eq_ranked_def less_ranked_def compareRanked_less_iff compareRanked_le_iff
      intro: ranked.expand)

end

lemma compareRanked_sorted: "sorted_wrt (\<lambda>a b. compareRanked a b \<le> 0) = sorted"
proof -
  have "(\<lambda>a b. compareRanked a b \<le> 0) = (\<le>)"
    by (intro ext) (simp add: less_eq_ranked_def)
  then show ?thesis by simp
qed

lemmas ranked_order = less_eq_ranked_def less_ranked_def compareRanked_le_iff compareRanked_less_iff

section \<open>The properties\<close>

text \<open>C6: inserting between two valid ranks in order never fails, and the generated string
  is a valid rank strictly between the two neighbours.\<close>

theorem between_strict:
  assumes "isRank b" "isRank a" "b < a"
  shows "\<exists>r. between (Some b) (Some a) = Inr r \<and> isRank r \<and> b < r \<and> r < a"
  using between_both_spec [OF assms] assms by (auto simp: between_def requireRank_def)

theorem between_strict_witness:
  "isRank ''a0'' \<and> isRank ''a01'' \<and> ''a0'' < ''a01'' \<and>
   (\<exists>r. between (Some ''a0'') (Some ''a01'') = Inr r \<and> isRank r \<and> ''a0'' < r \<and> r < ''a01'')"
proof -
  have h: "isRank ''a0''" "isRank ''a01''" "''a0'' < ''a01''"
    by (code_simp, code_simp, simp)
  show ?thesis using h between_strict [OF h] by blast
qed

text \<open>C7: inserting at the start of a list yields a valid rank; it is below the first rank
  exactly when that rank is not the smallest integer of the encoding, for which the code
  returns a rank above it instead of refusing.\<close>

theorem between_prepend:
  assumes "isRank a"
  shows "\<exists>r. between None (Some a) = Inr r \<and> isRank r \<and> (r < a \<longleftrightarrow> a \<noteq> SMALLEST_INTEGER)"
  using assms by (rule between_prepend_spec)

theorem between_prepend_witness:
  "isRank ''Zz'' \<and> (\<exists>r. between None (Some ''Zz'') = Inr r \<and> isRank r \<and>
     (r < ''Zz'' \<longleftrightarrow> ''Zz'' \<noteq> SMALLEST_INTEGER))"
proof -
  have h: "isRank ''Zz''" by code_simp
  show ?thesis using h between_prepend [OF h] by blast
qed

text \<open>C8: \<open>between\<close> throws exactly when a neighbour is not a rank or the two are equal or out
  of order; its two "rank space exhausted" branches are never reached.\<close>

theorem between_fails_iff:
  "(\<exists>e. between before after = Inl e) \<longleftrightarrow>
     (\<exists>b. before = Some b \<and> \<not> isRank b) \<or> (\<exists>a. after = Some a \<and> \<not> isRank a) \<or>
     (\<exists>b a. before = Some b \<and> after = Some a \<and> a \<le> b)"
proof (cases before; cases after)
  assume "before = None" "after = None"
  then show ?thesis by (simp add: between_def)
next
  fix a assume *: "before = None" "after = Some a"
  then show ?thesis
    using between_prepend_spec [of a] by (cases "isRank a") (auto simp: between_def requireRank_def)
next
  fix b assume *: "before = Some b" "after = None"
  then show ?thesis
    using between_append_spec [of b] by (cases "isRank b") (auto simp: between_def requireRank_def)
next
  fix b a assume *: "before = Some b" "after = Some a"
  show ?thesis
  proof (cases "isRank b \<and> isRank a")
    case True
    then show ?thesis
      using * between_both_spec [of b a] by (auto simp: between_def requireRank_def not_le)
  qed (use * in \<open>auto simp: between_def requireRank_def bind_result_def\<close>)
qed

text \<open>C9: \<open>rankSequence\<close> of a non-negative count succeeds with that many valid ranks, strictly
  ascending.\<close>

theorem rankSequence_ascending:
  assumes "0 \<le> n"
  shows "\<exists>rs. rankSequence n = Inr rs \<and> int (length rs) = n \<and> sorted_wrt (<) rs \<and>
    list_all isRank rs"
  using ranks_above.rank_loop_ok [of None "nat n"] assms
  by (auto simp: rankSequence_def list_all_iff)

theorem rankSequence_ascending_witness:
  "(0::int) \<le> 3 \<and> (\<exists>rs. rankSequence 3 = Inr rs \<and> int (length rs) = 3 \<and> sorted_wrt (<) rs \<and>
     list_all isRank rs)"
proof -
  have h: "(0::int) \<le> 3" by simp
  show ?thesis using h rankSequence_ascending [OF h] by blast
qed

text \<open>Sequential ranks grow logarithmically: a sequence of at most
  \<open>62 + 62^2 + \<dots> + 62^m\<close> ranks has none longer than \<open>m + 1\<close> characters (for the 10,000
  cards of the module's comment, \<open>m = 3\<close> and four characters).\<close>

theorem rankSequence_short:
  assumes "0 \<le> n" "n \<le> int (shorter_integers m)" "m \<le> 26"
  shows "\<exists>rs. rankSequence n = Inr rs \<and> list_all (\<lambda>r. length r \<le> m + 1) rs"
proof -
  have "nat n \<le> shorter_integers m" using assms(2) by simp
  then show ?thesis
    using short_ranks.rank_loop_ok [of m None "nat n"] assms(1,3)
    by (auto simp: rankSequence_def list_all_iff room_def min_def)
qed

theorem rankSequence_short_witness:
  "10000 \<le> int (shorter_integers 3) \<and>
   (\<exists>rs. rankSequence 10000 = Inr rs \<and> list_all (\<lambda>r. length r \<le> 3 + 1) rs)"
proof -
  have h: "10000 \<le> int (shorter_integers 3)"
    using shorter_integers_Suc [of 2] by simp
  show ?thesis using h rankSequence_short [of 10000 3, OF _ h] by simp
qed

text \<open>Two clients that hold the same rows and sort them with \<open>compareRanked\<close> show the same
  list, equal ranks included.\<close>

theorem compareRanked_converges:
  assumes "mset xs = mset ys"
    and "sorted_wrt (\<lambda>a b. compareRanked a b \<le> 0) xs"
    and "sorted_wrt (\<lambda>a b. compareRanked a b \<le> 0) ys"
  shows "xs = ys"
proof -
  have "sorted xs" "sorted ys" using assms(2,3) by (simp_all only: compareRanked_sorted)
  then show ?thesis using assms(1) properties_for_sort by metis
qed

theorem compareRanked_converges_witness:
  "insort (Ranked ''a0'' ''u2'') [Ranked ''a0'' ''u1'', Ranked ''a1'' ''u0''] =
   [Ranked ''a0'' ''u1'', Ranked ''a0'' ''u2'', Ranked ''a1'' ''u0'']"
proof (rule compareRanked_converges)
  let ?x = "Ranked ''a0'' ''u1''" and ?y = "Ranked ''a0'' ''u2''" and ?z = "Ranked ''a1'' ''u0''"
  show "mset (insort ?y [?x, ?z]) = mset [?x, ?y, ?z]" by (simp only: mset_insort) simp
  show "sorted_wrt (\<lambda>a b. compareRanked a b \<le> 0) (insort ?y [?x, ?z])"
    by (simp only: compareRanked_sorted sorted_insort) (simp add: ranked_order)
  show "sorted_wrt (\<lambda>a b. compareRanked a b \<le> 0) [?x, ?y, ?z]"
    by (simp add: compareRanked_def)
qed

end
