(* ===== verification/Permissions.thy ===== *)
theory Permissions
  imports Prelude
begin

text \<open>
  The catalogue half of the policy engine, \<open>packages/policy/src\<close>: \<open>permissions.ts\<close> (the
  permissions and their classes), \<open>roles.ts\<close> (what each organisation role grants),
  \<open>tuples.ts\<close> (what each relation grants) and \<open>assignment.ts\<close> (who may hold a role).

  Permissions and roles are strings: at run time they come from rows and tokens, and the engine
  checks them against its catalogue, so an unknown one is a value the model must have. A
  relation is a datatype: \<open>tenancy/resolve.ts\<close> drops every row whose relation is unknown before
  the engine sees it, and \<open>RELATION_GRANTS\<close> is a record over exactly these five.
\<close>

section \<open>permissions.ts\<close>

definition RESOURCE_TYPES :: "string list" where
  "RESOURCE_TYPES =
    [''org'', ''member'', ''team'', ''project'', ''board'', ''card'', ''channel'', ''message'',
     ''space'', ''page'', ''comment'', ''attachment'', ''automation'', ''webhook'',
     ''integration'', ''phoneNumber'', ''call'', ''sms'', ''recording'', ''audit'', ''apiToken'']"

definition PERMISSIONS :: "string list" where
  "PERMISSIONS =
    [''org:read'', ''org:update'', ''org:delete'', ''org:billing'', ''member:read'',
     ''member:invite'', ''member:manage'', ''member:remove'', ''team:read'', ''team:manage'',
     ''project:read'', ''project:create'', ''project:update'', ''project:delete'',
     ''board:read'', ''board:create'', ''board:update'', ''board:delete'', ''card:read'',
     ''card:create'', ''card:update'', ''card:move'', ''card:delete'', ''channel:read'',
     ''channel:create'', ''channel:manage'', ''message:read'', ''message:create'',
     ''message:update'', ''message:delete'', ''space:read'', ''space:create'',
     ''space:manage'', ''page:read'', ''page:create'', ''page:update'', ''page:delete'',
     ''comment:create'', ''comment:delete'', ''attachment:upload'', ''attachment:download'',
     ''automation:manage'', ''webhook:manage'', ''integration:manage'', ''apiToken:create'',
     ''apiToken:revoke'', ''phoneNumber:read'', ''phoneNumber:purchase'',
     ''phoneNumber:release'', ''call:place'', ''call:read'', ''sms:send'', ''sms:read'',
     ''recording:read'', ''recording:export'', ''audit:read'', ''audit:export'',
     ''search:query'', ''search:manage'', ''analytics:read'', ''ai:use'', ''pr:view'',
     ''pr:review'', ''pr:merge'', ''repo:connect'']"

definition ORG_LEVEL_PERMISSIONS :: "string list" where
  "ORG_LEVEL_PERMISSIONS =
    [''org:read'', ''org:update'', ''org:delete'', ''org:billing'', ''member:read'',
     ''member:invite'', ''member:manage'', ''member:remove'', ''team:read'', ''team:manage'',
     ''audit:read'', ''analytics:read'', ''apiToken:create'', ''apiToken:revoke'',
     ''automation:manage'', ''webhook:manage'', ''integration:manage'', ''phoneNumber:read'',
     ''phoneNumber:purchase'', ''phoneNumber:release'', ''call:read'', ''call:place'',
     ''sms:read'', ''sms:send'', ''recording:read'', ''recording:export'', ''ai:use'',
     ''pr:view'', ''pr:review'', ''pr:merge'', ''repo:connect'']"

definition isOrgLevel :: "string \<Rightarrow> bool" where
  "isOrgLevel permission = (permission \<in> set ORG_LEVEL_PERMISSIONS)"

definition isPermission :: "string \<Rightarrow> bool" where
  "isPermission value = (value \<in> set PERMISSIONS)"

text \<open>
  \<open>permission.slice(permission.indexOf(':') + 1)\<close> and \<open>permission.slice(0, indexOf(':'))\<close>. With no
  colon the index is \<open>-1\<close>: the first slice is then the whole string, the second drops the last
  character, as JavaScript's negative end does.
\<close>

definition actionOf :: "string \<Rightarrow> string" where
  "actionOf permission = drop (nat (index_of permission '':'' + 1)) permission"

definition isReadOnly :: "string \<Rightarrow> bool" where
  "isReadOnly permission =
     (let action = actionOf permission in action = ''read'' \<or> action = ''download'')"

definition resourceOf :: "string \<Rightarrow> string" where
  "resourceOf permission =
     (let i = index_of permission '':'' in
      if 0 \<le> i then take (nat i) permission else butlast permission)"

definition GRANTABLE_PERMISSIONS :: "string list" where
  "GRANTABLE_PERMISSIONS =
    [''phoneNumber:read'', ''call:place'', ''call:read'', ''sms:send'', ''sms:read'',
     ''automation:manage'', ''webhook:manage'', ''integration:manage'', ''apiToken:create'',
     ''apiToken:revoke'', ''ai:use'', ''pr:view'', ''pr:review'', ''pr:merge'',
     ''repo:connect'']"

definition isGrantable :: "string \<Rightarrow> bool" where
  "isGrantable permission = (permission \<in> set GRANTABLE_PERMISSIONS)"

section \<open>roles.ts\<close>

definition ROLES :: "string list" where
  "ROLES = [''owner'', ''admin'', ''member'', ''guest'']"

definition OWNER :: "string list" where "OWNER = PERMISSIONS"

definition ADMIN :: "string list" where
  "ADMIN =
    [''org:read'', ''member:read'', ''member:invite'', ''team:read'', ''team:manage'',
     ''project:read'', ''project:create'', ''project:update'', ''project:delete'',
     ''board:read'', ''board:create'', ''board:update'', ''board:delete'', ''card:read'',
     ''card:create'', ''card:update'', ''card:move'', ''card:delete'', ''channel:read'',
     ''channel:create'', ''channel:manage'', ''message:read'', ''message:create'',
     ''message:update'', ''message:delete'', ''space:read'', ''space:create'',
     ''space:manage'', ''page:read'', ''page:create'', ''page:update'', ''page:delete'',
     ''comment:create'', ''comment:delete'', ''attachment:upload'', ''attachment:download'',
     ''automation:manage'', ''webhook:manage'', ''integration:manage'', ''apiToken:create'',
     ''apiToken:revoke'', ''phoneNumber:read'', ''call:place'', ''call:read'', ''sms:send'',
     ''sms:read'', ''recording:read'', ''audit:read'', ''search:query'', ''search:manage'',
     ''analytics:read'', ''ai:use'', ''pr:view'', ''pr:review'', ''pr:merge'',
     ''repo:connect'']"

definition MEMBER :: "string list" where
  "MEMBER =
    [''org:read'', ''member:read'', ''team:read'', ''project:read'', ''board:read'',
     ''card:read'', ''card:create'', ''card:update'', ''card:move'', ''card:delete'',
     ''channel:read'', ''message:read'', ''message:create'', ''message:update'',
     ''space:read'', ''page:read'', ''page:create'', ''page:update'', ''comment:create'',
     ''attachment:upload'', ''attachment:download'', ''search:query'']"

definition GUEST :: "string list" where "GUEST = []"

definition ROLE_SETS :: "(string \<times> string list) list" where
  "ROLE_SETS = [(''owner'', OWNER), (''admin'', ADMIN), (''member'', MEMBER), (''guest'', GUEST)]"

definition roleGrants :: "string \<Rightarrow> string \<Rightarrow> bool" where
  "roleGrants role permission =
     (case map_of ROLE_SETS role of Some granted \<Rightarrow> permission \<in> set granted | None \<Rightarrow> False)"

definition bypassesRestrictions :: "string \<Rightarrow> bool" where
  "bypassesRestrictions role = (role = ''owner'' \<or> role = ''admin'')"

definition isRole :: "string \<Rightarrow> bool" where
  "isRole value = (value \<in> set ROLES)"

section \<open>tuples.ts\<close>

datatype relation = Owner | Editor | Commenter | Viewer | Member

fun relation_name :: "relation \<Rightarrow> string" where
  "relation_name Owner = ''owner''"
| "relation_name Editor = ''editor''"
| "relation_name Commenter = ''commenter''"
| "relation_name Viewer = ''viewer''"
| "relation_name Member = ''member''"

definition RELATIONS :: "relation list" where
  "RELATIONS = [Owner, Editor, Commenter, Viewer, Member]"

record ResourceRef =
  ref_type :: string
  ref_id :: string

record RelationshipTuple =
  tup_subject :: string
  tup_relation :: relation
  tup_object :: ResourceRef

record RelationGrant =
  actions :: "string list"
  extra :: "string list"
  restrictive :: bool

fun RELATION_GRANTS :: "relation \<Rightarrow> RelationGrant" where
  "RELATION_GRANTS Viewer =
     \<lparr>actions = [''read'', ''download''], extra = [], restrictive = True\<rparr>"
| "RELATION_GRANTS Commenter =
     \<lparr>actions = [''read'', ''download''], extra = [''comment:create''], restrictive = True\<rparr>"
| "RELATION_GRANTS Member =
     \<lparr>actions = [''read'', ''download''],
      extra = [''message:create'', ''message:update'', ''comment:create'', ''attachment:upload''],
      restrictive = True\<rparr>"
| "RELATION_GRANTS Editor =
     \<lparr>actions = [''read'', ''download'', ''create'', ''update'', ''move''],
      extra = [''comment:create'', ''attachment:upload''], restrictive = False\<rparr>"
| "RELATION_GRANTS Owner =
     \<lparr>actions = [''read'', ''download'', ''create'', ''update'', ''move'', ''delete'', ''manage''],
      extra = [''comment:create'', ''attachment:upload''], restrictive = False\<rparr>"

definition grantSet :: "relation \<Rightarrow> string list" where
  "grantSet relation =
     (let grant = RELATION_GRANTS relation in
      filter (\<lambda>permission. actionOf permission \<in> set (actions grant) \<or>
                            permission \<in> set (extra grant)) PERMISSIONS)"

definition relationGrants :: "relation \<Rightarrow> string \<Rightarrow> bool" where
  "relationGrants relation permission = (permission \<in> set (grantSet relation))"

definition isRestrictive :: "relation \<Rightarrow> bool" where
  "isRestrictive relation = restrictive (RELATION_GRANTS relation)"

definition permissionsForRelation :: "relation \<Rightarrow> string list" where
  "permissionsForRelation relation = grantSet relation"

definition isRelation :: "string \<Rightarrow> bool" where
  "isRelation value = (value \<in> set (map relation_name RELATIONS))"

definition formatTuple :: "RelationshipTuple \<Rightarrow> string" where
  "formatTuple tuple =
     ''('' @ tup_subject tuple @ '', '' @ relation_name (tup_relation tuple) @ '', '' @
     ref_type (tup_object tuple) @ '':'' @ ref_id (tup_object tuple) @ '')''"

section \<open>assignment.ts\<close>

definition isIndispensableRole :: "string \<Rightarrow> bool" where
  "isIndispensableRole role = (role = ''owner'')"

definition isDirectlyAssignable :: "string \<Rightarrow> bool" where
  "isDirectlyAssignable role = (role \<noteq> ''owner'')"

definition DIRECTLY_ASSIGNABLE_ROLES :: "string list" where
  "DIRECTLY_ASSIGNABLE_ROLES = filter isDirectlyAssignable ROLES"

definition sameRole :: "string \<Rightarrow> string \<Rightarrow> bool" where
  "sameRole left right = (left = right)"

definition isGuestRole :: "string \<Rightarrow> bool" where "isGuestRole role = (role = ''guest'')"
definition isOwnerRole :: "string \<Rightarrow> bool" where "isOwnerRole role = (role = ''owner'')"
definition isAdminRole :: "string \<Rightarrow> bool" where "isAdminRole role = (role = ''admin'')"

end
