(* ===== verification/Errors.thy ===== *)
theory Errors
  imports Prelude
begin

text \<open>
  The API error contract, \<open>packages/contracts/src/errors.ts\<close>: the codes, their HTTP status,
  the \<open>AppError\<close> class, its wire form and the constructors the rest of the code throws
  through. JSON values are the datatype \<open>json\<close>; a number \<open>JNum m e\<close> is the decimal
  \<open>m * 10 ^ e\<close>. An object is the list of its entries in the order JavaScript would enumerate
  them. A value of unknown type (\<open>cause\<close>) is kept as JSON too.
\<close>

section \<open>JSON values\<close>

datatype json =
    JNull
  | JBool bool
  | JNum int int
  | JStr string
  | JArr "json list"
  | JObj "(string \<times> json) list"

fun json_field :: "string \<Rightarrow> json \<Rightarrow> json option" where
  "json_field k (JObj kvs) = map_of kvs k"
| "json_field k _ = None"

fun is_int_number :: "json \<Rightarrow> bool" where
  "is_int_number (JNum m e) = (0 \<le> e \<or> m mod 10 ^ nat (- e) = 0)"
| "is_int_number _ = False"

section \<open>Codes and statuses\<close>

datatype ErrorCode =
    UNAUTHENTICATED | INVALID_CREDENTIALS | TOKEN_EXPIRED | TOKEN_REUSED | EMAIL_NOT_VERIFIED
  | MFA_REQUIRED | STEP_UP_REQUIRED
  | FORBIDDEN | NOT_A_MEMBER | MEMBERSHIP_SUSPENDED | ORG_SUSPENDED | ORG_BILLING_LAPSED
  | PLAN_REQUIRED
  | NOT_FOUND | ALREADY_EXISTS | CONFLICT | GONE
  | VALIDATION_FAILED | UNSUPPORTED_MEDIA_TYPE | PAYLOAD_TOO_LARGE
  | RATE_LIMITED | QUOTA_EXCEEDED
  | INTERNAL_ERROR | SERVICE_UNAVAILABLE | NOT_IMPLEMENTED

fun code_name :: "ErrorCode \<Rightarrow> string" where
  "code_name UNAUTHENTICATED = ''UNAUTHENTICATED''"
| "code_name INVALID_CREDENTIALS = ''INVALID_CREDENTIALS''"
| "code_name TOKEN_EXPIRED = ''TOKEN_EXPIRED''"
| "code_name TOKEN_REUSED = ''TOKEN_REUSED''"
| "code_name EMAIL_NOT_VERIFIED = ''EMAIL_NOT_VERIFIED''"
| "code_name MFA_REQUIRED = ''MFA_REQUIRED''"
| "code_name STEP_UP_REQUIRED = ''STEP_UP_REQUIRED''"
| "code_name FORBIDDEN = ''FORBIDDEN''"
| "code_name NOT_A_MEMBER = ''NOT_A_MEMBER''"
| "code_name MEMBERSHIP_SUSPENDED = ''MEMBERSHIP_SUSPENDED''"
| "code_name ORG_SUSPENDED = ''ORG_SUSPENDED''"
| "code_name ORG_BILLING_LAPSED = ''ORG_BILLING_LAPSED''"
| "code_name PLAN_REQUIRED = ''PLAN_REQUIRED''"
| "code_name NOT_FOUND = ''NOT_FOUND''"
| "code_name ALREADY_EXISTS = ''ALREADY_EXISTS''"
| "code_name CONFLICT = ''CONFLICT''"
| "code_name GONE = ''GONE''"
| "code_name VALIDATION_FAILED = ''VALIDATION_FAILED''"
| "code_name UNSUPPORTED_MEDIA_TYPE = ''UNSUPPORTED_MEDIA_TYPE''"
| "code_name PAYLOAD_TOO_LARGE = ''PAYLOAD_TOO_LARGE''"
| "code_name RATE_LIMITED = ''RATE_LIMITED''"
| "code_name QUOTA_EXCEEDED = ''QUOTA_EXCEEDED''"
| "code_name INTERNAL_ERROR = ''INTERNAL_ERROR''"
| "code_name SERVICE_UNAVAILABLE = ''SERVICE_UNAVAILABLE''"
| "code_name NOT_IMPLEMENTED = ''NOT_IMPLEMENTED''"

definition ERROR_CODES :: "ErrorCode list" where
  "ERROR_CODES =
    [UNAUTHENTICATED, INVALID_CREDENTIALS, TOKEN_EXPIRED, TOKEN_REUSED, EMAIL_NOT_VERIFIED,
     MFA_REQUIRED, STEP_UP_REQUIRED,
     FORBIDDEN, NOT_A_MEMBER, MEMBERSHIP_SUSPENDED, ORG_SUSPENDED, ORG_BILLING_LAPSED,
     PLAN_REQUIRED,
     NOT_FOUND, ALREADY_EXISTS, CONFLICT, GONE,
     VALIDATION_FAILED, UNSUPPORTED_MEDIA_TYPE, PAYLOAD_TOO_LARGE,
     RATE_LIMITED, QUOTA_EXCEEDED,
     INTERNAL_ERROR, SERVICE_UNAVAILABLE, NOT_IMPLEMENTED]"

fun ERROR_STATUS :: "ErrorCode \<Rightarrow> int" where
  "ERROR_STATUS UNAUTHENTICATED = 401"
| "ERROR_STATUS INVALID_CREDENTIALS = 401"
| "ERROR_STATUS TOKEN_EXPIRED = 401"
| "ERROR_STATUS TOKEN_REUSED = 401"
| "ERROR_STATUS EMAIL_NOT_VERIFIED = 403"
| "ERROR_STATUS MFA_REQUIRED = 401"
| "ERROR_STATUS STEP_UP_REQUIRED = 401"
| "ERROR_STATUS FORBIDDEN = 403"
| "ERROR_STATUS NOT_A_MEMBER = 403"
| "ERROR_STATUS MEMBERSHIP_SUSPENDED = 403"
| "ERROR_STATUS ORG_SUSPENDED = 403"
| "ERROR_STATUS ORG_BILLING_LAPSED = 403"
| "ERROR_STATUS PLAN_REQUIRED = 403"
| "ERROR_STATUS NOT_FOUND = 404"
| "ERROR_STATUS ALREADY_EXISTS = 409"
| "ERROR_STATUS CONFLICT = 409"
| "ERROR_STATUS GONE = 410"
| "ERROR_STATUS VALIDATION_FAILED = 400"
| "ERROR_STATUS UNSUPPORTED_MEDIA_TYPE = 415"
| "ERROR_STATUS PAYLOAD_TOO_LARGE = 413"
| "ERROR_STATUS RATE_LIMITED = 429"
| "ERROR_STATUS QUOTA_EXCEEDED = 429"
| "ERROR_STATUS INTERNAL_ERROR = 500"
| "ERROR_STATUS SERVICE_UNAVAILABLE = 503"
| "ERROR_STATUS NOT_IMPLEMENTED = 501"

section \<open>The error class\<close>

record AppErrorOptions =
  opt_details :: "(string \<times> json) list option"
  opt_retryAfterSeconds :: "json option"
  opt_cause :: "json option"

record AppError =
  err_code :: ErrorCode
  err_message :: string
  err_status :: int
  err_details :: "(string \<times> json) list option"
  err_retryAfterSeconds :: "json option"
  err_cause :: "json option"

definition no_options :: AppErrorOptions where
  "no_options = \<lparr>opt_details = None, opt_retryAfterSeconds = None, opt_cause = None\<rparr>"

definition newAppError :: "ErrorCode \<Rightarrow> string \<Rightarrow> AppErrorOptions \<Rightarrow> AppError" where
  "newAppError code message options =
     \<lparr>err_code = code, err_message = message, err_status = ERROR_STATUS code,
      err_details = opt_details options,
      err_retryAfterSeconds = opt_retryAfterSeconds options,
      err_cause = opt_cause options\<rparr>"

definition toResponse :: "AppError \<Rightarrow> string \<Rightarrow> json" where
  "toResponse e requestId =
     JObj [(''error'', JObj
       ([(''code'', JStr (code_name (err_code e))),
         (''message'', JStr (err_message e)),
         (''requestId'', JStr requestId)]
        @ (case err_details e of None \<Rightarrow> [] | Some d \<Rightarrow> [(''details'', JObj d)])
        @ (case err_retryAfterSeconds e of
             None \<Rightarrow> [] | Some n \<Rightarrow> [(''retryAfterSeconds'', n)])))]"

text \<open>
  What \<open>ApiErrorSchema.safeParse\<close> accepts: an enumerated code, two strings, an optional
  object and an optional positive integer. Further keys are ignored by \<open>z.object\<close>.
\<close>

fun is_json_string :: "json \<Rightarrow> bool" where
  "is_json_string (JStr s) = True"
| "is_json_string _ = False"

fun positive_number :: "json \<Rightarrow> bool" where
  "positive_number (JNum m e) = (0 < m)"
| "positive_number _ = False"

fun is_json_object :: "json \<Rightarrow> bool" where
  "is_json_object (JObj _) = True"
| "is_json_object _ = False"

definition ApiErrorSchema :: "json \<Rightarrow> bool" where
  "ApiErrorSchema body =
     (case json_field ''error'' body of None \<Rightarrow> False | Some err \<Rightarrow>
        (case json_field ''code'' err of
           Some (JStr c) \<Rightarrow> c \<in> set (map code_name ERROR_CODES) | _ \<Rightarrow> False) \<and>
        (case json_field ''message'' err of Some v \<Rightarrow> is_json_string v | None \<Rightarrow> False) \<and>
        (case json_field ''details'' err of Some v \<Rightarrow> is_json_object v | None \<Rightarrow> True) \<and>
        (case json_field ''requestId'' err of Some v \<Rightarrow> is_json_string v | None \<Rightarrow> False) \<and>
        (case json_field ''retryAfterSeconds'' err of
           Some v \<Rightarrow> is_int_number v \<and> positive_number v | None \<Rightarrow> True))"

section \<open>The constructors\<close>

text \<open>
  Each entry of \<open>errors\<close> with its message as an optional argument; \<open>default_message\<close> is what a
  parameter default is. The apostrophe of \<open>orgBillingLapsed\<close>, U+2019, is written as its three
  UTF-8 bytes.
\<close>

definition default_message :: "string option \<Rightarrow> string \<Rightarrow> string" where
  "default_message message fallback = (case message of None \<Rightarrow> fallback | Some m \<Rightarrow> m)"

definition unauthenticated :: "string option \<Rightarrow> AppError" where
  "unauthenticated m =
     newAppError UNAUTHENTICATED (default_message m ''Authentication required.'') no_options"

definition invalidCredentials :: "string option \<Rightarrow> AppError" where
  "invalidCredentials m =
     newAppError INVALID_CREDENTIALS (default_message m ''Incorrect email or password.'')
       no_options"

definition emailNotVerified :: "string option \<Rightarrow> AppError" where
  "emailNotVerified m =
     newAppError EMAIL_NOT_VERIFIED
       (default_message m ''Please verify your email address before signing in.'') no_options"

definition tokenExpired :: "string option \<Rightarrow> AppError" where
  "tokenExpired m =
     newAppError TOKEN_EXPIRED
       (default_message m ''Your session has expired. Please sign in again.'') no_options"

definition tokenReused :: "string option \<Rightarrow> AppError" where
  "tokenReused m =
     newAppError TOKEN_REUSED
       (default_message m ''Your session has ended. Please sign in again.'') no_options"

definition stepUpRequired :: "string option \<Rightarrow> AppError" where
  "stepUpRequired m =
     newAppError STEP_UP_REQUIRED
       (default_message m ''Please re-authenticate to continue.'') no_options"

definition forbidden :: "string option \<Rightarrow> AppError" where
  "forbidden m =
     newAppError FORBIDDEN
       (default_message m ''You do not have permission to perform this action.'') no_options"

definition membershipSuspended :: "string option \<Rightarrow> AppError" where
  "membershipSuspended m =
     newAppError MEMBERSHIP_SUSPENDED
       (default_message m ''Your membership in this organization has been suspended.'')
       no_options"

definition orgSuspended :: "string option \<Rightarrow> AppError" where
  "orgSuspended m =
     newAppError ORG_SUSPENDED
       (default_message m ''This organization has been suspended.'') no_options"

definition orgBillingLapsed :: "string option \<Rightarrow> AppError" where
  "orgBillingLapsed m =
     newAppError ORG_BILLING_LAPSED
       (default_message m
         (''This organization'' @ [CHR 0xE2, CHR 0x80, CHR 0x99] @
          ''s trial or subscription has ended. An owner can resolve this from Billing settings.''))
       no_options"

definition planRequired :: "string \<Rightarrow> string option \<Rightarrow> AppError" where
  "planRequired feature m =
     newAppError PLAN_REQUIRED
       (default_message m
         (''Your plan does not include '' @ feature @
          ''. An owner can upgrade from Billing settings.''))
       (no_options\<lparr>opt_details := Some [(''feature'', JStr feature)]\<rparr>)"

definition notFound :: "string option \<Rightarrow> AppError" where
  "notFound m = newAppError NOT_FOUND (default_message m ''Not found.'') no_options"

definition conflict :: "string option \<Rightarrow> AppError" where
  "conflict m =
     newAppError CONFLICT
       (default_message m ''The resource was modified by someone else. Reload and try again.'')
       no_options"

definition validation :: "(string \<times> json) list \<Rightarrow> string option \<Rightarrow> AppError" where
  "validation details m =
     newAppError VALIDATION_FAILED (default_message m ''The request was invalid.'')
       (no_options\<lparr>opt_details := Some details\<rparr>)"

definition rateLimited :: "json \<Rightarrow> string option \<Rightarrow> AppError" where
  "rateLimited retryAfterSeconds m =
     newAppError RATE_LIMITED (default_message m ''Too many requests. Please slow down.'')
       (no_options\<lparr>opt_retryAfterSeconds := Some retryAfterSeconds\<rparr>)"

definition quotaExceeded :: "string option \<Rightarrow> AppError" where
  "quotaExceeded m =
     newAppError QUOTA_EXCEEDED (default_message m ''Quota exceeded for this organization.'')
       no_options"

definition serviceUnavailable :: "string option \<Rightarrow> AppError" where
  "serviceUnavailable m =
     newAppError SERVICE_UNAVAILABLE
       (default_message m ''Temporarily unavailable. Please try again.'') no_options"

definition internal :: "json option \<Rightarrow> string option \<Rightarrow> AppError" where
  "internal cause m =
     newAppError INTERNAL_ERROR (default_message m ''Something went wrong.'')
       (no_options\<lparr>opt_cause := cause\<rparr>)"

section \<open>The wire contract\<close>

lemma ERROR_CODES_all: "c \<in> set ERROR_CODES"
  by (cases c) (simp_all add: ERROR_CODES_def)

lemma code_name_listed: "code_name c \<in> set (map code_name ERROR_CODES)"
  using ERROR_CODES_all [of c] by simp

lemma newAppError_sel [simp]:
  "err_code (newAppError c m opts) = c"
  "err_message (newAppError c m opts) = m"
  "err_status (newAppError c m opts) = ERROR_STATUS c"
  "err_details (newAppError c m opts) = opt_details opts"
  "err_retryAfterSeconds (newAppError c m opts) = opt_retryAfterSeconds opts"
  "err_cause (newAppError c m opts) = opt_cause opts"
  by (simp_all add: newAppError_def)

text \<open>C5: the serialised form of every error satisfies the published schema \<open>ApiErrorSchema\<close>
  exactly when its retry delay, if it has one, is a positive integer: nothing else an
  \<open>AppError\<close> can hold breaks the contract.\<close>

theorem toResponse_contract:
  "ApiErrorSchema (toResponse e requestId) \<longleftrightarrow>
   (case err_retryAfterSeconds e of
      None \<Rightarrow> True | Some n \<Rightarrow> is_int_number n \<and> positive_number n)"
  using code_name_listed [of "err_code e"]
  by (simp add: ApiErrorSchema_def toResponse_def split: option.splits)

end
