(* ===== verification/Decide.thy ===== *)
theory Decide
  imports Permissions Errors
begin

text \<open>
  The decision engine, \<open>packages/policy/src/decide.ts\<close> and \<open>enforce.ts\<close>. \<open>can\<close> is the source's
  function with its layers as definitions of their own: the catalogue checks and tenancy in
  \<open>can\<close>, the role and individual grants in \<open>role_layer\<close>, the relationship tuples in
  \<open>tuple_layer\<close>. Every layer returns the trace steps it pushes. \<open>enforce\<close> throws the error
  \<open>denialFor\<close> picks.

  The four marks of \<open>formatTrace\<close> lie outside Latin-1 and are written as their UTF-8 bytes.
\<close>

section \<open>Types\<close>

datatype outcome = Grant | Deny | Skip | Note

record TraceStep =
  layer :: nat
  step_outcome :: outcome
  rule :: string
  detail :: "string option"

record Subject =
  sub_orgId :: string
  sub_userId :: string
  sub_role :: string
  sub_tuples :: "RelationshipTuple list"
  sub_memberGrants :: "string list option"

record Target =
  tgt_orgId :: string
  tgt_resource :: ResourceRef
  tgt_ancestors :: "ResourceRef list option"
  tgt_closed :: "bool option"

record Decision =
  dec_allowed :: bool
  dec_permission :: string
  dec_userId :: string
  dec_role :: string
  dec_resource :: "ResourceRef option"
  dec_reason :: string
  dec_trace :: "TraceStep list"

definition step :: "nat \<Rightarrow> outcome \<Rightarrow> string \<Rightarrow> TraceStep" where
  "step n oc r = \<lparr>layer = n, step_outcome = oc, rule = r, detail = None\<rparr>"

definition step_with :: "nat \<Rightarrow> outcome \<Rightarrow> string \<Rightarrow> string \<Rightarrow> TraceStep" where
  "step_with n oc r d = \<lparr>layer = n, step_outcome = oc, rule = r, detail = Some d\<rparr>"

section \<open>Layer 2b: the role and individual grants\<close>

definition hasMemberGrant :: "Subject \<Rightarrow> string \<Rightarrow> bool" where
  "hasMemberGrant subject permission =
     (permission \<in> set (case sub_memberGrants subject of None \<Rightarrow> [] | Some gs \<Rightarrow> gs))"

definition role_layer :: "Subject \<Rightarrow> string \<Rightarrow> bool \<times> string \<times> TraceStep" where
  "role_layer subject permission =
     (let grantedByRole = roleGrants (sub_role subject) permission;
          grantedByMemberGrant = \<not> grantedByRole \<and> hasMemberGrant subject permission;
          byRole = grantedByRole \<or> grantedByMemberGrant;
          roleReason =
            (if byRole
             then if grantedByMemberGrant
                  then ''An individual grant gives you '' @ permission @ ''.''
                  else ''Role '' @ sub_role subject @ '' grants '' @ permission @ ''.''
             else ''Role '' @ sub_role subject @ '' does not grant '' @ permission @ ''.'')
      in (byRole, roleReason,
          step 2 (if byRole then Grant else Deny)
            (if grantedByMemberGrant
             then ''an individual grant gives this member '' @ permission
             else ''role='' @ sub_role subject @ '' '' @
                  (if byRole then ''grants'' else ''does not grant'') @ '' '' @ permission)))"

section \<open>Layer 2c: relationship tuples\<close>

definition chain_of :: "Target \<Rightarrow> ResourceRef list" where
  "chain_of target =
     tgt_resource target # (case tgt_ancestors target of None \<Rightarrow> [] | Some as \<Rightarrow> as)"

fun nearest_in :: "RelationshipTuple list \<Rightarrow> ResourceRef list \<Rightarrow> RelationshipTuple list" where
  "nearest_in tuples [] = []"
| "nearest_in tuples (r # rs) =
     (let matches = filter (\<lambda>t. ref_type (tup_object t) = ref_type r \<and>
                                 ref_id (tup_object t) = ref_id r) tuples
      in if length matches > 0 then matches else nearest_in tuples rs)"

definition nearestApplicable :: "RelationshipTuple list \<Rightarrow> Target \<Rightarrow> RelationshipTuple list" where
  "nearestApplicable tuples target = nearest_in tuples (chain_of target)"

definition tuple_layer ::
  "Subject \<Rightarrow> string \<Rightarrow> Target \<Rightarrow> bool \<Rightarrow> string \<Rightarrow> bool \<times> string \<times> TraceStep list" where
  "tuple_layer subject permission target byRole roleReason =
     (let nearest = nearestApplicable (sub_tuples subject) target in
      if length nearest = 0 then
        (if tgt_closed target = Some True
         then (False, ''You are not a member of this resource.'',
               [step_with 2 Deny ''resource is closed and the subject holds no relation on it''
                  ''membership of a private channel or DM is a tuple, not a role''])
         else (byRole, roleReason, [step 2 Skip ''no relationship tuple on this resource'']))
      else
        (let byTuple = filter (\<lambda>t. relationGrants (tup_relation t) permission) nearest;
             granted = map (\<lambda>t. step 2 Grant (''tuple '' @ formatTuple t @ '' grants '' @ permission))
                         byTuple;
             capped = list_all (\<lambda>t. isRestrictive (tup_relation t)) nearest
         in
         if capped \<and> length byTuple = 0 then
           (if bypassesRestrictions (sub_role subject) then
              (let trace = granted @ [step_with 2 Note
                     (''role='' @ sub_role subject @ '' bypasses restrictive grants'')
                     ''an org administrator can remove the tuple anyway; recorded for audit'']
               in if byRole
                  then (True, ''Role '' @ sub_role subject @ '' overrides a read-only grant.'', trace)
                  else (False, ''Role '' @ sub_role subject @ '' does not grant '' @ permission @ ''.'',
                        trace))
            else
              (False, ''A read-only grant on this resource overrides '' @ permission @ ''.'',
               granted @ [step 2 Deny
                 (case nearest of
                    nearestTuple # _ \<Rightarrow> ''tuple '' @ formatTuple nearestTuple @
                                        '' is read-only and overrides the role grant''
                  | [] \<Rightarrow> ''a read-only grant overrides the role grant'')]))
         else if length byTuple > 0
           then (True, ''Granted by a relationship on this resource.'', granted)
         else (byRole, roleReason, granted)))"

section \<open>The decision\<close>

definition can :: "Subject \<Rightarrow> string \<Rightarrow> Target option \<Rightarrow> Decision" where
  "can subject permission target =
     (let finish = (\<lambda>allowed reason trace.
            \<lparr>dec_allowed = allowed, dec_permission = permission,
             dec_userId = sub_userId subject, dec_role = sub_role subject,
             dec_resource = (case target of Some t \<Rightarrow> Some (tgt_resource t) | None \<Rightarrow> None),
             dec_reason = reason, dec_trace = trace\<rparr>)
      in
      if \<not> isPermission permission
      then finish False ''Unknown permission.''
             [step_with 1 Deny ''permission is not in the catalog'' permission]
      else
        (let declared = step 1 Note (''route declares '' @ permission) in
         if \<not> isRole (sub_role subject)
         then finish False ''Unrecognized role.''
                [declared, step_with 2 Deny ''subject role is not in the catalog'' (sub_role subject)]
         else
           (case target of
              Some t \<Rightarrow>
                if tgt_orgId t \<noteq> sub_orgId subject
                then finish False ''Resource belongs to another organization.''
                       [declared, step_with 2 Deny ''resource belongs to another organization''
                          (''subject org '' @ sub_orgId subject @ '' != resource org '' @ tgt_orgId t)]
                else
                  (let (byRole, roleReason, rstep) = role_layer subject permission;
                       (ok, reason, steps) = tuple_layer subject permission t byRole roleReason
                   in finish ok reason (declared # rstep # steps))
            | None \<Rightarrow>
                (let (byRole, roleReason, rstep) = role_layer subject permission
                 in finish byRole roleReason [declared, rstep]))))"

definition allowed :: "Subject \<Rightarrow> string \<Rightarrow> Target option \<Rightarrow> bool" where
  "allowed subject permission target = dec_allowed (can subject permission target)"

definition couldGrant :: "Subject \<Rightarrow> string \<Rightarrow> bool" where
  "couldGrant subject permission =
     (if \<not> isRole (sub_role subject) then False
      else if roleGrants (sub_role subject) permission then True
      else if hasMemberGrant subject permission then True
      else if isOrgLevel permission then False
      else list_ex (\<lambda>t. relationGrants (tup_relation t) permission) (sub_tuples subject))"

section \<open>Rendering a decision\<close>

fun mark :: "outcome \<Rightarrow> string" where
  "mark Grant = [CHR 0xE2, CHR 0x9C, CHR 0x93]"
| "mark Deny = [CHR 0xE2, CHR 0x9C, CHR 0x97]"
| "mark Skip = [CHR 0xE2, CHR 0x80, CHR 0x93]"
| "mark Note = [CHR 0xC2, CHR 0xB7]"

definition formatTrace :: "Decision \<Rightarrow> string" where
  "formatTrace decision =
     (let header = join ''  ''
            [if dec_allowed decision then ''allow'' else ''deny'',
             dec_permission decision,
             case dec_resource decision of
               Some r \<Rightarrow> ref_type r @ '':'' @ ref_id r | None \<Rightarrow> ''(no resource)'',
             dec_userId decision];
          lines = map (\<lambda>s. ''  '' @ mark (step_outcome s) @ '' layer '' @ decimal_of_nat (layer s) @
                    ''  '' @ rule s @
                    (case detail s of None \<Rightarrow> [] | Some d \<Rightarrow> ''  ('' @ d @ '')''))
                  (dec_trace decision)
      in join [CHR 0x0A] (header # lines))"

section \<open>enforce.ts\<close>

definition denialFor :: "Subject \<Rightarrow> string \<Rightarrow> Target option \<Rightarrow> AppError" where
  "denialFor subject permission target =
     (let readPermission = resourceOf permission @ '':read'' in
      if \<not> isPermission readPermission then notFound None
      else if dec_allowed (can subject readPermission target)
      then forbidden (Some ''You do not have permission to perform this action.'')
      else notFound None)"

definition enforce :: "Subject \<Rightarrow> string \<Rightarrow> Target option \<Rightarrow> (AppError, Decision) result" where
  "enforce subject permission target =
     (let decision = can subject permission target in
      if dec_allowed decision then Return decision
      else Throw (denialFor subject permission target))"

end
