(* ===== verification/Policy_Correct.thy ===== *)
theory Policy_Correct
  imports Decide
begin

text \<open>
  What the policy engine guarantees. \<open>catalogue_facts\<close> are the facts of the tables the proofs
  need, each computed once; the locale \<open>relation_table\<close> is what the engine relies on in the
  relation table, interpreted on \<open>tuples.ts\<close>; \<open>policy_allows\<close> is the abstract specification of a
  decision and \<open>allowed_iff\<close> says that \<open>can\<close> implements it.
\<close>

section \<open>The tables\<close>

lemma org_level_listed: "list_all isPermission ORG_LEVEL_PERMISSIONS"
  by code_simp

lemma grantable_org_level:
  "list_all (\<lambda>p. isOrgLevel p \<and> p \<in> set ADMIN) GRANTABLE_PERMISSIONS"
  by code_simp

lemma role_tables_nested:
  "list_all (\<lambda>p. p \<in> set ADMIN) MEMBER" "list_all isPermission ADMIN"
  by code_simp+

lemma owner_only:
  "filter (\<lambda>p. p \<notin> set ADMIN) PERMISSIONS =
     [''org:update'', ''org:delete'', ''org:billing'', ''member:manage'', ''member:remove'',
      ''phoneNumber:purchase'', ''phoneNumber:release'', ''recording:export'', ''audit:export'']"
  by code_simp

lemma isOrgLevel_isPermission: "isOrgLevel p \<Longrightarrow> isPermission p"
  using org_level_listed by (simp add: isOrgLevel_def list_all_iff)

lemma relationGrants_isPermission: "relationGrants r p \<Longrightarrow> isPermission p"
  by (simp add: relationGrants_def grantSet_def isPermission_def Let_def)

lemma relationGrants_iff:
  "relationGrants r p \<longleftrightarrow>
     isPermission p \<and> (actionOf p \<in> set (actions (RELATION_GRANTS r)) \<or>
                       p \<in> set (extra (RELATION_GRANTS r)))"
  by (auto simp: relationGrants_def grantSet_def isPermission_def Let_def)

lemma roleGrants_eq:
  "roleGrants role p \<longleftrightarrow>
     role = ''owner'' \<and> isPermission p \<or> role = ''admin'' \<and> p \<in> set ADMIN \<or>
     role = ''member'' \<and> p \<in> set MEMBER"
  by (simp add: roleGrants_def ROLE_SETS_def OWNER_def GUEST_def isPermission_def)

lemma member_within_admin: "roleGrants ''member'' p \<longrightarrow> roleGrants ''admin'' p"
  using role_tables_nested(1) by (simp add: roleGrants_eq list_all_iff)

lemma admin_within_owner: "roleGrants ''admin'' p \<longrightarrow> roleGrants ''owner'' p"
  using role_tables_nested(2) by (simp add: roleGrants_eq list_all_iff)

lemma grantable_admin: "isGrantable p \<longrightarrow> isOrgLevel p \<and> roleGrants ''admin'' p"
  using grantable_org_level by (simp add: roleGrants_eq list_all_iff isGrantable_def)

lemma owner_not_admin:
  "roleGrants ''owner'' p \<and> \<not> roleGrants ''admin'' p \<longleftrightarrow>
     p \<in> {''org:update'', ''org:delete'', ''org:billing'', ''member:manage'', ''member:remove'',
           ''phoneNumber:purchase'', ''phoneNumber:release'', ''recording:export'',
           ''audit:export''}"
proof -
  have "roleGrants ''owner'' p \<and> \<not> roleGrants ''admin'' p \<longleftrightarrow>
      p \<in> set (filter (\<lambda>p. p \<notin> set ADMIN) PERMISSIONS)"
    by (simp add: roleGrants_eq isPermission_def)
  also have "\<dots> \<longleftrightarrow> p \<in> {''org:update'', ''org:delete'', ''org:billing'', ''member:manage'',
      ''member:remove'', ''phoneNumber:purchase'', ''phoneNumber:release'', ''recording:export'',
      ''audit:export''}"
    unfolding owner_only by (simp only: list.set)
  finally show ?thesis .
qed

lemma roleGrants_isRole: "roleGrants role p \<Longrightarrow> isRole role"
  by (auto simp: roleGrants_eq isRole_def ROLES_def)

lemma roleGrants_isPermission: "roleGrants role p \<Longrightarrow> isPermission p"
  using role_tables_nested by (auto simp: roleGrants_eq list_all_iff isPermission_def)

section \<open>What the engine relies on in a relation table\<close>

locale relation_table =
  fixes grants :: "relation \<Rightarrow> string \<Rightarrow> bool"
    and caps :: "relation \<Rightarrow> bool"
    and harmless :: "string \<Rightarrow> bool"
  assumes grants_known: "grants r p \<Longrightarrow> isPermission p"
    and caps_harmless: "caps r \<Longrightarrow> grants r p \<Longrightarrow> harmless p"
begin

lemma capped_grant:
  "\<forall>t \<in> set ts. caps (tup_relation t) \<Longrightarrow> t \<in> set ts \<Longrightarrow> grants (tup_relation t) p \<Longrightarrow> harmless p"
  using caps_harmless by blast

end

text \<open>What a capped subject may do at most: read, download, and write in conversations.\<close>

definition conversational :: "string \<Rightarrow> bool" where
  "conversational p \<longleftrightarrow> isReadOnly p \<or>
     p \<in> {''comment:create'', ''message:create'', ''message:update'', ''attachment:upload''}"

lemma restrictive_relations: "isRestrictive r \<longleftrightarrow> r \<in> {Viewer, Commenter, Member}"
  by (cases r) (simp_all add: isRestrictive_def)

interpretation tuples: relation_table relationGrants isRestrictive conversational
proof
  show "relationGrants r p \<Longrightarrow> isPermission p" for r p
    by (rule relationGrants_isPermission)
  show "isRestrictive r \<Longrightarrow> relationGrants r p \<Longrightarrow> conversational p" for r p
    by (cases r)
      (auto simp: isRestrictive_def relationGrants_iff conversational_def isReadOnly_def Let_def)
qed

section \<open>The nearest tuples\<close>

text \<open>\<open>held ts r\<close> is what the subject holds on one object.\<close>

definition held :: "RelationshipTuple list \<Rightarrow> ResourceRef \<Rightarrow> RelationshipTuple list" where
  "held ts r = filter (\<lambda>t. tup_object t = r) ts"

lemma ref_eq_iff: "ref_type a = ref_type b \<and> ref_id a = ref_id b \<longleftrightarrow> (a :: ResourceRef) = b"
  by auto

lemma nearest_in_held:
  "nearest_in ts chain =
     (case filter (\<lambda>r. held ts r \<noteq> []) chain of [] \<Rightarrow> [] | r # _ \<Rightarrow> held ts r)"
  by (induction chain) (auto simp: held_def ref_eq_iff Let_def filter_empty_conv)

lemma nearest_in_Nil_iff: "nearest_in ts chain = [] \<longleftrightarrow> (\<forall>r \<in> set chain. held ts r = [])"
proof (cases "filter (\<lambda>r. held ts r \<noteq> []) chain")
  case Nil
  then show ?thesis by (auto simp: nearest_in_held filter_empty_conv)
next
  case (Cons r rs)
  then have "r \<in> set chain \<and> held ts r \<noteq> []" by (auto dest: filter_eq_ConsD)
  with Cons show ?thesis by (auto simp: nearest_in_held)
qed

lemma nearest_in_at:
  assumes "i < length chain" "held ts (chain ! i) \<noteq> []" "\<And>j. j < i \<Longrightarrow> held ts (chain ! j) = []"
  shows "nearest_in ts chain = held ts (chain ! i)"
  using assms
proof (induction chain arbitrary: i)
  case (Cons r rs)
  show ?case
  proof (cases i)
    case 0
    with Cons.prems show ?thesis by (simp add: held_def ref_eq_iff Let_def)
  next
    case (Suc k)
    then have "held ts r = []" using Cons.prems(3) [of 0] by simp
    moreover have "nearest_in ts rs = held ts (rs ! k)"
      using Cons.IH [of k] Cons.prems Suc by fastforce
    ultimately show ?thesis using Suc by (simp add: held_def ref_eq_iff Let_def)
  qed
qed simp

lemma nearest_in_subset: "t \<in> set (nearest_in ts chain) \<Longrightarrow> t \<in> set ts \<and> tup_object t \<in> set chain"
  by (induction chain) (auto simp: Let_def ref_eq_iff split: if_splits)

section \<open>The specification of a decision\<close>

text \<open>
  \<open>standing\<close>: the role, or a grant to this member, gives the permission. \<open>policy_allows\<close> is the
  rule a reader of the policy would state: a known permission, a known role, the subject's own
  organisation; then, on a resource with no relation in its chain, standing unless it is closed;
  otherwise the nearest relations grant it, or the subject has standing and is not held to
  their cap.
\<close>

definition standing :: "Subject \<Rightarrow> string \<Rightarrow> bool" where
  "standing s p \<longleftrightarrow> roleGrants (sub_role s) p \<or> hasMemberGrant s p"

definition relation_allows :: "Subject \<Rightarrow> string \<Rightarrow> RelationshipTuple list \<Rightarrow> bool" where
  "relation_allows s p near \<longleftrightarrow>
     (\<exists>t \<in> set near. relationGrants (tup_relation t) p) \<or>
     standing s p \<and>
       (bypassesRestrictions (sub_role s) \<or> (\<exists>t \<in> set near. \<not> isRestrictive (tup_relation t)))"

definition policy_allows :: "Subject \<Rightarrow> string \<Rightarrow> Target option \<Rightarrow> bool" where
  "policy_allows s p target \<longleftrightarrow>
     isPermission p \<and> isRole (sub_role s) \<and>
     (case target of
        None \<Rightarrow> standing s p
      | Some t \<Rightarrow>
          tgt_orgId t = sub_orgId s \<and>
          (let near = nearestApplicable (sub_tuples s) t in
           if near = [] then tgt_closed t \<noteq> Some True \<and> standing s p
           else relation_allows s p near))"

lemma role_layer_standing: "fst (role_layer s p) \<longleftrightarrow> standing s p"
  by (auto simp: role_layer_def standing_def Let_def)

lemma filter_length_0: "length (filter P xs) = 0 \<longleftrightarrow> \<not> (\<exists>x \<in> set xs. P x)"
  by (simp add: filter_empty_conv)

lemma tuple_layer_allowed:
  "fst (tuple_layer s p t b why) \<longleftrightarrow>
     (let near = nearestApplicable (sub_tuples s) t in
      if near = [] then tgt_closed t \<noteq> Some True \<and> b
      else (\<exists>t \<in> set near. relationGrants (tup_relation t) p) \<or>
           b \<and> (bypassesRestrictions (sub_role s) \<or>
                (\<exists>t \<in> set near. \<not> isRestrictive (tup_relation t))))"
  unfolding tuple_layer_def Let_def by (auto simp: list_all_iff filter_empty_conv)

lemma can_allowed_iff: "dec_allowed (can s p target) \<longleftrightarrow> policy_allows s p target"
proof (cases target)
  case None
  then show ?thesis
    using role_layer_standing [of s p]
    by (auto simp: can_def policy_allows_def Let_def split: prod.splits)
next
  case (Some t)
  obtain b why st where rl: "role_layer s p = (b, why, st)" by (cases "role_layer s p")
  then have b: "b = standing s p" using role_layer_standing [of s p] by simp
  obtain ok r steps where tl: "tuple_layer s p t b why = (ok, r, steps)"
    by (cases "tuple_layer s p t b why")
  then have "ok = fst (tuple_layer s p t b why)" by simp
  then have ok: "ok = (let near = nearestApplicable (sub_tuples s) t in
      if near = [] then tgt_closed t \<noteq> Some True \<and> b else relation_allows s p near)"
    unfolding tuple_layer_allowed relation_allows_def by (simp add: b)
  show ?thesis
    using Some rl tl ok b by (simp add: can_def policy_allows_def Let_def)
qed

lemma chain_tuple:
  "nearestApplicable ts t \<noteq> [] \<Longrightarrow> \<exists>u \<in> set ts. tup_object u \<in> set (chain_of t)"
  unfolding nearestApplicable_def
  by (metis list.set_intros(1) nearest_in_subset neq_Nil_conv)

lemma resourceOf_colon: "CHR '':'' \<notin> set r \<Longrightarrow> resourceOf (r @ '':'' @ a) = r"
proof -
  have "index_of_from i (r @ '':'' @ a) '':'' = i + int (length r)" if "CHR '':'' \<notin> set r" for i
    using that by (induction r arbitrary: i) auto
  then show "CHR '':'' \<notin> set r \<Longrightarrow> resourceOf (r @ '':'' @ a) = r"
    by (simp add: resourceOf_def index_of_def)
qed

lemma role_layer_tuples: "role_layer (s\<lparr>sub_tuples := ts\<rparr>) p = role_layer s p"
proof -
  have "sub_role (s\<lparr>sub_tuples := ts\<rparr>) = sub_role s" by simp
  moreover have "hasMemberGrant (s\<lparr>sub_tuples := ts\<rparr>) p = hasMemberGrant s p"
    by (simp add: hasMemberGrant_def)
  ultimately show ?thesis unfolding role_layer_def by (simp only:)
qed

lemma can_nearest_cong:
  assumes "nearestApplicable ts t = nearestApplicable (sub_tuples s) t"
  shows "can (s\<lparr>sub_tuples := ts\<rparr>) p (Some t) = can s p (Some t)"
proof -
  have "tuple_layer (s\<lparr>sub_tuples := ts\<rparr>) p t b why = tuple_layer s p t b why" for b why
    unfolding tuple_layer_def Let_def by (simp add: assms)
  then show ?thesis unfolding can_def by (simp add: role_layer_tuples Let_def)
qed

section \<open>Example subjects\<close>

text \<open>
  A member and a guest of organisation \<open>acme\<close>, a card on a board of theirs, and a private channel.
\<close>

definition card_on_board :: Target where
  "card_on_board = \<lparr>tgt_orgId = ''acme'', tgt_resource = \<lparr>ref_type = ''card'', ref_id = ''c1''\<rparr>,
     tgt_ancestors = Some [\<lparr>ref_type = ''board'', ref_id = ''b1''\<rparr>], tgt_closed = None\<rparr>"

definition private_channel :: Target where
  "private_channel = \<lparr>tgt_orgId = ''acme'',
     tgt_resource = \<lparr>ref_type = ''channel'', ref_id = ''ch1''\<rparr>,
     tgt_ancestors = None, tgt_closed = Some True\<rparr>"

definition person :: "string \<Rightarrow> RelationshipTuple list \<Rightarrow> Subject" where
  "person role ts = \<lparr>sub_orgId = ''acme'', sub_userId = ''u1'', sub_role = role, sub_tuples = ts,
     sub_memberGrants = None\<rparr>"

definition tup_on :: "relation \<Rightarrow> string \<Rightarrow> string \<Rightarrow> RelationshipTuple" where
  "tup_on rel ty i = \<lparr>tup_subject = ''u1'', tup_relation = rel,
     tup_object = \<lparr>ref_type = ty, ref_id = i\<rparr>\<rparr>"

section \<open>Properties\<close>

text \<open>C1: \<open>can\<close> implements the stated policy. A permission is granted exactly when it and the
  role are known, the resource is the subject's own organisation's, and either the nearest
  relations in the ancestor chain grant it or the subject has standing (role or individual
  grant) that neither a closed resource nor a restrictive relation takes away.\<close>

theorem can_implements_policy:
  "dec_allowed (can s p target) = policy_allows s p target"
  by (rule can_allowed_iff)

text \<open>A closed resource (a private channel, a direct message) is never reached by role: whoever
  is allowed anything on it, an owner included, holds a relation on it or on one of its
  ancestors.\<close>

theorem closed_needs_relation:
  assumes "tgt_closed t = Some True" and "dec_allowed (can s p (Some t))"
  shows "\<exists>u \<in> set (sub_tuples s). tup_object u \<in> set (chain_of t)"
  using assms chain_tuple [of "sub_tuples s" t]
  by (auto simp: can_allowed_iff policy_allows_def Let_def split: if_splits)

theorem closed_needs_relation_witness:
  "\<exists>u \<in> set [tup_on Member ''channel'' ''ch1''].
     tup_object u \<in> set (chain_of private_channel)"
proof -
  have "tgt_closed private_channel = Some True"
    by (simp add: private_channel_def)
  moreover have "dec_allowed (can (person ''guest'' [tup_on Member ''channel'' ''ch1''])
      ''message:create'' (Some private_channel))"
    by code_simp
  ultimately have "\<exists>u \<in> set (sub_tuples (person ''guest'' [tup_on Member ''channel'' ''ch1''])).
      tup_object u \<in> set (chain_of private_channel)"
    by (rule closed_needs_relation)
  then show ?thesis by (simp add: person_def)
qed

text \<open>C2: a read-only share is a cap. If the nearest relations are all restrictive and the role does
  not bypass them, the only things allowed are reads, downloads and taking part in a
  conversation, whatever the subject's role and individual grants give elsewhere.\<close>

theorem restrictive_relation_caps:
  assumes near: "nearestApplicable (sub_tuples s) t \<noteq> []"
    and caps: "\<forall>u \<in> set (nearestApplicable (sub_tuples s) t). isRestrictive (tup_relation u)"
    and nobypass: "\<not> bypassesRestrictions (sub_role s)"
    and ok: "dec_allowed (can s p (Some t))"
  shows "conversational p"
proof -
  obtain u where "u \<in> set (nearestApplicable (sub_tuples s) t)" "relationGrants (tup_relation u) p"
    using near caps nobypass ok
    by (auto simp: can_allowed_iff policy_allows_def relation_allows_def Let_def)
  with caps show ?thesis by (rule tuples.capped_grant)
qed

theorem restrictive_relation_caps_witness:
  "conversational ''card:read''"
proof -
  let ?s = "person ''member'' [tup_on Viewer ''board'' ''b1'', tup_on Editor ''board'' ''b2'']"
  have near: "nearestApplicable (sub_tuples ?s) card_on_board = [tup_on Viewer ''board'' ''b1'']"
    by code_simp
  show ?thesis
  proof (rule restrictive_relation_caps)
    show "nearestApplicable (sub_tuples ?s) card_on_board \<noteq> []" by (simp add: near)
    show "\<forall>u \<in> set (nearestApplicable (sub_tuples ?s) card_on_board). isRestrictive (tup_relation u)"
      unfolding near by (simp add: tup_on_def isRestrictive_def)
    show "\<not> bypassesRestrictions (sub_role ?s)" by (simp add: person_def bypassesRestrictions_def)
    show "dec_allowed (can ?s ''card:read'' (Some card_on_board))" by code_simp
  qed
qed

text \<open>Only the nearest relations count. A relation on an object that comes after the first
  object of the chain the subject holds anything on, or on an object outside the chain, never
  changes a decision, not even its reason or its trace.\<close>

theorem nearest_relation_decides:
  assumes "i < length (chain_of t)" and "held (sub_tuples s) (chain_of t ! i) \<noteq> []"
    and "\<forall>j < i. held (sub_tuples s) (chain_of t ! j) = []"
  shows "can (s\<lparr>sub_tuples := held (sub_tuples s) (chain_of t ! i)\<rparr>) p (Some t) = can s p (Some t)"
proof -
  let ?near = "held (sub_tuples s) (chain_of t ! i)"
  have "nearestApplicable (sub_tuples s) t = ?near"
    using assms by (simp add: nearestApplicable_def nearest_in_at)
  moreover have "nearestApplicable ?near t = held ?near (chain_of t ! i)"
    unfolding nearestApplicable_def
    using assms by (intro nearest_in_at) (auto simp: held_def filter_empty_conv)
  moreover have "held ?near (chain_of t ! i) = ?near"
    by (simp add: held_def)
  ultimately have "nearestApplicable ?near t = nearestApplicable (sub_tuples s) t"
    by simp
  then show ?thesis by (rule can_nearest_cong)
qed

theorem nearest_relation_decides_witness:
  "can (person ''member'' [tup_on Viewer ''card'' ''c1'']) ''card:update'' (Some card_on_board) =
   can (person ''member'' [tup_on Owner ''board'' ''b1'', tup_on Viewer ''card'' ''c1''])
     ''card:update'' (Some card_on_board)"
proof -
  let ?s = "person ''member'' [tup_on Owner ''board'' ''b1'', tup_on Viewer ''card'' ''c1'']"
  have held: "held (sub_tuples ?s) (chain_of card_on_board ! 0) = [tup_on Viewer ''card'' ''c1'']"
    by code_simp
  have "can (?s\<lparr>sub_tuples := held (sub_tuples ?s) (chain_of card_on_board ! 0)\<rparr>)
      ''card:update'' (Some card_on_board) = can ?s ''card:update'' (Some card_on_board)"
    by (rule nearest_relation_decides) (simp_all add: held, simp add: chain_of_def)
  then show ?thesis unfolding held by (simp add: person_def)
qed

text \<open>C3: the route floor \<open>couldGrant\<close> refuses nobody who would be allowed on some resource, except
  that an organisation-level permission is never reached through a relation: for those it is
  exactly the decision without a resource.\<close>

theorem couldGrant_sound_floor:
  "couldGrant s p \<longleftrightarrow>
   (if isOrgLevel p then dec_allowed (can s p None)
    else isRole (sub_role s) \<and>
      (standing s p \<or> (\<exists>t. tgt_closed t = Some True \<and> dec_allowed (can s p (Some t)))))"
proof (cases "isOrgLevel p")
  case True
  then show ?thesis
    using isOrgLevel_isPermission [OF True]
    by (auto simp: couldGrant_def can_allowed_iff policy_allows_def standing_def)
next
  case False
  show ?thesis (is "?L \<longleftrightarrow> ?R")
  proof
    assume L: ?L
    show ?R
    proof (cases "standing s p")
      case True
      with L False show ?thesis by (simp add: couldGrant_def split: if_splits)
    next
      case ns: False
      with L False obtain u where u: "u \<in> set (sub_tuples s)" "relationGrants (tup_relation u) p"
        and role: "isRole (sub_role s)"
        by (auto simp: couldGrant_def standing_def list_ex_iff split: if_splits)
      define t where "t = \<lparr>tgt_orgId = sub_orgId s, tgt_resource = tup_object u,
        tgt_ancestors = None, tgt_closed = Some True\<rparr>"
      have "u \<in> set (nearestApplicable (sub_tuples s) t)"
        using u by (auto simp: t_def nearestApplicable_def chain_of_def Let_def filter_empty_conv)
      then have "dec_allowed (can s p (Some t))"
        using u role relationGrants_isPermission
        by (auto simp: can_allowed_iff policy_allows_def relation_allows_def Let_def t_def)
      with role False show ?thesis by (auto simp: t_def)
    qed
  next
    assume R: ?R
    then show ?L
    proof (cases "standing s p")
      case True
      with R False show ?thesis by (auto simp: couldGrant_def standing_def)
    next
      case ns: False
      with R False obtain t where t: "dec_allowed (can s p (Some t))" and role: "isRole (sub_role s)"
        by auto
      then obtain u where "u \<in> set (nearestApplicable (sub_tuples s) t)"
        "relationGrants (tup_relation u) p"
        using ns by (auto simp: can_allowed_iff policy_allows_def relation_allows_def Let_def
            split: if_splits)
      then show ?thesis
        using role ns False nearest_in_subset
        by (fastforce simp: couldGrant_def standing_def list_ex_iff nearestApplicable_def)
    qed
  qed
qed

text \<open>C4: a denial reveals as little as possible. \<open>enforce\<close> throws exactly when \<open>can\<close> denies; a
  resource of another organisation is always reported as not found; and a 403 is thrown only to
  a subject who may read that same resource.\<close>

theorem enforce_reveals_only_the_visible:
  "(\<exists>d. enforce s p target = Return d) = dec_allowed (can s p target) \<and>
   (\<forall>e. enforce s p target = Throw e \<longrightarrow>
      (err_status e = 403 \<and> dec_allowed (can s (resourceOf p @ '':read'') target) \<or>
       err_status e = 404 \<and> \<not> dec_allowed (can s (resourceOf p @ '':read'') target)) \<and>
      (\<forall>t. target = Some t \<and> tgt_orgId t \<noteq> sub_orgId s \<longrightarrow> err_status e = 404))"
  by (auto simp: enforce_def denialFor_def Let_def notFound_def forbidden_def
      can_allowed_iff policy_allows_def)

theorem enforce_reveals_only_the_visible_witness:
  "enforce (person ''member'' []) ''card:update'' (Some (card_on_board\<lparr>tgt_orgId := ''other''\<rparr>)) =
     Throw (notFound None) \<and> err_status (notFound None) = 404"
proof -
  let ?s = "person ''member'' []" and ?t = "card_on_board\<lparr>tgt_orgId := ''other''\<rparr>"
  have e: "enforce ?s ''card:update'' (Some ?t) = Throw (notFound None)" by code_simp
  moreover have "tgt_orgId ?t \<noteq> sub_orgId ?s" by (simp add: card_on_board_def person_def)
  ultimately show ?thesis
    using enforce_reveals_only_the_visible [of ?s "''card:update''" "Some ?t"] by blast
qed

text \<open>Every decision explains itself: an allowed one has a granting step in its trace, a denied
  one a denying step, and the trace starts with the catalogue check.\<close>

theorem trace_justifies_decision:
  "(\<exists>st \<in> set (dec_trace (can s p target)).
      step_outcome st = (if dec_allowed (can s p target) then Grant else Deny)) \<and>
   layer (hd (dec_trace (can s p target))) = 1"
proof -
  have role: "step_outcome (snd (snd (role_layer s p))) = (if fst (role_layer s p) then Grant else Deny)"
    by (simp add: role_layer_def step_def Let_def)
  have tup: "fst (tuple_layer s p t b why) = b \<or>
      (\<exists>st \<in> set (snd (snd (tuple_layer s p t b why))).
         step_outcome st = (if fst (tuple_layer s p t b why) then Grant else Deny))" for t b why
    by (auto simp: tuple_layer_def step_def step_with_def Let_def filter_empty_conv
        split: list.splits)
  show ?thesis
  proof (cases target)
    case None
    then show ?thesis using role
      by (auto simp: can_def Let_def step_def step_with_def split: prod.splits)
  next
    case (Some t)
    obtain b why st where rl: "role_layer s p = (b, why, st)" by (cases "role_layer s p")
    obtain ok r steps where tl: "tuple_layer s p t b why = (ok, r, steps)"
      by (cases "tuple_layer s p t b why")
    show ?thesis using Some rl tl role tup [of t b why]
      by (auto simp: can_def Let_def step_def step_with_def)
  qed
qed

text \<open>The role matrix. What a member may do an admin may, what an admin may do an owner may; a
  guest may do nothing by role; nine permissions, membership management and the destructive or
  costly ones among them, are the owner's alone; and every permission that can be granted to an
  individual is organisation-level and never one of those nine.\<close>

theorem role_matrix:
  "(roleGrants ''guest'' p \<longrightarrow> False) \<and> (roleGrants ''member'' p \<longrightarrow> roleGrants ''admin'' p) \<and>
   (roleGrants ''admin'' p \<longrightarrow> roleGrants ''owner'' p) \<and>
   (roleGrants ''owner'' p \<and> \<not> roleGrants ''admin'' p \<longleftrightarrow>
      p \<in> {''org:update'', ''org:delete'', ''org:billing'', ''member:manage'', ''member:remove'',
            ''phoneNumber:purchase'', ''phoneNumber:release'', ''recording:export'',
            ''audit:export''}) \<and>
   (isGrantable p \<longrightarrow> isOrgLevel p \<and> roleGrants ''admin'' p)"
proof (intro conjI)
  show "roleGrants ''guest'' p \<longrightarrow> False" by (simp add: roleGrants_eq)
  show "roleGrants ''member'' p \<longrightarrow> roleGrants ''admin'' p" by (rule member_within_admin)
  show "roleGrants ''admin'' p \<longrightarrow> roleGrants ''owner'' p" by (rule admin_within_owner)
  show "isGrantable p \<longrightarrow> isOrgLevel p \<and> roleGrants ''admin'' p" by (rule grantable_admin)
qed (rule owner_not_admin)

theorem role_matrix_witness:
  "isOrgLevel ''ai:use'' \<and> roleGrants ''admin'' ''ai:use'' \<and> roleGrants ''owner'' ''ai:use''"
proof -
  have "isGrantable ''ai:use''" by code_simp
  moreover note role_matrix [of "''ai:use''"]
  ultimately show ?thesis by satx
qed

text \<open>A guest with neither a relation nor an individual grant is denied everything, and gets no
  further than the route floor.\<close>

theorem guest_without_relations_denied:
  assumes "sub_role s = ''guest''" and "sub_tuples s = []" and "sub_memberGrants s = None"
  shows "\<not> dec_allowed (can s p target) \<and> \<not> couldGrant s p"
proof -
  have "\<not> standing s p" using assms by (auto simp: standing_def roleGrants_eq hasMemberGrant_def)
  moreover have "nearestApplicable (sub_tuples s) t = []" for t
    using assms by (simp add: nearestApplicable_def nearest_in_Nil_iff held_def)
  ultimately show ?thesis
    using assms by (auto simp: can_allowed_iff policy_allows_def couldGrant_def standing_def
        Let_def split: option.splits)
qed

theorem guest_without_relations_denied_witness:
  "\<not> dec_allowed (can (person ''guest'' []) ''org:read'' None) \<and>
   \<not> couldGrant (person ''guest'' []) ''org:read''"
  by (rule guest_without_relations_denied) (simp_all add: person_def)

end
