(* ===== verification/Filter_Ast.thy ===== *)
theory Filter_Ast
  imports Errors
begin

text \<open>
  The filter tree, \<open>packages/filter/src/ast.ts\<close>: operators, literal values, the three node kinds,
  the limits, the Zod schemas as decoders from JSON, the iterative \<open>measure\<close> and the
  constructors.

  A number is an exact decimal \<open>Num m e\<close>, standing for \<open>m * 10 ^ e\<close>, with \<open>m\<close> not divisible by
  10 (zero is \<open>Num 0 0\<close>). This is exact for every JavaScript number whose shortest decimal form
  has at most 15 significant digits, which reading and printing a double preserves; negative zero,
  NaN and the infinities are not values of a filter that passed the schema and the parser on
  such a text.
\<close>

section \<open>Numbers\<close>

datatype number = Num int int

function normalise :: "int \<Rightarrow> int \<Rightarrow> number" where
  "normalise m e =
     (if m = 0 then Num 0 0 else if m mod 10 = 0 then normalise (m div 10) (e + 1) else Num m e)"
  by pat_completeness auto
termination
proof (relation "measure (\<lambda>(m, e). nat \<bar>m\<bar>)", goal_cases)
  case (2 m e)
  then have "m = 10 * (m div 10)" by presburger
  with 2 have "nat \<bar>m div 10\<bar> < nat \<bar>m\<bar>" by linarith
  then show ?case by simp
qed simp

declare normalise.simps [simp del]

fun normal :: "number \<Rightarrow> bool" where
  "normal (Num m e) = (if m = 0 then e = 0 else m mod 10 \<noteq> 0)"

lemma normal_normalise: "normal (normalise m e)"
  by (induction m e rule: normalise.induct) (subst normalise.simps, simp)

lemma normalise_normal: "normal (Num m e) \<Longrightarrow> normalise m e = Num m e"
  by (subst normalise.simps) (auto split: if_splits)

lemma normalise_shift: "normalise (m * 10 ^ k) e = normalise m (e + int k)"
proof (induction k arbitrary: e)
  case (Suc k)
  show ?case
  proof (cases "m = 0")
    case True
    then show ?thesis by (simp add: normalise.simps)
  next
    case False
    have "normalise (m * 10 ^ Suc k) e = normalise (m * 10 ^ k) (e + 1)"
      using False by (subst normalise.simps) (simp add: mult.left_commute)
    then show ?thesis by (simp add: Suc.IH algebra_simps)
  qed
qed simp

text \<open>\<open>a < b\<close> and \<open>a = b\<close> on numbers, by bringing both to the smaller exponent.\<close>

fun scaled :: "number \<Rightarrow> int \<Rightarrow> int" where
  "scaled (Num m e) base = m * 10 ^ nat (e - base)"

definition num_less :: "number \<Rightarrow> number \<Rightarrow> bool" where
  "num_less a b =
     (case (a, b) of (Num m e, Num n f) \<Rightarrow> scaled a (min e f) < scaled b (min e f))"

section \<open>The tree\<close>

datatype Operator =
    Eq | Neq | Lt | Lte | Gt | Gte | In | Not_In | Contains | Is_Empty | Is_Not_Empty

fun operator_name :: "Operator \<Rightarrow> string" where
  "operator_name Eq = ''eq''"
| "operator_name Neq = ''neq''"
| "operator_name Lt = ''lt''"
| "operator_name Lte = ''lte''"
| "operator_name Gt = ''gt''"
| "operator_name Gte = ''gte''"
| "operator_name In = ''in''"
| "operator_name Not_In = ''not_in''"
| "operator_name Contains = ''contains''"
| "operator_name Is_Empty = ''is_empty''"
| "operator_name Is_Not_Empty = ''is_not_empty''"

definition OPERATORS :: "Operator list" where
  "OPERATORS = [Eq, Neq, Lt, Lte, Gt, Gte, In, Not_In, Contains, Is_Empty, Is_Not_Empty]"

definition NULLARY_OPERATORS :: "Operator list" where
  "NULLARY_OPERATORS = [Is_Empty, Is_Not_Empty]"

definition LIST_OPERATORS :: "Operator list" where
  "LIST_OPERATORS = [In, Not_In]"

datatype FilterValue = FString string | FNumber number | FBool bool | FNull

definition ME :: string where "ME = ''@me''"

text \<open>The \<open>value\<close> of a comparison, when it has one: one literal or a list of them.\<close>

datatype node_value = Scalar FilterValue | ListOf "FilterValue list"

datatype combinator = AndC | OrC

datatype FilterNode =
    ComparisonNode string Operator "node_value option"
  | GroupNode combinator "FilterNode list"
  | NotNode FilterNode

text \<open>
  The casts \<open>node.value as FilterValue\<close> and \<open>as readonly FilterValue[]\<close> of the formatter, the validator,
  the compiler and the evaluator: on a tree whose value does not fit its operator, which no
  schema-checked tree is, they give \<open>null\<close> and the empty list, where JavaScript would throw or print
  \<open>undefined\<close>; no property is stated of such a tree.
\<close>

fun scalar_of :: "node_value option \<Rightarrow> FilterValue" where
  "scalar_of (Some (Scalar v)) = v"
| "scalar_of _ = FNull"

fun list_of :: "node_value option \<Rightarrow> FilterValue list" where
  "list_of (Some (ListOf vs)) = vs"
| "list_of _ = []"

definition MAX_DEPTH :: nat where "MAX_DEPTH = 12"
definition MAX_NODES :: nat where "MAX_NODES = 200"
definition MAX_LIST_LENGTH :: nat where "MAX_LIST_LENGTH = 200"

section \<open>Constructors\<close>

definition compare_node :: "string \<Rightarrow> Operator \<Rightarrow> node_value option \<Rightarrow> FilterNode" where
  "compare_node field operator value = ComparisonNode field operator value"

definition and_node :: "FilterNode list \<Rightarrow> FilterNode" where
  "and_node children = GroupNode AndC children"

definition or_node :: "FilterNode list \<Rightarrow> FilterNode" where
  "or_node children = GroupNode OrC children"

definition not_node :: "FilterNode \<Rightarrow> FilterNode" where
  "not_node child = NotNode child"

section \<open>Counting nodes and depth\<close>

text \<open>
  The loop of \<open>measure\<close>. The stack is a list with its top first; \<open>push\<close>ing the children in order
  leaves the last one on top. The loop ends on an empty stack or as soon as a limit is passed.
\<close>

fun children_of :: "FilterNode \<Rightarrow> FilterNode list" where
  "children_of (ComparisonNode _ _ _) = []"
| "children_of (GroupNode _ cs) = cs"
| "children_of (NotNode c) = [c]"

fun node_count :: "FilterNode \<Rightarrow> nat" where
  "node_count (ComparisonNode _ _ _) = 1"
| "node_count (GroupNode _ cs) = Suc (sum_list (map node_count cs))"
| "node_count (NotNode c) = Suc (node_count c)"

fun node_depth :: "FilterNode \<Rightarrow> nat" where
  "node_depth (ComparisonNode _ _ _) = 1"
| "node_depth (GroupNode _ cs) = Suc (fold max (map node_depth cs) 0)"
| "node_depth (NotNode c) = Suc (node_depth c)"

lemma node_count_children: "node_count n = Suc (sum_list (map node_count (children_of n)))"
  by (cases n) simp_all

function measure_loop :: "(FilterNode \<times> nat) list \<Rightarrow> nat \<Rightarrow> nat \<Rightarrow> nat \<times> nat" where
  "measure_loop stack nodes depth =
     (case stack of
        [] \<Rightarrow> (nodes, depth)
      | (node, level) # rest \<Rightarrow>
          (let nodes' = nodes + 1;
               depth' = (if level > depth then level else depth)
           in if nodes' > MAX_NODES \<or> depth' > MAX_DEPTH then (nodes', depth')
              else measure_loop (rev (map (\<lambda>c. (c, level + 1)) (children_of node)) @ rest)
                     nodes' depth'))"
  by pat_completeness auto
termination
proof (relation "measure (\<lambda>(stack, _, _). sum_list (map (node_count \<circ> fst) stack))", goal_cases)
  case (2 stack nodes depth p rest node level nodes' depth')
  have "sum_list (map (node_count \<circ> fst) (rev (map (\<lambda>c. (c, level + 1)) (children_of node))))
      = sum_list (map node_count (children_of node))"
    by (simp add: rev_map [symmetric] comp_def sum_list_rev)
  with 2 show ?case using node_count_children [of node] by (auto simp: prod_eq_iff)
qed simp

declare measure_loop.simps [simp del]

definition measure_tree :: "FilterNode \<Rightarrow> nat \<times> nat" where
  "measure_tree root = measure_loop [(root, 1)] 0 0"

section \<open>The wire schema\<close>

text \<open>
  \<open>FilterNodeSchema.safeParse\<close> and \<open>FilterTree.safeParse\<close>: the decoded tree, or \<open>None\<close> when the
  schema reports an issue. The objects are strict, so a key outside the listed ones is an issue.
  The three alternatives of the union differ in the literal \<open>kind\<close>.
\<close>

definition only_keys :: "string list \<Rightarrow> json \<Rightarrow> bool" where
  "only_keys ks j = (case j of JObj kvs \<Rightarrow> list_all (\<lambda>(k, _). k \<in> set ks) kvs | _ \<Rightarrow> False)"

fun decode_value :: "json \<Rightarrow> FilterValue option" where
  "decode_value (JStr s) = (if length s \<le> 500 then Some (FString s) else None)"
| "decode_value (JNum m e) = Some (FNumber (normalise m e))"
| "decode_value (JBool b) = Some (FBool b)"
| "decode_value JNull = Some FNull"
| "decode_value _ = None"

fun all_some :: "'a option list \<Rightarrow> 'a list option" where
  "all_some [] = Some []"
| "all_some (None # _) = None"
| "all_some (Some x # xs) = (case all_some xs of None \<Rightarrow> None | Some ys \<Rightarrow> Some (x # ys))"

fun decode_node_value :: "json \<Rightarrow> node_value option" where
  "decode_node_value (JArr js) =
     (if length js \<le> MAX_LIST_LENGTH
      then map_option ListOf (all_some (map decode_value js)) else None)"
| "decode_node_value j = map_option Scalar (decode_value j)"

definition decode_operator :: "json \<Rightarrow> Operator option" where
  "decode_operator j = (case j of JStr s \<Rightarrow> find (\<lambda>oper. operator_name oper = s) OPERATORS | _ \<Rightarrow> None)"

text \<open>The \<open>superRefine\<close> of \<open>ComparisonSchema\<close>: a value exactly when the operator takes one, and a
  list exactly when it takes a list.\<close>

definition value_shape_ok :: "Operator \<Rightarrow> node_value option \<Rightarrow> bool" where
  "value_shape_ok operator v =
     (let takesNoValue = operator \<in> set NULLARY_OPERATORS;
          takesList = operator \<in> set LIST_OPERATORS
      in case v of
           None \<Rightarrow> takesNoValue
         | Some (ListOf _) \<Rightarrow> \<not> takesNoValue \<and> takesList
         | Some (Scalar _) \<Rightarrow> \<not> takesNoValue \<and> \<not> takesList)"

definition ComparisonSchema :: "json \<Rightarrow> FilterNode option" where
  "ComparisonSchema j =
     (if \<not> only_keys [''kind'', ''field'', ''operator'', ''value''] j \<or>
         json_field ''kind'' j \<noteq> Some (JStr ''comparison'') then None
      else case json_field ''field'' j of
          Some (JStr field) \<Rightarrow>
            (if length field < 1 \<or> length field > 80 then None
             else case Option.bind (json_field ''operator'' j) decode_operator of
                 None \<Rightarrow> None
               | Some operator \<Rightarrow>
                   (case json_field ''value'' j of
                      None \<Rightarrow>
                        if value_shape_ok operator None
                        then Some (ComparisonNode field operator None) else None
                    | Some jv \<Rightarrow>
                        (case decode_node_value jv of
                           None \<Rightarrow> None
                         | Some v \<Rightarrow>
                             if value_shape_ok operator (Some v)
                             then Some (ComparisonNode field operator (Some v)) else None)))
        | _ \<Rightarrow> None)"

lemma json_field_size: "json_field k j = Some v \<Longrightarrow> size v < size j"
proof (induction k j rule: json_field.induct)
  case (1 k kvs)
  then have "(k, v) \<in> set kvs" by (auto dest: map_of_SomeD)
  then have "size_prod (\<lambda>_. 0) size (k, v) \<le> size_list (size_prod (\<lambda>_. 0) size) kvs"
    by (rule size_list_estimation') simp
  then show ?case by simp
qed simp_all

function FilterNodeSchema :: "json \<Rightarrow> FilterNode option" where
  "FilterNodeSchema j =
     (case ComparisonSchema j of
        Some n \<Rightarrow> Some n
      | None \<Rightarrow>
          if json_field ''kind'' j = Some (JStr ''group'') then
            (if \<not> only_keys [''kind'', ''combinator'', ''children''] j then None
             else
               (case json_field ''children'' j of
                  Some (JArr cs) \<Rightarrow>
                    (if length cs > MAX_NODES then None
                     else case all_some (map FilterNodeSchema cs) of
                         None \<Rightarrow> None
                       | Some ns \<Rightarrow>
                           if json_field ''combinator'' j = Some (JStr ''and'')
                           then Some (GroupNode AndC ns)
                           else if json_field ''combinator'' j = Some (JStr ''or'')
                           then Some (GroupNode OrC ns)
                           else None)
                | _ \<Rightarrow> None))
          else if json_field ''kind'' j = Some (JStr ''not'') then
            (if \<not> only_keys [''kind'', ''child''] j then None
             else
               (case json_field ''child'' j of
                  None \<Rightarrow> None
                | Some c \<Rightarrow> map_option NotNode (FilterNodeSchema c)))
          else None)"
  by pat_completeness auto
termination
proof (relation "measure size", goal_cases)
  case (2 j v cs c)
  then have "size v < size j" by (auto dest: json_field_size)
  moreover have "size c \<le> size_list size cs" using 2 by (auto intro: size_list_estimation')
  ultimately show ?case using 2 by simp
next
  case (3 j c)
  then show ?case by (auto dest: json_field_size)
qed simp

declare FilterNodeSchema.simps [simp del]

definition FilterTree :: "json \<Rightarrow> FilterNode option" where
  "FilterTree j =
     (case FilterNodeSchema j of
        None \<Rightarrow> None
      | Some node \<Rightarrow>
          (let (nodes, depth) = measure_tree node in
           if depth > MAX_DEPTH then None else if nodes > MAX_NODES then None else Some node))"

end
