(* ===== verification/Tokenize.thy ===== *)
theory Tokenize
  imports Filter_Ast
begin

text \<open>
  The TQL tokenizer, \<open>packages/filter/src/tql/tokenize.ts\<close>. The scan position is kept with the
  rest of the input: \<open>charAt(i)\<close> is the head of the rest, \<open>input[i + 1]\<close> the one after. The body
  of the \<open>while\<close> loop is \<open>lex_step\<close>: the tokens and errors one round pushes, and how many
  characters it consumes. Two messages hold a dash outside Latin-1, written as UTF-8.
\<close>

section \<open>Tokens\<close>

datatype Keyword =
  K_AND | K_OR | K_NOT | K_IN | K_IS | K_EMPTY | K_CONTAINS | K_ORDER | K_BY | K_ASC | K_DESC
  | K_NULL

definition KEYWORDS :: "(string \<times> Keyword) list" where
  "KEYWORDS =
    [(''AND'', K_AND), (''OR'', K_OR), (''NOT'', K_NOT), (''IN'', K_IN), (''IS'', K_IS),
     (''EMPTY'', K_EMPTY), (''CONTAINS'', K_CONTAINS), (''ORDER'', K_ORDER), (''BY'', K_BY),
     (''ASC'', K_ASC), (''DESC'', K_DESC), (''NULL'', K_NULL)]"

datatype TokenKind =
  KIdent | KString | KNumber | KRelative | KAt | KOp | KKeyword | KLparen | KRparen | KComma
  | KColon | KEof | KError

datatype token_value = VStr string | VNum number

record Token =
  tok_kind :: TokenKind
  tok_text :: string
  tok_value :: "token_value option"
  tok_keyword :: "Keyword option"
  tok_offset :: nat
  tok_length :: nat

record LexError =
  lex_offset :: nat
  lex_length :: nat
  lex_message :: string

section \<open>Character classes\<close>

definition ident_start :: "char \<Rightarrow> bool" where
  "ident_start c \<longleftrightarrow> CHR ''A'' \<le> c \<and> c \<le> CHR ''Z'' \<or> CHR ''a'' \<le> c \<and> c \<le> CHR ''z'' \<or> c = CHR ''_''"

definition is_digit :: "char \<Rightarrow> bool" where
  "is_digit c \<longleftrightarrow> CHR ''0'' \<le> c \<and> c \<le> CHR ''9''"

definition ident_cont :: "char \<Rightarrow> bool" where
  "ident_cont c \<longleftrightarrow> ident_start c \<or> is_digit c"

text \<open>\<open>\s\<close> on Latin-1: tab, line feed, vertical tab, form feed, carriage return, space and the
  non-breaking space.\<close>

definition is_space :: "char \<Rightarrow> bool" where
  "is_space c \<longleftrightarrow> c \<in> {CHR 0x09, CHR 0x0A, CHR 0x0B, CHR 0x0C, CHR 0x0D, CHR '' '', CHR 0xA0}"

definition is_letter :: "char \<Rightarrow> bool" where
  "is_letter c \<longleftrightarrow> CHR ''A'' \<le> c \<and> c \<le> CHR ''Z'' \<or> CHR ''a'' \<le> c \<and> c \<le> CHR ''z''"

text \<open>A test on \<open>input.charAt(j)\<close>: false past the end.\<close>

definition at_head :: "(char \<Rightarrow> bool) \<Rightarrow> string \<Rightarrow> bool" where
  "at_head P s = (case s of [] \<Rightarrow> False | c # _ \<Rightarrow> P c)"

definition push :: "TokenKind \<Rightarrow> nat \<Rightarrow> string \<Rightarrow> token_value option \<Rightarrow> Keyword option \<Rightarrow> Token" where
  "push kind start text value keyword =
     \<lparr>tok_kind = kind, tok_text = text, tok_value = value, tok_keyword = keyword,
      tok_offset = start, tok_length = length text\<rparr>"

definition lex_error :: "nat \<Rightarrow> nat \<Rightarrow> string \<Rightarrow> LexError" where
  "lex_error start len message = \<lparr>lex_offset = start, lex_length = len, lex_message = message\<rparr>"

definition em_dash :: string where "em_dash = [CHR 0xE2, CHR 0x80, CHR 0x94]"

section \<open>Numbers and relative dates\<close>

text \<open>\<open>Number(text)\<close> for an optional sign, digits, and an optional fraction.\<close>

definition digit_val :: "char \<Rightarrow> int" where
  "digit_val c = int (of_char c) - 48"

definition digits_val :: "string \<Rightarrow> int" where
  "digits_val ds = foldl (\<lambda>n c. 10 * n + digit_val c) 0 ds"

definition number_of_text :: "string \<Rightarrow> number" where
  "number_of_text text =
     (let negative = at_head (\<lambda>c. c = CHR ''-'') text;
          body = (if at_head (\<lambda>c. c = CHR ''-'' \<or> c = CHR ''+'') text then tl text else text);
          whole = takeWhile is_digit body;
          frac = tl (dropWhile is_digit body);
          m = digits_val (whole @ frac)
      in normalise (if negative then - m else m) (- int (length frac)))"

text \<open>\<open>scanNumber\<close>: what it pushes, and the number of characters up to the new position.\<close>

definition scanNumber :: "nat \<Rightarrow> string \<Rightarrow> Token list \<times> LexError list \<times> nat" where
  "scanNumber start s =
     (let sign = (if at_head (\<lambda>c. c = CHR ''+'' \<or> c = CHR ''-'') s then 1 else 0);
          j1 = sign + length (takeWhile is_digit (drop sign s));
          hasDecimal = (at_head (\<lambda>c. c = CHR ''.'') (drop j1 s) \<and>
                        at_head is_digit (drop (j1 + 1) s));
          j = (if hasDecimal then j1 + 1 + length (takeWhile is_digit (drop (j1 + 1) s)) else j1);
          isMonth = (at_head (\<lambda>c. c = CHR ''m'') (drop j s) \<and>
                     at_head (\<lambda>c. c = CHR ''o'') (drop (j + 1) s));
          isDayWeek = (at_head (\<lambda>c. c = CHR ''d'' \<or> c = CHR ''w'') (drop j s) \<and> \<not> hasDecimal)
      in
      if isMonth \<or> isDayWeek then
        (let end = j + (if isMonth then 2 else 1);
             literal = take end s
         in ([push KRelative start literal (Some (VStr literal)) None], [], end))
      else if hasDecimal \<and> at_head is_letter (drop j s) then
        ([push KError start (take j s) None None],
         [lex_error start j (CHR 0x22 # take j s @ CHR 0x22 # '' cannot be followed by a unit '' @
            em_dash @ '' relative dates are whole days, weeks or months.'')],
         j)
      else
        ([push KNumber start (take j s) (Some (VNum (number_of_text (take j s)))) None], [], j))"

section \<open>Quoted strings\<close>

text \<open>
  The inner loop over the characters after the opening quote: \<open>Some (decoded, k)\<close> when the string
  closes, \<open>k\<close> characters in, the closing quote included; otherwise \<open>Inl decoded\<close>.
\<close>

fun scan_string :: "char \<Rightarrow> string \<Rightarrow> string + string \<times> nat" where
  "scan_string quote [] = Inl []"
| "scan_string quote (c # s) =
     (if c = CHR 0x5C then
        (case s of
           [] \<Rightarrow> Inl []
         | nx # rest \<Rightarrow>
             (let piece = (if nx = CHR 0x22 \<or> nx = CHR 0x5C then [nx] else [CHR 0x5C, nx]) in
              case scan_string quote rest of
                Inl d \<Rightarrow> Inl (piece @ d) | Inr (d, k) \<Rightarrow> Inr (piece @ d, k + 2)))
      else if c = quote then Inr ([], 1)
      else (case scan_string quote s of Inl d \<Rightarrow> Inl (c # d) | Inr (d, k) \<Rightarrow> Inr (c # d, k + 1)))"

section \<open>The loop\<close>

text \<open>
  One token and no error; one error token of one character with its message; the branches for
  quoted strings, \<open>@\<close> values and words.
\<close>

definition single :: "TokenKind \<Rightarrow> nat \<Rightarrow> string \<Rightarrow> Token list \<times> LexError list \<times> nat" where
  "single kind start text = ([push kind start text None None], [], length text)"

definition bad :: "nat \<Rightarrow> char \<Rightarrow> string \<Rightarrow> Token list \<times> LexError list \<times> nat" where
  "bad start ch message = ([push KError start [ch] None None], [lex_error start 1 message], 1)"

definition bang_message :: string where
  "bang_message = ''Unexpected '' @ [CHR 0x22] @ ''!'' @ [CHR 0x22] @ ''. Did you mean '' @
     [CHR 0x22] @ ''!='' @ [CHR 0x22] @ ''?''"

definition unexpected_message :: "char \<Rightarrow> string" where
  "unexpected_message ch = ''Unexpected '' @ [CHR 0x22, ch, CHR 0x22] @ ''.''"

definition unexpected_character_message :: "char \<Rightarrow> string" where
  "unexpected_character_message ch = ''Unexpected character '' @ [CHR 0x22, ch, CHR 0x22] @ ''.''"

definition at_message :: string where
  "at_message = ''Unexpected '' @ [CHR 0x22] @ ''@'' @ [CHR 0x22] @ '' '' @ em_dash @
     '' expected a name after it, like @me.''"

definition unterminated_message :: "char \<Rightarrow> string" where
  "unterminated_message quote =
     ''Unterminated string '' @ em_dash @ '' the closing '' @ [quote] @ '' is missing.''"

definition lex_string :: "nat \<Rightarrow> char \<Rightarrow> string \<Rightarrow> Token list \<times> LexError list \<times> nat" where
  "lex_string start ch s =
     (case scan_string ch s of
        Inl decoded \<Rightarrow>
          ([push KError start (ch # s) (Some (VStr decoded)) None],
           [lex_error start (length (ch # s)) (unterminated_message ch)], length (ch # s))
      | Inr (decoded, k) \<Rightarrow>
          ([push KString start (take (k + 1) (ch # s)) (Some (VStr decoded)) None], [], k + 1))"

definition lex_at :: "nat \<Rightarrow> string \<Rightarrow> Token list \<times> LexError list \<times> nat" where
  "lex_at start s =
     (if at_head ident_start s
      then (let name = hd s # takeWhile ident_cont (tl s)
            in ([push KAt start (CHR ''@'' # name) (Some (VStr name)) None], [], 1 + length name))
      else bad start (CHR ''@'') at_message)"

definition lex_word :: "nat \<Rightarrow> char \<Rightarrow> string \<Rightarrow> Token list \<times> LexError list \<times> nat" where
  "lex_word start ch s =
     (let text = ch # takeWhile ident_cont s;
          keyword = map_of KEYWORDS (to_upper text)
      in ([push (if keyword \<noteq> None then KKeyword else KIdent) start text None keyword], [],
          length text))"

definition lex_step :: "nat \<Rightarrow> char \<Rightarrow> string \<Rightarrow> Token list \<times> LexError list \<times> nat" where
  "lex_step start ch s =
     (if is_space ch then ([], [], 1)
      else if ch = CHR ''='' then single KOp start ''=''
      else if ch = CHR ''!'' then
        (if at_head (\<lambda>c. c = CHR ''='') s then single KOp start ''!=''
         else bad start ch bang_message)
      else if ch = CHR ''<'' then
        (if at_head (\<lambda>c. c = CHR ''='') s then single KOp start ''<=''
         else if at_head (\<lambda>c. c = CHR ''>'') s then single KOp start ''<>''
         else single KOp start ''<'')
      else if ch = CHR ''>'' then
        (if at_head (\<lambda>c. c = CHR ''='') s then single KOp start ''>=''
         else single KOp start ''>'')
      else if ch = CHR ''('' then single KLparen start ''(''
      else if ch = CHR '')'' then single KRparen start '')''
      else if ch = CHR '','' then single KComma start '',''
      else if ch = CHR '':'' then single KColon start '':''
      else if ch = CHR ''+'' \<or> ch = CHR ''-'' then
        (if at_head is_digit s then scanNumber start (ch # s)
         else bad start ch (unexpected_message ch))
      else if is_digit ch then scanNumber start (ch # s)
      else if ch = CHR 0x22 \<or> ch = CHR 0x27 then lex_string start ch s
      else if ch = CHR ''@'' then lex_at start s
      else if ident_start ch then lex_word start ch s
      else bad start ch (unexpected_character_message ch))"

lemma scanNumber_length:
  "(if at_head (\<lambda>c. c = CHR ''+'' \<or> c = CHR ''-'') s then 1 else 0) +
     length (takeWhile is_digit (drop (if at_head (\<lambda>c. c = CHR ''+'' \<or> c = CHR ''-'') s then 1 else 0) s))
   \<le> snd (snd (scanNumber start s))"
  unfolding scanNumber_def Let_def by simp

lemma scanNumber_progress:
  assumes "scanNumber start s = (ts, es, n)"
    and "at_head is_digit s \<or> at_head (\<lambda>c. c = CHR ''+'' \<or> c = CHR ''-'') s"
  shows "0 < n"
proof -
  have "0 < (if at_head (\<lambda>c. c = CHR ''+'' \<or> c = CHR ''-'') s then 1 else 0) + length (takeWhile is_digit s)"
    using assms(2) by (cases s) (auto simp: at_head_def)
  then show ?thesis
    using scanNumber_length [of s start] assms(1)
    by (cases "takeWhile is_digit s") (auto split: if_splits)
qed

lemma lex_step_progress: "lex_step start ch s = (ts, es, n) \<Longrightarrow> 0 < n"
  unfolding lex_step_def single_def bad_def lex_string_def lex_at_def lex_word_def
  using scanNumber_progress [of start "ch # s" ts es n]
  by (auto simp: Let_def at_head_def split: if_splits sum.splits)

function lex_loop :: "nat \<Rightarrow> string \<Rightarrow> Token list \<times> LexError list" where
  "lex_loop start [] = ([push KEof start [] None None], [])"
| "lex_loop start (ch # s) =
     (case lex_step start ch s of
        (ts, es, n) \<Rightarrow>
          (case lex_loop (start + n) (drop n (ch # s)) of (ts', es') \<Rightarrow> (ts @ ts', es @ es')))"
  by pat_completeness auto
termination
proof (relation "measure (\<lambda>(_, s). length s)", goal_cases)
  case (2 start ch s p ts q n)
  then have "0 < n" by (metis lex_step_progress)
  then show ?case by simp
qed simp

definition tokenize :: "string \<Rightarrow> Token list \<times> LexError list" where
  "tokenize input = lex_loop 0 input"

end
