(* ===== verification/Parse.thy ===== *)
theory Parse
  imports Tokenize
begin

text \<open>
  The TQL parser, \<open>packages/filter/src/tql/parse.ts\<close>. The parser object is its token list and
  the position \<open>pos\<close>, passed along and returned; a \<open>ParseFailure\<close> is \<open>Throw\<close>. The methods call
  each other recursively, so each takes a fuel that one call uses up; \<open>OutOfFuel\<close> is the failure
  of running out. \<open>parse\<close> supplies three times the number of tokens and a little, which
  \<open>Tql_Correct\<close> proves is always enough. Dashes outside Latin-1 are written as UTF-8.
\<close>

record TqlError =
  tql_offset :: nat
  tql_length :: nat
  tql_message :: string

datatype direction = Asc | Desc

record OrderBy =
  ord_field :: string
  ord_direction :: direction

datatype ParseResult =
    ParseOk "FilterNode option" "OrderBy option"
  | ParseErrors "TqlError list"

datatype parse_failure = Failure TqlError | OutOfFuel

type_synonym 'a parsed = "(parse_failure, 'a \<times> nat) result"

definition failure :: "Token \<Rightarrow> string \<Rightarrow> parse_failure" where
  "failure token message =
     Failure \<lparr>tql_offset = tok_offset token, tql_length = tok_length token, tql_message = message\<rparr>"

definition quoted :: "string \<Rightarrow> string" where
  "quoted s = CHR 0x22 # s @ [CHR 0x22]"

fun describe_kind :: "TokenKind \<Rightarrow> Token \<Rightarrow> string" where
  "describe_kind KEof token = ''the end of the query''"
| "describe_kind KString token = ''the string '' @ tok_text token"
| "describe_kind KKeyword token = quoted (to_upper (tok_text token))"
| "describe_kind _ token = quoted (tok_text token)"

definition describe :: "Token \<Rightarrow> string" where
  "describe token = describe_kind (tok_kind token) token"

section \<open>The token cursor\<close>

text \<open>\<open>peek\<close>: the token at \<open>pos\<close>, or the last one (the end-of-input sentinel) past the end. The
  token list of a parser is never empty.\<close>

definition peek :: "Token list \<Rightarrow> nat \<Rightarrow> Token" where
  "peek toks pos = (if pos < length toks then toks ! pos else last toks)"

definition is_keyword :: "Token \<Rightarrow> Keyword \<Rightarrow> bool" where
  "is_keyword token k = (tok_kind token = KKeyword \<and> tok_keyword token = Some k)"

definition string_value :: "Token \<Rightarrow> string" where
  "string_value token = (case tok_value token of Some (VStr s) \<Rightarrow> s | _ \<Rightarrow> [])"

definition number_value :: "Token \<Rightarrow> number" where
  "number_value token = (case tok_value token of Some (VNum n) \<Rightarrow> n | _ \<Rightarrow> Num 0 0)"

section \<open>Printing numbers\<close>

text \<open>
  \<open>String(n)\<close> as ECMAScript defines it: with \<open>k\<close> digits \<open>s\<close> and the decimal point after digit \<open>n\<close>,
  positional notation when \<open>-6 < n\<close> and \<open>n \<le> 21\<close>, otherwise an exponent.
\<close>

definition number_digits :: "string \<Rightarrow> int \<Rightarrow> string" where
  "number_digits ds e =
     (let k = int (length ds); n = k + e in
      if k \<le> n \<and> n \<le> 21 then ds @ replicate (nat (n - k)) (CHR ''0'')
      else if 0 < n \<and> n \<le> 21 then take (nat n) ds @ ''.'' @ drop (nat n) ds
      else if -6 < n \<and> n \<le> 0 then ''0.'' @ replicate (nat (- n)) (CHR ''0'') @ ds
      else take 1 ds @ (if k = 1 then [] else CHR ''.'' # drop 1 ds) @ ''e'' @
           (if 0 < n then ''+'' else ''-'') @ decimal_of_nat (nat \<bar>n - 1\<bar>))"

fun string_of_number :: "number \<Rightarrow> string" where
  "string_of_number (Num m e) =
     (if m = 0 then ''0''
      else (if m < 0 then ''-'' else []) @ number_digits (decimal_of_nat (nat \<bar>m\<bar>)) e)"

section \<open>Values and lists\<close>

definition ident_value :: "string \<Rightarrow> FilterValue" where
  "ident_value text =
     (let lower = to_lower text in
      if lower = ''me'' then FString ME
      else if lower = ''true'' then FBool True
      else if lower = ''false'' then FBool False
      else FString text)"

definition parseValue :: "Token list \<Rightarrow> nat \<Rightarrow> FilterValue parsed" where
  "parseValue toks pos =
     (let token = peek toks pos in
      case tok_kind token of
        KString \<Rightarrow> Return (FString (string_value token), pos + 1)
      | KNumber \<Rightarrow> Return (FNumber (number_value token), pos + 1)
      | KRelative \<Rightarrow> Return (FString (tok_text token), pos + 1)
      | KAt \<Rightarrow> Return (FString (if string_value token = ''me'' then ME
                                   else CHR ''@'' # string_value token), pos + 1)
      | KIdent \<Rightarrow> Return (ident_value (tok_text token), pos + 1)
      | KKeyword \<Rightarrow>
          (if tok_keyword token = Some K_NULL then Return (FNull, pos + 1)
           else Throw (failure token
             (''Unexpected '' @ describe token @ '' '' @ em_dash @ '' expected a value.'')))
      | _ \<Rightarrow> Throw (failure token ''Expected a value.''))"

fun list_loop :: "nat \<Rightarrow> Token list \<Rightarrow> FilterValue list \<Rightarrow> nat \<Rightarrow> FilterValue list parsed" where
  "list_loop 0 toks values pos = Throw OutOfFuel"
| "list_loop (Suc n) toks values pos =
     (let token = peek toks pos in
      if tok_kind token = KRparen then Return (values, pos + 1)
      else if tok_kind token = KEof
      then Throw (failure token (''Unclosed list '' @ em_dash @ '' expected '' @ quoted '')'' @ ''.''))
      else bind_result (parseValue toks pos) (\<lambda>(v, pos').
        (let after = peek toks pos' in
         if tok_kind after = KRparen then Return (values @ [v], pos' + 1)
         else if tok_kind after = KComma then list_loop n toks (values @ [v]) (pos' + 1)
         else Throw (failure after
           (''Expected '' @ quoted '','' @ '' or '' @ quoted '')'' @ '' in the list.'')))))"

definition parseList :: "nat \<Rightarrow> Token list \<Rightarrow> nat \<Rightarrow> FilterValue list parsed" where
  "parseList n toks pos =
     (let open_token = peek toks pos in
      if tok_kind open_token \<noteq> KLparen
      then Throw (failure open_token (''Expected '' @ quoted ''('' @ '' to start the list.''))
      else list_loop n toks [] (pos + 1))"

section \<open>Comparisons and free text\<close>

definition startsComparison :: "Token list \<Rightarrow> nat \<Rightarrow> bool" where
  "startsComparison toks pos =
     (if pos < length toks then
        (let nx = toks ! pos in
         if tok_kind nx = KOp \<or> tok_kind nx = KColon then True
         else tok_kind nx = KKeyword \<and>
              (tok_keyword nx = Some K_CONTAINS \<or> tok_keyword nx = Some K_IN \<or>
               tok_keyword nx = Some K_IS \<or> tok_keyword nx = Some K_NOT))
      else False)"

definition compare_value :: "string \<Rightarrow> Operator \<Rightarrow> FilterValue parsed \<Rightarrow> FilterNode parsed" where
  "compare_value field operator r =
     bind_result r (\<lambda>(v, pos). Return (compare_node field operator (Some (Scalar v)), pos))"

definition compare_list :: "string \<Rightarrow> Operator \<Rightarrow> FilterValue list parsed \<Rightarrow> FilterNode parsed" where
  "compare_list field operator r =
     bind_result r (\<lambda>(vs, pos). Return (compare_node field operator (Some (ListOf vs)), pos))"

definition op_of_text :: "string \<Rightarrow> Operator option" where
  "op_of_text text =
     map_of [(''='', Eq), (''!='', Neq), (''<>'', Neq), (''<'', Lt), (''<='', Lte), (''>'', Gt),
             (''>='', Gte)] text"

definition parse_is :: "string \<Rightarrow> Token list \<Rightarrow> nat \<Rightarrow> FilterNode parsed" where
  "parse_is field toks pos =
     (let after = peek toks pos in
      if is_keyword after K_EMPTY then Return (compare_node field Is_Empty None, pos + 1)
      else if is_keyword after K_NOT then
        (let rest = peek toks (pos + 1) in
         if is_keyword rest K_EMPTY then Return (compare_node field Is_Not_Empty None, pos + 2)
         else Throw (failure rest ''Expected EMPTY after NOT.''))
      else Throw (failure after ''Expected EMPTY after IS.''))"

definition parseComparison :: "nat \<Rightarrow> string \<Rightarrow> Token list \<Rightarrow> nat \<Rightarrow> FilterNode parsed" where
  "parseComparison n field toks pos =
     (let oper = peek toks pos;
          unexpected = Throw (failure oper
            (''Unexpected '' @ describe oper @ '' after '' @ quoted field @ ''.''))
      in
      if tok_kind oper = KColon then compare_value field Eq (parseValue toks (pos + 1))
      else if tok_kind oper = KOp then
        (case op_of_text (tok_text oper) of
           Some operator \<Rightarrow> compare_value field operator (parseValue toks (pos + 1))
         | None \<Rightarrow> Throw (failure oper (''Unknown operator '' @ quoted (tok_text oper) @ ''.'')))
      else if tok_kind oper = KKeyword then
        (if tok_keyword oper = Some K_CONTAINS
         then compare_value field Contains (parseValue toks (pos + 1))
         else if tok_keyword oper = Some K_IN
         then compare_list field In (parseList n toks (pos + 1))
         else if tok_keyword oper = Some K_NOT then
           (let after = peek toks (pos + 1) in
            if is_keyword after K_IN then compare_list field Not_In (parseList n toks (pos + 2))
            else Throw (failure after ''Expected IN after NOT.''))
         else if tok_keyword oper = Some K_IS then parse_is field toks (pos + 1)
         else unexpected)
      else unexpected)"

definition freeText :: "Token \<Rightarrow> nat \<Rightarrow> FilterNode parsed" where
  "freeText token pos =
     (let contains = (\<lambda>s. Return (compare_node ''text'' Contains (Some (Scalar (FString s))), pos + 1))
      in
      case tok_kind token of
        KString \<Rightarrow> contains (string_value token)
      | KNumber \<Rightarrow> contains (string_of_number (number_value token))
      | KAt \<Rightarrow> contains (CHR ''@'' # string_value token)
      | KIdent \<Rightarrow> contains (tok_text token)
      | KRelative \<Rightarrow> contains (tok_text token)
      | _ \<Rightarrow> Throw (failure token
              (''Unexpected '' @ describe token @ '' '' @ em_dash @ '' expected free text.'')))"

definition parseAtom :: "nat \<Rightarrow> Token list \<Rightarrow> nat \<Rightarrow> FilterNode parsed" where
  "parseAtom n toks pos =
     (let token = peek toks pos in
      if tok_kind token = KIdent \<and> startsComparison toks (pos + 1)
      then parseComparison n (tok_text token) toks (pos + 1)
      else if tok_kind token \<in> {KIdent, KString, KNumber, KRelative, KAt} then freeText token pos
      else if tok_kind token = KOp
      then Throw (failure token (''Unexpected '' @ quoted (tok_text token) @ '' '' @ em_dash @
             '' a comparison needs a field name first.''))
      else Throw (failure token (''Unexpected '' @ describe token @ ''.'')))"

section \<open>Terms, conjunctions, disjunctions\<close>

definition order_by_message :: string where
  "order_by_message = ''ORDER BY is only allowed at the end of the query.''"

definition close_group :: "Token list \<Rightarrow> FilterNode \<Rightarrow> nat \<Rightarrow> FilterNode parsed" where
  "close_group toks inner pos =
     (let close = peek toks pos in
      if is_keyword close K_ORDER then Throw (failure close order_by_message)
      else if tok_kind close \<noteq> KRparen
      then Throw (failure close (''Unclosed group '' @ em_dash @ '' expected '' @ quoted '')'' @ ''.''))
      else Return (case inner of GroupNode _ _ \<Rightarrow> inner | _ \<Rightarrow> GroupNode AndC [inner], pos + 1))"

definition ends_and :: "Token \<Rightarrow> bool" where
  "ends_and token =
     (is_keyword token K_OR \<or> tok_kind token = KEof \<or> tok_kind token = KRparen \<or>
      is_keyword token K_ORDER)"

text \<open>
  The five mutually recursive pieces (two methods have a loop) are one function over the place
  the parser is in, recursive on the fuel.
\<close>

datatype place =
  At_Or | At_Or_Loop "FilterNode list" | At_And | At_And_Loop "FilterNode list" | At_Term

primrec parse_at :: "nat \<Rightarrow> place \<Rightarrow> Token list \<Rightarrow> nat \<Rightarrow> FilterNode parsed" where
  "parse_at 0 = (\<lambda>place toks pos. Throw OutOfFuel)"
| "parse_at (Suc n) = (\<lambda>place toks pos.
     (case place of
        At_Or \<Rightarrow>
          bind_result (parse_at n At_And toks pos) (\<lambda>(t, pos'). parse_at n (At_Or_Loop [t]) toks pos')
      | At_Or_Loop parts \<Rightarrow>
          (if is_keyword (peek toks pos) K_OR
           then bind_result (parse_at n At_And toks (pos + 1))
                  (\<lambda>(t, pos'). parse_at n (At_Or_Loop (parts @ [t])) toks pos')
           else Return (if length parts = 1 then hd parts else or_node parts, pos))
      | At_And \<Rightarrow>
          bind_result (parse_at n At_Term toks pos)
            (\<lambda>(t, pos'). parse_at n (At_And_Loop [t]) toks pos')
      | At_And_Loop terms \<Rightarrow>
          (if is_keyword (peek toks pos) K_AND
           then bind_result (parse_at n At_Term toks (pos + 1))
                  (\<lambda>(t, pos'). parse_at n (At_And_Loop (terms @ [t])) toks pos')
           else if ends_and (peek toks pos)
           then Return (if length terms = 1 then hd terms else and_node terms, pos)
           else bind_result (parse_at n At_Term toks pos)
                  (\<lambda>(t, pos'). parse_at n (At_And_Loop (terms @ [t])) toks pos'))
      | At_Term \<Rightarrow>
          (let token = peek toks pos in
           if is_keyword token K_NOT
           then bind_result (parse_at n At_Term toks (pos + 1))
                  (\<lambda>(t, pos'). Return (not_node t, pos'))
           else if is_keyword token K_ORDER then Throw (failure token order_by_message)
           else if tok_kind token = KLparen then
             (if tok_kind (peek toks (pos + 1)) = KRparen
              then Return (GroupNode AndC [], pos + 2)
              else bind_result (parse_at n At_Or toks (pos + 1))
                     (\<lambda>(inner, pos'). close_group toks inner pos'))
           else parseAtom n toks pos)))"

abbreviation parseOr :: "nat \<Rightarrow> Token list \<Rightarrow> nat \<Rightarrow> FilterNode parsed" where
  "parseOr n \<equiv> parse_at n At_Or"

section \<open>ORDER BY and the whole query\<close>

definition parseOrderBy :: "Token list \<Rightarrow> nat \<Rightarrow> OrderBy option parsed" where
  "parseOrderBy toks pos =
     (if \<not> is_keyword (peek toks pos) K_ORDER then Return (None, pos)
      else
        (let by_token = peek toks (pos + 1); field = peek toks (pos + 2); dir = peek toks (pos + 3) in
         if \<not> is_keyword by_token K_BY then Throw (failure by_token ''Expected BY after ORDER.'')
         else if tok_kind field \<noteq> KIdent
         then Throw (failure field ''Expected a field name after ORDER BY.'')
         else
           (if is_keyword dir K_ASC
            then Return (Some \<lparr>ord_field = tok_text field, ord_direction = Asc\<rparr>, pos + 4)
            else if is_keyword dir K_DESC
            then Return (Some \<lparr>ord_field = tok_text field, ord_direction = Desc\<rparr>, pos + 4)
            else Return (Some \<lparr>ord_field = tok_text field, ord_direction = Asc\<rparr>, pos + 3))))"

definition run_parser :: "nat \<Rightarrow> Token list \<Rightarrow> (parse_failure, ParseResult) result" where
  "run_parser n toks =
     (let first = peek toks 0 in
      bind_result
        (if tok_kind first = KEof \<or> is_keyword first K_ORDER then Return (None, 0)
         else bind_result (parseOr n toks 0) (\<lambda>(f, pos). Return (Some f, pos)))
        (\<lambda>(filter, pos). bind_result (parseOrderBy toks pos) (\<lambda>(orderBy, pos').
           (let trailing = peek toks pos' in
            if tok_kind trailing \<noteq> KEof
            then Throw (failure trailing (''Unexpected '' @ describe trailing @ ''.''))
            else Return (ParseOk filter orderBy)))))"

definition parse_fuel :: "Token list \<Rightarrow> nat" where
  "parse_fuel toks = 3 * length toks + 3"

text \<open>\<open>None\<close> is the outcome of running out of fuel, which does not happen.\<close>

definition parse :: "string \<Rightarrow> ParseResult option" where
  "parse input =
     (case tokenize input of
        (toks, errors) \<Rightarrow>
          if errors \<noteq> []
          then Some (ParseErrors (map (\<lambda>e. \<lparr>tql_offset = lex_offset e, tql_length = lex_length e,
                                            tql_message = lex_message e\<rparr>) errors))
          else (case run_parser (parse_fuel toks) toks of
                  Inr r \<Rightarrow> Some r
                | Inl (Failure e) \<Rightarrow> Some (ParseErrors [e])
                | Inl OutOfFuel \<Rightarrow> None))"

end
