(* ===== verification/Format.thy ===== *)
theory Format
  imports Parse
begin

text \<open>
  The TQL formatter, \<open>packages/filter/src/tql/format.ts\<close>: a filter tree rendered as canonical TQL.
\<close>

definition RESERVED :: "string list" where
  "RESERVED =
    [''and'', ''or'', ''not'', ''in'', ''is'', ''empty'', ''contains'', ''order'', ''by'', ''asc'',
     ''desc'', ''null'', ''me'', ''true'', ''false'']"

definition isSafeBare :: "string \<Rightarrow> bool" where
  "isSafeBare value =
     (at_head ident_start value \<and> list_all ident_cont (tl value) \<and>
      to_lower value \<notin> set RESERVED)"

text \<open>
  The two \<open>replace\<close> calls of \<open>quote\<close>, backslashes first and then double quotes: the second leaves the
  backslashes of the first alone, so together they act character by character.
\<close>

definition quote_char :: "char \<Rightarrow> string" where
  "quote_char c = (if c = CHR 0x5C then [CHR 0x5C, CHR 0x5C]
                   else if c = CHR 0x22 then [CHR 0x5C, CHR 0x22] else [c])"

definition quote :: "string \<Rightarrow> string" where
  "quote value = quoted (concat (map quote_char value))"

fun emitValue :: "FilterValue \<Rightarrow> string" where
  "emitValue FNull = ''null''"
| "emitValue (FBool b) = (if b then ''true'' else ''false'')"
| "emitValue (FNumber n) = string_of_number n"
| "emitValue (FString s) =
     (if s = ME then ''@me'' else if isSafeBare s then s else quote s)"

fun emitComparison :: "string \<Rightarrow> Operator \<Rightarrow> node_value option \<Rightarrow> string" where
  "emitComparison field Eq v = field @ '' = '' @ emitValue (scalar_of v)"
| "emitComparison field Neq v = field @ '' != '' @ emitValue (scalar_of v)"
| "emitComparison field Lt v = field @ '' < '' @ emitValue (scalar_of v)"
| "emitComparison field Lte v = field @ '' <= '' @ emitValue (scalar_of v)"
| "emitComparison field Gt v = field @ '' > '' @ emitValue (scalar_of v)"
| "emitComparison field Gte v = field @ '' >= '' @ emitValue (scalar_of v)"
| "emitComparison field In v =
     field @ '' IN ('' @ join '', '' (map emitValue (list_of v)) @ '')''"
| "emitComparison field Not_In v =
     field @ '' NOT IN ('' @ join '', '' (map emitValue (list_of v)) @ '')''"
| "emitComparison field Contains v = field @ '' CONTAINS '' @ emitValue (scalar_of v)"
| "emitComparison field Is_Empty v = field @ '' IS EMPTY''"
| "emitComparison field Is_Not_Empty v = field @ '' IS NOT EMPTY''"

fun emit :: "FilterNode \<Rightarrow> string" where
  "emit (GroupNode c children) =
     (if children = [] then ''()''
      else ''('' @ join (if c = AndC then '' AND '' else '' OR '') (map emit children) @ '')'')"
| "emit (NotNode child) = ''NOT '' @ emit child"
| "emit (ComparisonNode field operator v) = emitComparison field operator v"

definition format :: "FilterNode option \<Rightarrow> string" where
  "format node = (case node of None \<Rightarrow> [] | Some n \<Rightarrow> emit n)"

end
