(* ===== verification/Tql_Positions.thy ===== *)
theory Tql_Positions
  imports Format
begin

text \<open>
  What the TQL text front end guarantees: parsing always ends with a tree or positioned errors,
  token positions are the slices of the source they claim to be, and formatting a canonical tree
  and parsing the text gives the tree back.
\<close>

section \<open>The parser never runs out of fuel\<close>

text \<open>A parser's token list: not empty, with the end-of-input sentinel last.\<close>

definition sentinel :: "Token list \<Rightarrow> bool" where
  "sentinel toks \<longleftrightarrow> toks \<noteq> [] \<and> tok_kind (last toks) = KEof"

lemma peek_within:
  "sentinel toks \<Longrightarrow> tok_kind (peek toks pos) \<noteq> KEof \<Longrightarrow> pos < length toks"
  by (auto simp: sentinel_def peek_def split: if_splits)

text \<open>
  \<open>advances\<close>: a result is not the failure of running out of fuel, a failure points at a token, and
  a success moved the position, by at least \<open>k\<close>, from a position within the tokens if \<open>k > 0\<close>.
\<close>

definition advances :: "nat \<Rightarrow> Token list \<Rightarrow> nat \<Rightarrow> 'a parsed \<Rightarrow> bool" where
  "advances k toks pos r \<longleftrightarrow> r \<noteq> Throw OutOfFuel \<and>
     (\<forall>e. r = Throw (Failure e) \<longrightarrow>
        (\<exists>t \<in> set toks. tql_offset e = tok_offset t \<and> tql_length e = tok_length t)) \<and>
     (\<forall>a pos'. r = Return (a, pos') \<longrightarrow> pos + k \<le> pos' \<and> (0 < k \<longrightarrow> pos < length toks))"

lemma advances_Return [simp]:
  "advances k toks pos (Inr (a, pos')) \<longleftrightarrow> pos + k \<le> pos' \<and> (0 < k \<longrightarrow> pos < length toks)"
  by (auto simp: advances_def)

lemma advances_failure [simp]: "t \<in> set toks \<Longrightarrow> advances k toks pos (Inl (failure t m))"
  by (auto simp: advances_def failure_def)

lemma peek_in [simp]: "sentinel toks \<Longrightarrow> peek toks pos \<in> set toks"
  by (simp add: sentinel_def peek_def)

lemma advances_bind:
  assumes "advances k toks pos r"
    and "\<And>a pos'. r = Inr (a, pos') \<Longrightarrow> pos + k \<le> pos' \<Longrightarrow> (0 < k \<longrightarrow> pos < length toks) \<Longrightarrow>
           advances j toks pos (f a pos')"
  shows "advances j toks pos (bind_result r (\<lambda>(a, pos'). f a pos'))"
proof (cases r)
  case (Inl e)
  with assms(1) show ?thesis by (simp add: advances_def)
next
  case (Inr p)
  with assms show ?thesis by (cases p) (simp add: advances_def)
qed

lemma advances_mono: "advances k toks pos r \<Longrightarrow> j \<le> k \<Longrightarrow> advances j toks pos r"
  by (fastforce simp: advances_def)

lemma advances_from:
  "advances k toks pos' r \<Longrightarrow> pos + d \<le> pos' \<Longrightarrow> pos < length toks \<Longrightarrow> advances (k + d) toks pos r"
  by (fastforce simp: advances_def)

lemma parseValue_advances: "sentinel toks \<Longrightarrow> advances 1 toks pos (parseValue toks pos)"
  using peek_within [of toks pos]
  by (auto simp: parseValue_def Let_def split: TokenKind.splits)

lemma list_loop_advances:
  "sentinel toks \<Longrightarrow> length toks - pos < n \<Longrightarrow> advances 1 toks pos (list_loop n toks vs pos)"
proof (induction n arbitrary: vs pos)
  case (Suc n)
  have loop: "advances (Suc 0) toks pos (list_loop n toks (vs @ [v]) (Suc pos'))"
    if "Suc pos \<le> pos'" "pos < length toks" for v pos'
  proof -
    have "advances (1 + 2) toks pos (list_loop n toks (vs @ [v]) (pos' + 1))"
      using Suc.IH [of "pos' + 1" "vs @ [v]"] Suc.prems that
      by (intro advances_from [where pos' = "pos' + 1"]) auto
    then show ?thesis by (auto elim: advances_mono)
  qed
  show ?case
    using peek_within [of toks pos] Suc.prems parseValue_advances [of toks pos]
    by (auto simp: Let_def intro!: advances_bind [where k = 1] loop)
qed simp

lemma parseList_advances:
  assumes "sentinel toks" "length toks - pos < n"
  shows "advances 1 toks pos (parseList n toks pos)"
proof (cases "tok_kind (peek toks pos) = KLparen")
  case True
  then have "pos < length toks" using assms(1) peek_within [of toks pos] by simp
  then have "advances (1 + 1) toks pos (list_loop n toks [] (pos + 1))"
    using assms by (intro advances_from [where pos' = "pos + 1"] list_loop_advances) auto
  with True show ?thesis by (auto simp: parseList_def elim: advances_mono)
qed (use assms(1) in \<open>simp add: parseList_def Let_def\<close>)

lemma compare_advances:
  "advances k toks pos r \<Longrightarrow> advances k toks pos (compare_value field oper r)"
  "advances k toks pos s \<Longrightarrow> advances k toks pos (compare_list field oper s)"
  unfolding compare_value_def compare_list_def by (auto intro!: advances_bind)

lemma parse_is_advances:
  "sentinel toks \<Longrightarrow> advances 1 toks pos (parse_is field toks pos)"
  using peek_within [of toks pos] peek_within [of toks "pos + 1"]
  by (auto simp: parse_is_def is_keyword_def Let_def)

lemma parseComparison_advances:
  assumes wf: "sentinel toks" and fuel: "length toks - pos \<le> n"
  shows "advances 1 toks pos (parseComparison n field toks pos)"
proof (cases "tok_kind (peek toks pos) = KEof")
  case True
  then show ?thesis using wf by (simp add: parseComparison_def Let_def)
next
  case False
  then have pos: "pos < length toks" using wf peek_within by blast
  have up: "advances 1 toks pos r" if "advances 1 toks (pos + Suc d) r" for r :: "'a parsed" and d
    using that pos by (fastforce simp: advances_def)
  have v: "advances 1 toks pos (compare_value field oper (parseValue toks (pos + 1)))" for oper
    using up [of 0] parseValue_advances [OF wf, of "pos + 1"] by (intro compare_advances) simp
  have l: "advances 1 toks pos (compare_list field oper (parseList n toks (pos + Suc d)))" for oper d
    using parseList_advances [OF wf, of "pos + Suc d" n] fuel pos
    by (intro compare_advances) (fastforce simp: advances_def)
  have i: "advances 1 toks pos (parse_is field toks (pos + 1))"
    using parse_is_advances [OF wf, of "pos + 1" field] pos by (fastforce simp: advances_def)
  show ?thesis
    using v l [of _ 0] l [of _ 1] i wf
    unfolding parseComparison_def Let_def by (auto split: option.split)
qed

lemma parseAtom_advances:
  assumes wf: "sentinel toks" and fuel: "length toks - pos \<le> n"
  shows "advances 1 toks pos (parseAtom n toks pos)"
proof (cases "tok_kind (peek toks pos) = KEof")
  case True
  then show ?thesis using wf by (simp add: parseAtom_def Let_def)
next
  case False
  then have pos: "pos < length toks" using wf peek_within by blast
  have "advances (1 + 1) toks pos (parseComparison n f toks (pos + 1))" for f
    using parseComparison_advances [OF wf, of "pos + 1" n f] fuel pos
    by (intro advances_from [where pos' = "pos + 1"]) auto
  then have c: "advances 1 toks pos (parseComparison n f toks (pos + 1))" for f
    by (rule advances_mono) simp
  have "advances 1 toks pos (freeText (peek toks pos) pos)"
    using pos wf by (simp add: freeText_def Let_def split: TokenKind.split)
  with c wf show ?thesis by (auto simp: parseAtom_def Let_def)
qed

lemma close_group_advances:
  "sentinel toks \<Longrightarrow> pos + k \<le> pos' \<Longrightarrow> pos < length toks \<Longrightarrow> advances k toks pos (close_group toks inner pos')"
  by (simp add: close_group_def Let_def)

fun fuel_need :: "place \<Rightarrow> nat \<Rightarrow> nat" where
  "fuel_need At_Term r = 3 * r + 1"
| "fuel_need At_And r = 3 * r + 2"
| "fuel_need (At_And_Loop _) r = 3 * r + 2"
| "fuel_need At_Or r = 3 * r + 3"
| "fuel_need (At_Or_Loop _) r = 3 * r + 3"

fun moves :: "place \<Rightarrow> nat" where
  "moves (At_And_Loop _) = 0" | "moves (At_Or_Loop _) = 0" | "moves _ = 1"

lemma parse_at_advances:
  "sentinel toks \<Longrightarrow> fuel_need place (length toks - pos) \<le> n \<Longrightarrow>
   advances (moves place) toks pos (parse_at n place toks pos)"
proof (induction n arbitrary: place pos)
  case 0
  then show ?case by (cases place) simp_all
next
  case (Suc n)
  note wf = \<open>sentinel toks\<close>
  have trm: "advances (Suc 0) toks q (parse_at n At_Term toks q)" if "3 * (length toks - q) + 1 \<le> n" for q
    using Suc.IH [of At_Term q] that wf by simp
  have conj: "advances (Suc 0) toks q (parse_at n At_And toks q)" if "3 * (length toks - q) + 2 \<le> n" for q
    using Suc.IH [of At_And q] that wf by simp
  have disj: "advances (Suc 0) toks q (parse_at n At_Or toks q)" if "3 * (length toks - q) + 3 \<le> n" for q
    using Suc.IH [of At_Or q] that wf by simp
  have aloop: "advances k toks pos (parse_at n (At_And_Loop ts) toks q)"
    if "3 * (length toks - q) + 2 \<le> n" "pos + k \<le> q" "pos < length toks" for k q ts
    using Suc.IH [of "At_And_Loop ts" q] that wf by (fastforce simp: advances_def)
  have oloop: "advances k toks pos (parse_at n (At_Or_Loop ts) toks q)"
    if "3 * (length toks - q) + 3 \<le> n" "pos + k \<le> q" "pos < length toks" for k q ts
    using Suc.IH [of "At_Or_Loop ts" q] that wf by (fastforce simp: advances_def)
  have kw: "pos < length toks" if "is_keyword (peek toks pos) k" for k
    using that wf peek_within by (auto simp: is_keyword_def)
  have step: "advances (Suc 0) toks pos r" if "advances (Suc 0) toks (Suc pos) r" "pos < length toks" for r
    using that by (fastforce simp: advances_def)
  show ?case
  proof (cases place)
    case At_Or
    with Suc.prems show ?thesis
      by (auto intro!: advances_bind [where k = "Suc 0"] conj oloop)
  next
    case (At_Or_Loop parts)
    with Suc.prems kw [of K_OR] show ?thesis
      by (auto intro!: advances_bind [where k = "Suc 0"] step conj oloop)
  next
    case At_And
    with Suc.prems show ?thesis
      by (auto intro!: advances_bind [where k = "Suc 0"] trm aloop)
  next
    case (At_And_Loop terms)
    with Suc.prems kw [of K_AND] show ?thesis
      by (auto intro!: advances_bind [where k = "Suc 0"] step trm aloop)
  next
    case At_Term
    have lp: "pos < length toks" if "tok_kind (peek toks pos) = KLparen"
      using that wf peek_within by fastforce
    with Suc.prems kw [of K_NOT] At_Term parseAtom_advances [OF wf, of pos n] show ?thesis
      by (auto simp: Let_def
          intro!: advances_bind [where k = "Suc 0"] step trm disj close_group_advances)
  qed
qed

section \<open>Token positions\<close>

lemma at_head_drop: "at_head P (drop j s) \<Longrightarrow> j < length s"
  by (auto simp: at_head_def split: list.splits) (metis drop_eq_Nil list.distinct(1) not_le)

lemma takeWhile_drop_le: "j \<le> length s \<Longrightarrow> j + length (takeWhile P (drop j s)) \<le> length s"
  using length_takeWhile_le [of P "drop j s"] by simp

lemma scan_string_length: "scan_string q s = Inr (d, k) \<Longrightarrow> 0 < k \<and> k \<le> length s"
proof (induction "length s" arbitrary: s d k rule: less_induct)
  case less
  show ?case
  proof (cases s)
    case (Cons c r)
    show ?thesis
    proof (cases "c = CHR 0x5C")
      case True
      with less.prems Cons obtain nx rest d' k' where "r = nx # rest"
        and "scan_string q rest = Inr (d', k')" "k = k' + 2"
        by (auto simp: Let_def split: list.splits sum.splits)
      then show ?thesis using less.hyps [of rest d' k'] Cons by simp
    next
      case False
      then show ?thesis
        using less.prems less.hyps [of r] Cons
        by (auto split: if_splits sum.splits)
    qed
  qed (use less.prems in simp)
qed

text \<open>
  \<open>covers\<close>: one round consumes at most what is left, pushes at most one token, which begins where
  the round began and is the source text it says it is, and reports errors inside what it consumed.
\<close>

definition covers :: "nat \<Rightarrow> string \<Rightarrow> Token list \<times> LexError list \<times> nat \<Rightarrow> bool" where
  "covers start s r \<longleftrightarrow>
     (case r of (ts, es, n) \<Rightarrow> n \<le> length s \<and>
        (ts = [] \<or> (\<exists>kind v k m. ts = [push kind start (take m s) v k] \<and> m \<le> n \<and> kind \<noteq> KEof)) \<and>
        (\<forall>e \<in> set es. lex_offset e = start \<and> lex_length e \<le> n))"

lemma covers_push:
  "\<lbrakk>kind \<noteq> KEof; text = take m s; m \<le> n; n \<le> length s; \<forall>e \<in> set es. lex_offset e = start \<and> lex_length e \<le> n\<rbrakk>
   \<Longrightarrow> covers start s ([push kind start text v k], es, n)"
  unfolding covers_def by auto

lemma scanNumber_covers: "covers start s (scanNumber start s)"
proof -
  define sign :: nat where "sign = (if at_head (\<lambda>c. c = CHR ''+'' \<or> c = CHR ''-'') s then 1 else 0)"
  define j1 where "j1 = sign + length (takeWhile is_digit (drop sign s))"
  define dec where "dec = (at_head (\<lambda>c. c = CHR ''.'') (drop j1 s) \<and> at_head is_digit (drop (j1 + 1) s))"
  define j where "j = (if dec then j1 + 1 + length (takeWhile is_digit (drop (j1 + 1) s)) else j1)"
  have "sign \<le> length s" by (auto simp: sign_def at_head_def split: list.splits)
  then have "j1 \<le> length s" unfolding j1_def by (rule takeWhile_drop_le)
  then have j: "j \<le> length s"
    unfolding j_def using at_head_drop [of is_digit "j1 + 1" s] takeWhile_drop_le [of "j1 + 1" s is_digit]
    by (auto simp: dec_def)
  have month: "j + 2 \<le> length s" if "at_head P (drop (j + 1) s)" for P
    using at_head_drop [OF that] by simp
  have unit: "j + 1 \<le> length s" if "at_head P (drop j s)" for P
    using at_head_drop [OF that] by simp
  show ?thesis
    unfolding scanNumber_def Let_def sign_def [symmetric] j1_def [symmetric] dec_def [symmetric]
      j_def [symmetric]
    using j month unit by (auto simp: lex_error_def intro!: covers_push)
qed

lemma takeWhile_take: "take (length (takeWhile P s)) s = takeWhile P s"
  by (metis takeWhile_eq_take)

lemma lex_string_covers: "covers start (ch # s) (lex_string start ch s)"
proof (cases "scan_string ch s")
  case (Inl d)
  then show ?thesis unfolding lex_string_def
    by (simp, intro covers_push [where m = "Suc (length s)"]) (simp_all add: lex_error_def)
next
  case (Inr p)
  then obtain d k where p: "p = (d, k)" "k \<le> length s" using scan_string_length by (cases p) blast
  with Inr show ?thesis unfolding lex_string_def
    by (simp, intro covers_push [where m = "Suc k"]) simp_all
qed

lemma lex_word_covers: "covers start (ch # s) (lex_word start ch s)"
  unfolding lex_word_def Let_def
  by (rule covers_push [where m = "Suc (length (takeWhile ident_cont s))"])
    (simp_all add: takeWhile_take length_takeWhile_le)

lemma bad_covers: "covers start (ch # s) (bad start ch m)"
  unfolding bad_def by (rule covers_push [where m = 1]) (simp_all add: lex_error_def)

lemma lex_at_covers: "covers start (CHR ''@'' # s) (lex_at start s)"
proof (cases "at_head ident_start s")
  case True
  then obtain c r where "s = c # r" by (cases s) (auto simp: at_head_def)
  with True show ?thesis
    unfolding lex_at_def Let_def
    by (auto simp: takeWhile_take length_takeWhile_le
        intro!: covers_push [where m = "Suc (Suc (length (takeWhile ident_cont r)))"])
qed (simp add: lex_at_def bad_covers)

lemma single_covers:
  assumes "take (length text) s = text" and "kind \<noteq> KEof"
  shows "covers start s (single kind start text)"
proof -
  have "length text \<le> length s" using arg_cong [OF assms(1), of length] by simp
  with assms show ?thesis unfolding single_def
    by (intro covers_push [where m = "length text"]) simp_all
qed

lemma covers_if:
  "(P \<Longrightarrow> covers start s a) \<Longrightarrow> (\<not> P \<Longrightarrow> covers start s b) \<Longrightarrow> covers start s (if P then a else b)"
  by simp

lemma covers_space: "covers start (ch # s) ([], [], 1)"
  by (simp add: covers_def)

lemma two_char:
  "at_head (\<lambda>c. c = d) s \<Longrightarrow> ch = c \<Longrightarrow> take (length [c, d]) (ch # s) = [c, d]"
  by (cases s) (simp_all add: at_head_def)

lemma one_char: "ch = c \<Longrightarrow> take (length [c]) (ch # s) = [c]"
  by simp

lemma lex_step_covers: "covers start (ch # s) (lex_step start ch s)"
  unfolding lex_step_def
  by (intro covers_if; (rule covers_space scanNumber_covers lex_string_covers lex_word_covers
        bad_covers | (rule single_covers, erule (1) two_char, simp) | (rule single_covers, erule one_char, simp)
        | (simp, rule lex_at_covers)))

text \<open>
  \<open>slice_of base s t\<close>: token \<open>t\<close> lies in the source \<open>s\<close> that begins at offset \<open>base\<close> and carries the
  characters there.
\<close>

definition slice_of :: "nat \<Rightarrow> string \<Rightarrow> Token \<Rightarrow> bool" where
  "slice_of base s t \<longleftrightarrow> base \<le> tok_offset t \<and> tok_offset t + tok_length t \<le> base + length s \<and>
     tok_text t = take (tok_length t) (drop (tok_offset t - base) s)"

definition error_in :: "nat \<Rightarrow> string \<Rightarrow> LexError \<Rightarrow> bool" where
  "error_in base s e \<longleftrightarrow> base \<le> lex_offset e \<and> lex_offset e + lex_length e \<le> base + length s"

abbreviation before :: "Token \<Rightarrow> Token \<Rightarrow> bool" where
  "before t u \<equiv> tok_offset t + tok_length t \<le> tok_offset u"

lemma slice_of_drop:
  "n \<le> length s \<Longrightarrow> slice_of (base + n) (drop n s) t \<Longrightarrow> slice_of base s t"
  by (auto simp: slice_of_def)

lemma lex_loop_positions:
  "lex_loop start s = (ts, es) \<Longrightarrow>
   (\<forall>t \<in> set ts. slice_of start s t) \<and> sorted_wrt before ts \<and> (\<forall>e \<in> set es. error_in start s e) \<and>
   sentinel ts \<and> (\<forall>t \<in> set (butlast ts). tok_kind t \<noteq> KEof)"
proof (induction start s arbitrary: ts es rule: lex_loop.induct)
  case (1 start)
  then show ?case by (auto simp: slice_of_def sentinel_def push_def)
next
  case (2 start ch s)
  obtain ts1 es1 n where step: "lex_step start ch s = (ts1, es1, n)"
    by (cases "lex_step start ch s") auto
  obtain ts2 es2 where rest: "lex_loop (start + n) (drop n (ch # s)) = (ts2, es2)"
    by (cases "lex_loop (start + n) (drop n (ch # s))") auto
  have ts: "ts = ts1 @ ts2" "es = es1 @ es2" using 2(2) step rest by simp_all
  note IH = 2(1) [OF step [symmetric] refl rest]
  have n: "n \<le> length (ch # s)"
    and ts1: "ts1 = [] \<or> (\<exists>kind v k m. ts1 = [push kind start (take m (ch # s)) v k] \<and> m \<le> n \<and> kind \<noteq> KEof)"
    and es1: "\<forall>e \<in> set es1. lex_offset e = start \<and> lex_length e \<le> n"
    using lex_step_covers [of start ch s] step by (auto simp: covers_def)
  have one: "slice_of start (ch # s) t \<and> tok_offset t + tok_length t \<le> start + n"
    if "t \<in> set ts1" for t
    using that ts1 n by (auto simp: slice_of_def push_def min_def)
  have later: "start + n \<le> tok_offset t" if "t \<in> set ts2" for t
    using IH that by (auto simp: slice_of_def)
  have "sorted_wrt before ts"
    using ts1 IH one later unfolding ts by (fastforce simp: sorted_wrt_append)
  moreover have "\<forall>t \<in> set ts. slice_of start (ch # s) t"
    using one IH slice_of_drop [OF n] unfolding ts by auto
  moreover have "\<forall>e \<in> set es. error_in start (ch # s) e"
    using es1 IH n unfolding ts by (fastforce simp: error_in_def)
  moreover have "sentinel ts" using IH unfolding ts sentinel_def by simp
  moreover have "\<forall>t \<in> set (butlast ts). tok_kind t \<noteq> KEof"
    using IH ts1 unfolding ts sentinel_def by (auto simp: butlast_append push_def)
  ultimately show ?case by blast
qed

end
