(* ===== verification/Tql_Roundtrip.thy ===== *)
theory Tql_Roundtrip
  imports Tql_Positions
begin

text \<open>
  The round trip of TQL text: what the formatter prints lexes into the expected tokens, and the
  parser rebuilds the tree from them.
\<close>

section \<open>Lexing what the formatter prints\<close>

text \<open>A token without its position.\<close>

type_synonym core = "TokenKind \<times> string \<times> token_value option \<times> Keyword option"

definition core :: "Token \<Rightarrow> core" where
  "core t = (tok_kind t, tok_text t, tok_value t, tok_keyword t)"

lemma core_push [simp]: "core (push kind start text v k) = (kind, text, v, k)"
  by (simp add: core_def push_def)

definition stop :: "string \<Rightarrow> bool" where
  "stop rest \<longleftrightarrow> rest = [] \<or> hd rest \<in> {CHR '' '', CHR '')'', CHR '',''}"

definition lexes :: "string \<Rightarrow> core list \<Rightarrow> bool" where
  "lexes s cs \<longleftrightarrow> (\<forall>start rest. stop rest \<longrightarrow>
     (\<exists>ts. lex_loop start (s @ rest) =
        (ts @ fst (lex_loop (start + length s) rest), snd (lex_loop (start + length s) rest)) \<and>
        map core ts = cs))"

lemma lexesI:
  assumes "\<And>start rest. stop rest \<Longrightarrow> \<exists>t. lex_step start c (s @ rest) = ([t], [], Suc (length s)) \<and> core t = k"
  shows "lexes (c # s) [k]"
  unfolding lexes_def
proof (intro allI impI)
  fix start rest assume "stop rest"
  then obtain t where "lex_step start c (s @ rest) = ([t], [], Suc (length s))" "core t = k"
    using assms by blast
  then show "\<exists>ts. lex_loop start ((c # s) @ rest) =
      (ts @ fst (lex_loop (start + length (c # s)) rest), snd (lex_loop (start + length (c # s)) rest)) \<and>
      map core ts = [k]"
    by (intro exI [of _ "[t]"]) (simp split: prod.split)
qed

lemma lex_space: "lex_loop start (CHR '' '' # s) = lex_loop (Suc start) s"
  by (simp add: lex_step_def is_space_def split: prod.split)

lemma lexes_append:
  assumes "lexes s cs" "lexes t ds" "\<And>rest. stop (t @ rest)"
  shows "lexes (s @ t) (cs @ ds)"
  unfolding lexes_def
proof (intro allI impI)
  fix start rest assume stop: "stop rest"
  obtain ts where ts: "lex_loop start (s @ (t @ rest)) =
      (ts @ fst (lex_loop (start + length s) (t @ rest)), snd (lex_loop (start + length s) (t @ rest)))"
    "map core ts = cs"
    using assms(1,3) unfolding lexes_def by blast
  obtain us where us: "lex_loop (start + length s) (t @ rest) =
      (us @ fst (lex_loop (start + length s + length t) rest),
       snd (lex_loop (start + length s + length t) rest))" "map core us = ds"
    using assms(2) stop unfolding lexes_def by blast
  show "\<exists>vs. lex_loop start ((s @ t) @ rest) =
      (vs @ fst (lex_loop (start + length (s @ t)) rest), snd (lex_loop (start + length (s @ t)) rest)) \<and>
      map core vs = cs @ ds"
    using ts us by (intro exI [of _ "ts @ us"]) (simp add: add.assoc)
qed

lemma lexes_space:
  assumes "lexes s cs"
  shows "lexes (CHR '' '' # s) cs"
  unfolding lexes_def
proof (intro allI impI)
  fix start rest assume "stop rest"
  then show "\<exists>ts. lex_loop start ((CHR '' '' # s) @ rest) =
      (ts @ fst (lex_loop (start + length (CHR '' '' # s)) rest),
       snd (lex_loop (start + length (CHR '' '' # s)) rest)) \<and> map core ts = cs"
    using assms [unfolded lexes_def, rule_format, of rest "Suc start"]
    by (simp add: lex_space del: lex_loop.simps)
qed

lemma lexes_spaced: "lexes s cs \<Longrightarrow> lexes t ds \<Longrightarrow> lexes (s @ CHR '' '' # t) (cs @ ds)"
  using lexes_append [of s cs "CHR '' '' # t" ds] lexes_space by (simp add: stop_def)

abbreviation lparen :: core where "lparen \<equiv> (KLparen, ''('', None, None)"
abbreviation rparen :: core where "rparen \<equiv> (KRparen, '')'', None, None)"
abbreviation comma :: core where "comma \<equiv> (KComma, '','', None, None)"

lemma lexes_rparen: "lexes '')'' [rparen]"
  by (rule lexesI) (simp add: lex_step_def is_space_def single_def)

lemma lexes_comma: "lexes '','' [comma]"
  by (rule lexesI) (simp add: lex_step_def is_space_def single_def)

lemma lexes_open: "lexes s cs \<Longrightarrow> lexes (CHR ''('' # s) (lparen # cs)"
  unfolding lexes_def
proof (intro allI impI)
  fix start rest
  assume s: "\<forall>start rest. stop rest \<longrightarrow>
     (\<exists>ts. lex_loop start (s @ rest) =
        (ts @ fst (lex_loop (start + length s) rest), snd (lex_loop (start + length s) rest)) \<and>
        map core ts = cs)" and "stop rest"
  then obtain ts where "lex_loop (start + 1) (s @ rest) =
      (ts @ fst (lex_loop (start + 1 + length s) rest), snd (lex_loop (start + 1 + length s) rest))"
    "map core ts = cs" by blast
  then show "\<exists>ts. lex_loop start ((CHR ''('' # s) @ rest) =
      (ts @ fst (lex_loop (start + length (CHR ''('' # s)) rest),
       snd (lex_loop (start + length (CHR ''('' # s)) rest)) \<and> map core ts = lparen # cs"
    by (intro exI [of _ "push KLparen start ''('' None None # ts"])
      (simp add: lex_step_def is_space_def single_def)
qed

lemma lexes_close: "lexes s cs \<Longrightarrow> lexes (s @ '')'') (cs @ [rparen])"
  by (rule lexes_append [OF _ lexes_rparen]) (simp_all add: stop_def)

lemma lexes_listed: "lexes s cs \<Longrightarrow> lexes t ds \<Longrightarrow> lexes (s @ '', '' @ t) (cs @ comma # ds)"
  using lexes_append [of "s @ '',''" "cs @ [comma]" "CHR '' '' # t" ds]
    lexes_append [of s cs "'',''" "[comma]"] lexes_comma lexes_space [of t ds]
  by (simp add: stop_def)

section \<open>Words\<close>

definition word :: "string \<Rightarrow> bool" where
  "word w \<longleftrightarrow> at_head ident_start w \<and> list_all ident_cont (tl w)"

lemma stop_no_cont: "stop rest \<Longrightarrow> takeWhile ident_cont rest = []"
  by (cases rest) (auto simp: stop_def ident_cont_def ident_start_def is_digit_def)

lemma takeWhile_word: "list_all ident_cont w \<Longrightarrow> stop rest \<Longrightarrow> takeWhile ident_cont (w @ rest) = w"
  by (induction w) (simp_all add: stop_no_cont)

lemma ident_start_others:
  "list_all (\<lambda>c. \<not> ident_start c)
     [CHR 0x09, CHR 0x0A, CHR 0x0B, CHR 0x0C, CHR 0x0D, CHR '' '', CHR 0xA0, CHR ''='', CHR ''!'',
      CHR ''<'', CHR ''>'', CHR ''('', CHR '')'', CHR '','', CHR '':'', CHR ''+'', CHR ''-'',
      CHR 0x22, CHR 0x27, CHR ''@'']"
  by code_simp

lemma ident_start_not_digit: "ident_start c \<Longrightarrow> \<not> is_digit c"
  using order_trans [of "CHR ''A''" c "CHR ''9''"] order_trans [of "CHR ''a''" c "CHR ''9''"]
  by (auto simp: ident_start_def is_digit_def)

lemma ident_start_step: "ident_start c \<Longrightarrow> lex_step start c s = lex_word start c s"
proof -
  assume c: "ident_start c"
  then have "c \<notin> set [CHR 0x09, CHR 0x0A, CHR 0x0B, CHR 0x0C, CHR 0x0D, CHR '' '', CHR 0xA0,
      CHR ''='', CHR ''!'', CHR ''<'', CHR ''>'', CHR ''('', CHR '')'', CHR '','', CHR '':'',
      CHR ''+'', CHR ''-'', CHR 0x22, CHR 0x27, CHR ''@'']"
    using ident_start_others unfolding list_all_iff by blast
  then show ?thesis
    using c ident_start_not_digit [OF c] by (simp add: lex_step_def is_space_def)
qed

lemma lexes_word:
  assumes "word w"
  shows "lexes w [(if map_of KEYWORDS (to_upper w) = None then KIdent else KKeyword, w, None,
                   map_of KEYWORDS (to_upper w))]"
proof -
  obtain c r where w: "w = c # r" "ident_start c" "list_all ident_cont r"
    using assms by (cases w) (auto simp: word_def at_head_def)
  show ?thesis unfolding w(1)
  proof (rule lexesI)
    fix start rest assume "stop rest"
    then show "\<exists>t. lex_step start c (r @ rest) = ([t], [], Suc (length r)) \<and>
       core t = (if map_of KEYWORDS (to_upper (c # r)) = None then KIdent else KKeyword, c # r, None,
                 map_of KEYWORDS (to_upper (c # r)))"
      using w(2,3) by (simp add: ident_start_step lex_word_def takeWhile_word Let_def)
  qed
qed

definition plain_word :: "string \<Rightarrow> bool" where
  "plain_word w \<longleftrightarrow> word w \<and> map_of KEYWORDS (to_upper w) = None"

lemma lexes_plain: "plain_word w \<Longrightarrow> lexes w [(KIdent, w, None, None)]"
  using lexes_word [of w] by (simp add: plain_word_def)

lemma plain_booleans: "plain_word ''true''" "plain_word ''false''"
  by code_simp+

abbreviation kw :: "Keyword \<Rightarrow> string \<Rightarrow> core" where "kw k w \<equiv> (KKeyword, w, None, Some k)"

definition printed_keywords :: "(string \<times> Keyword) list" where
  "printed_keywords =
     [(''AND'', K_AND), (''OR'', K_OR), (''NOT'', K_NOT), (''IN'', K_IN), (''IS'', K_IS),
      (''EMPTY'', K_EMPTY), (''CONTAINS'', K_CONTAINS), (''null'', K_NULL)]"

lemma printed_keywords_ok:
  "list_all (\<lambda>(w, k). word w \<and> map_of KEYWORDS (to_upper w) = Some k) printed_keywords"
  by code_simp

lemma lexes_keyword: "(w, k) \<in> set printed_keywords \<Longrightarrow> lexes w [kw k w]"
  using printed_keywords_ok lexes_word [of w] unfolding list_all_iff by fastforce

lemma lexes_keywords:
  "lexes ''AND'' [kw K_AND ''AND'']" "lexes ''OR'' [kw K_OR ''OR'']"
  "lexes ''NOT'' [kw K_NOT ''NOT'']" "lexes ''IN'' [kw K_IN ''IN'']"
  "lexes ''IS'' [kw K_IS ''IS'']" "lexes ''EMPTY'' [kw K_EMPTY ''EMPTY'']"
  "lexes ''CONTAINS'' [kw K_CONTAINS ''CONTAINS'']" "lexes ''null'' [kw K_NULL ''null'']"
  by (rule lexes_keyword, simp add: printed_keywords_def)+

abbreviation op_core :: "string \<Rightarrow> core" where "op_core w \<equiv> (KOp, w, None, None)"

lemma stop_not_op: "stop rest \<Longrightarrow> \<not> at_head (\<lambda>c. c = CHR ''='') rest \<and> \<not> at_head (\<lambda>c. c = CHR ''>'') rest"
  by (cases rest) (auto simp: stop_def at_head_def)

lemma lex_step_ops:
  "lex_step start (CHR ''='') s = single KOp start ''=''"
  "at_head (\<lambda>c. c = CHR ''='') s \<Longrightarrow> lex_step start (CHR ''!'') s = single KOp start ''!=''"
  "at_head (\<lambda>c. c = CHR ''='') s \<Longrightarrow> lex_step start (CHR ''<'') s = single KOp start ''<=''"
  "at_head (\<lambda>c. c = CHR ''='') s \<Longrightarrow> lex_step start (CHR ''>'') s = single KOp start ''>=''"
  "stop s \<Longrightarrow> lex_step start (CHR ''<'') s = single KOp start ''<''"
  "stop s \<Longrightarrow> lex_step start (CHR ''>'') s = single KOp start ''>''"
       apply (simp add: lex_step_def is_space_def)
      apply (simp add: lex_step_def is_space_def)
     apply (simp add: lex_step_def is_space_def)
    apply (simp add: lex_step_def is_space_def)
   apply (drule stop_not_op, simp add: lex_step_def is_space_def)
  apply (drule stop_not_op, simp add: lex_step_def is_space_def)
  done

lemma lexes_ops:
  "lexes ''='' [op_core ''='']" "lexes ''!='' [op_core ''!='']" "lexes ''<'' [op_core ''<'']"
  "lexes ''<='' [op_core ''<='']" "lexes ''>'' [op_core ''>'']" "lexes ''>='' [op_core ''>='']"
       apply (rule lexesI, simp add: lex_step_ops single_def)
      apply (rule lexesI, simp add: lex_step_ops single_def at_head_def)
     apply (rule lexesI, simp add: lex_step_ops single_def)
    apply (rule lexesI, simp add: lex_step_ops single_def at_head_def)
   apply (rule lexesI, simp add: lex_step_ops single_def)
  apply (rule lexesI, simp add: lex_step_ops single_def at_head_def)
  done

section \<open>Values\<close>

lemma scan_quoted:
  "scan_string (CHR 0x22) (concat (map quote_char v) @ CHR 0x22 # rest) =
     Inr (v, Suc (length (concat (map quote_char v))))"
  by (induction v) (simp_all add: quote_char_def)

lemma lexes_quote: "lexes (quote v) [(KString, quote v, Some (VStr v), None)]"
  unfolding quote_def quoted_def
proof (rule lexesI)
  fix start and rest :: string
  let ?q = "concat (map quote_char v)"
  show "\<exists>t. lex_step start (CHR 0x22) ((?q @ [CHR 0x22]) @ rest) = ([t], [], Suc (length (?q @ [CHR 0x22]))) \<and>
     core t = (KString, CHR 0x22 # ?q @ [CHR 0x22], Some (VStr v), None)"
    using scan_quoted [of v rest]
    by (simp add: lex_step_def is_space_def is_digit_def lex_string_def)
qed

lemma lexes_at_me: "lexes ''@me'' [(KAt, ''@me'', Some (VStr ''me''), None)]"
proof (rule lexesI)
  fix start rest assume stop: "stop rest"
  have me: "takeWhile ident_cont (CHR ''e'' # rest) = ''e''"
    using takeWhile_word [of "''e''" rest] stop by (simp add: ident_cont_def ident_start_def)
  have m: "at_head ident_start (''me'' @ rest)"
    by (simp add: at_head_def ident_start_def)
  show "\<exists>t. lex_step start (CHR ''@'') (''me'' @ rest) = ([t], [], Suc (length ''me'')) \<and>
     core t = (KAt, ''@me'', Some (VStr ''me''), None)"
    using m me by (simp add: lex_step_def is_space_def is_digit_def lex_at_def Let_def)
qed

section \<open>Numbers\<close>

lemma digits_val_append: "digits_val (a @ b) = digits_val a * 10 ^ length b + digits_val b"
proof (induction b rule: rev_induct)
  case (snoc c b)
  then show ?case by (simp add: digits_val_def algebra_simps flip: append_assoc)
qed (simp add: digits_val_def)

lemma digits_val_zeros: "digits_val (replicate n (CHR ''0'')) = 0"
  by (induction n) (simp_all add: digits_val_def digit_val_def)

definition digit_char :: "nat \<Rightarrow> char" where
  "digit_char d = char_of (48 + d)"

lemma digit_chars: "list_all (\<lambda>d. is_digit (digit_char d) \<and> digit_val (digit_char d) = int d) [0..<10]"
  by code_simp

lemma digit_char_ok: "d < 10 \<Longrightarrow> is_digit (digit_char d) \<and> digit_val (digit_char d) = int d"
  using digit_chars by (simp add: list_all_iff del: upt_Suc)

lemma decimal_of_nat_digits:
  "list_all is_digit (decimal_of_nat n) \<and> decimal_of_nat n \<noteq> [] \<and> digits_val (decimal_of_nat n) = int n"
proof (induction n rule: decimal_of_nat.induct)
  case (1 n)
  show ?case
  proof (cases "n < 10")
    case True
    then have "decimal_of_nat n = [digit_char n]"
      by (subst decimal_of_nat.simps) (simp add: digit_char_def)
    then show ?thesis using digit_char_ok [OF True] by (simp add: digits_val_def)
  next
    case False
    have "digits_val [digit_char (n mod 10)] = int (n mod 10)"
      using digit_char_ok [of "n mod 10"] by (simp add: digits_val_def)
    moreover have "decimal_of_nat n = decimal_of_nat (n div 10) @ [digit_char (n mod 10)]"
      using False by (subst decimal_of_nat.simps) (simp add: digit_char_def)
    moreover have "int (n div 10) * 10 + int (n mod 10) = int n"
      by (metis div_mult_mod_eq of_nat_add of_nat_mult of_nat_numeral)
    ultimately show ?thesis
      using 1 [OF False] digit_char_ok [of "n mod 10"] by (simp add: digits_val_append)
  qed
qed

definition number_sign :: "int \<Rightarrow> string" where
  "number_sign m = (if m < 0 then ''-'' else [])"

text \<open>A printed number in positional notation: sign, whole digits and perhaps a fraction.\<close>

definition positional :: "string \<Rightarrow> string \<Rightarrow> string \<Rightarrow> string \<Rightarrow> bool" where
  "positional text sign whole frac \<longleftrightarrow>
     text = sign @ whole @ (if frac = [] then [] else CHR ''.'' # frac) \<and> sign \<in> {[], ''-''} \<and>
     whole \<noteq> [] \<and> list_all is_digit whole \<and> list_all is_digit frac"

lemma takeWhile_digits:
  "list_all is_digit ds \<Longrightarrow> \<not> at_head is_digit r \<Longrightarrow> takeWhile is_digit (ds @ r) = ds \<and> dropWhile is_digit (ds @ r) = r"
  by (induction ds) (auto simp: at_head_def split: list.splits)

lemma not_digit: "\<not> is_digit CHR ''.''" "\<not> is_digit CHR ''-''" "\<not> is_digit CHR ''+''"
  by (simp_all add: is_digit_def)

lemma digit_not_sign: "is_digit c \<Longrightarrow> c \<noteq> CHR ''-'' \<and> c \<noteq> CHR ''+''"
  using not_digit by auto

lemma number_of_text_positional:
  assumes "positional text sign whole frac"
  shows "number_of_text text =
     normalise ((if sign = [] then 1 else -1) * digits_val (whole @ frac)) (- int (length frac))"
proof -
  obtain w ws where whole: "whole = w # ws" using assms by (cases whole) (auto simp: positional_def)
  have w: "w \<noteq> CHR ''-''" "w \<noteq> CHR ''+''"
    using assms digit_not_sign by (auto simp: positional_def whole)
  let ?r = "if frac = [] then [] else CHR ''.'' # frac"
  have "\<not> at_head is_digit ?r" by (simp add: at_head_def not_digit)
  then have tw: "takeWhile is_digit (whole @ ?r) = whole" "dropWhile is_digit (whole @ ?r) = ?r"
    using takeWhile_digits [of whole ?r] assms by (auto simp: positional_def)
  show ?thesis
  proof (cases "sign = []")
    case True
    then have t: "text = whole @ ?r" using assms by (simp add: positional_def)
    have "\<not> at_head (\<lambda>c. c = CHR ''-'') text" "\<not> at_head (\<lambda>c. c = CHR ''-'' \<or> c = CHR ''+'') text"
      using w by (simp_all add: t whole at_head_def)
    then show ?thesis using True tw unfolding number_of_text_def Let_def t by simp
  next
    case False
    then have t: "text = CHR ''-'' # whole @ ?r" "sign = ''-''"
      using assms by (auto simp: positional_def)
    then show ?thesis using tw unfolding number_of_text_def Let_def t by (simp add: at_head_def)
  qed
qed

lemma stop_heads:
  assumes "\<not> P (CHR '' '')" "\<not> P (CHR '')'')" "\<not> P (CHR '','')" "stop rest"
  shows "\<not> at_head P rest"
  using assms by (cases rest) (auto simp: stop_def at_head_def)

lemma scan_positional:
  assumes pos: "positional text sign whole frac" and stop: "stop rest"
  shows "scanNumber start (text @ rest) =
     ([push KNumber start text (Some (VNum (number_of_text text))) None], [], length text)"
proof -
  obtain w ws where whole: "whole = w # ws" using pos by (cases whole) (auto simp: positional_def)
  have w: "is_digit w" "w \<noteq> CHR ''-''" "w \<noteq> CHR ''+''"
    using pos digit_not_sign by (auto simp: positional_def whole)
  let ?r = "if frac = [] then [] else CHR ''.'' # frac"
  have split: "text = sign @ whole @ ?r" using pos by (simp add: positional_def)
  have sign: "(if at_head (\<lambda>c. c = CHR ''+'' \<or> c = CHR ''-'') (text @ rest) then 1 else 0) = length sign"
    using pos w by (auto simp: positional_def whole at_head_def)
  have none:
    "\<not> at_head is_digit rest" "\<not> at_head (\<lambda>c. c = CHR ''.'') rest"
    "\<not> at_head (\<lambda>c. c = CHR ''m'') rest" "\<not> at_head (\<lambda>c. c = CHR ''d'' \<or> c = CHR ''w'') rest"
    "\<not> at_head is_letter rest"
    by (rule stop_heads [OF _ _ _ stop]; simp add: is_digit_def is_letter_def)+
  have "\<not> at_head is_digit (?r @ rest)"
    using none by (simp add: at_head_def not_digit)
  then have j1: "takeWhile is_digit (drop (length sign) (text @ rest)) = whole"
    using takeWhile_digits [of whole "?r @ rest"] pos by (auto simp: positional_def)
  define j1 where "j1 = length sign + length whole"
  have dj1: "drop j1 (text @ rest) = ?r @ rest" by (simp add: j1_def split)
  show ?thesis
  proof (cases "frac = []")
    case True
    then have "drop j1 (text @ rest) = rest" "take j1 (text @ rest) = text" "length text = j1"
      by (simp_all add: split j1_def)
    then show ?thesis
      unfolding scanNumber_def Let_def sign j1 j1_def [symmetric] using none by simp
  next
    case False
    obtain f fs where frac: "frac = f # fs" using False by (cases frac) auto
    have f: "is_digit f" using pos by (simp add: positional_def frac)
    have d: "drop j1 (text @ rest) = CHR ''.'' # frac @ rest"
      "drop (j1 + 1) (text @ rest) = frac @ rest"
      using dj1 False by (simp_all add: split j1_def)
    have tw: "takeWhile is_digit (frac @ rest) = frac"
      using takeWhile_digits [of frac rest] pos none by (simp add: positional_def)
    have e: "j1 + 1 + length frac = length text" using False by (simp add: split j1_def)
    have dec: "at_head (\<lambda>c. c = CHR ''.'') (CHR ''.'' # frac @ rest)" "at_head is_digit (frac @ rest)"
      using f by (simp_all add: at_head_def frac)
    show ?thesis
      unfolding scanNumber_def Let_def sign j1 j1_def [symmetric] d tw
      using none dec e by simp
  qed
qed

lemma digit_others:
  "list_all (\<lambda>c. \<not> is_digit c)
     [CHR 0x09, CHR 0x0A, CHR 0x0B, CHR 0x0C, CHR 0x0D, CHR '' '', CHR 0xA0, CHR ''='', CHR ''!'',
      CHR ''<'', CHR ''>'', CHR ''('', CHR '')'', CHR '','', CHR '':'', CHR ''+'', CHR ''-'']"
  by code_simp

lemma digit_step: "is_digit c \<Longrightarrow> lex_step start c s = scanNumber start (c # s)"
proof -
  assume c: "is_digit c"
  then have "c \<notin> set [CHR 0x09, CHR 0x0A, CHR 0x0B, CHR 0x0C, CHR 0x0D, CHR '' '', CHR 0xA0,
      CHR ''='', CHR ''!'', CHR ''<'', CHR ''>'', CHR ''('', CHR '')'', CHR '','', CHR '':'',
      CHR ''+'', CHR ''-'']"
    using digit_others unfolding list_all_iff by blast
  then show ?thesis using c by (simp add: lex_step_def is_space_def)
qed

lemma minus_step: "at_head is_digit s \<Longrightarrow> lex_step start (CHR ''-'') s = scanNumber start (CHR ''-'' # s)"
  by (simp add: lex_step_def is_space_def)

lemma lexes_positional:
  assumes "positional text sign whole frac"
  shows "lexes text [(KNumber, text, Some (VNum (number_of_text text)), None)]"
proof -
  obtain w ws where whole: "whole = w # ws" "is_digit w"
    using assms by (cases whole) (auto simp: positional_def)
  obtain c r where split: "text = c # r" and c: "c = CHR ''-'' \<and> at_head is_digit r \<or> is_digit c"
    using assms whole by (auto simp: positional_def at_head_def)
  show ?thesis unfolding split
  proof (rule lexesI)
    fix start rest assume stop: "stop rest"
    have "at_head is_digit (r @ rest)" if "at_head is_digit r"
      using that by (cases r) (auto simp: at_head_def)
    then have "lex_step start c (r @ rest) = scanNumber start (text @ rest)"
      using c minus_step digit_step unfolding split by auto
    then show "\<exists>t. lex_step start c (r @ rest) = ([t], [], Suc (length r)) \<and>
       core t = (KNumber, c # r, Some (VNum (number_of_text (c # r))), None)"
      using scan_positional [OF assms stop, of start] unfolding split by simp
  qed
qed

text \<open>Numbers that \<open>String(n)\<close> prints without an exponent.\<close>

fun positional_number :: "number \<Rightarrow> bool" where
  "positional_number (Num m e) \<longleftrightarrow> normal (Num m e) \<and>
     (let n = int (length (decimal_of_nat (nat \<bar>m\<bar>))) + e in m = 0 \<or> -6 < n \<and> n \<le> 21)"

lemma number_digits_positional:
  assumes ds: "list_all is_digit ds" "ds \<noteq> []"
    and n: "-6 < int (length ds) + e" "int (length ds) + e \<le> 21"
  shows "\<exists>whole frac. (\<forall>sign \<in> {[], ''-''}. positional (sign @ number_digits ds e) sign whole frac) \<and>
     digits_val (whole @ frac) = digits_val ds * 10 ^ nat e \<and> int (length frac) = (if 0 \<le> e then 0 else - e)"
proof -
  consider (int) "0 \<le> e" | (point) "e < 0" "0 < int (length ds) + e" | (small) "int (length ds) + e \<le> 0"
    by linarith
  then show ?thesis
  proof cases
    case int
    then have "number_digits ds e = ds @ replicate (nat e) (CHR ''0'')"
      using n by (simp add: number_digits_def Let_def)
    then show ?thesis
      using ds int
      by (intro exI [of _ "ds @ replicate (nat e) (CHR ''0'')"] exI [of _ "[]"])
        (auto simp: positional_def digits_val_append digits_val_zeros list_all_iff is_digit_def)
  next
    case point
    define k where "k = nat (int (length ds) + e)"
    have k: "0 < k" "k < length ds" using point by (auto simp: k_def)
    have "number_digits ds e = take k ds @ ''.'' @ drop k ds"
      using point n by (simp add: number_digits_def Let_def k_def)
    then show ?thesis
      using ds k point
      by (intro exI [of _ "take k ds"] exI [of _ "drop k ds"])
        (auto simp: positional_def k_def list_all_iff dest: in_set_takeD in_set_dropD)
  next
    case small
    define z where "z = nat (- (int (length ds) + e))"
    have "length ds \<noteq> 0" using ds by simp
    then have e: "e < 0" using small by linarith
    have "number_digits ds e = ''0.'' @ replicate z (CHR ''0'') @ ds"
      using small n e by (simp add: number_digits_def Let_def z_def)
    moreover have "digits_val (''0'' @ replicate z (CHR ''0'') @ ds) = digits_val ds"
      using digits_val_zeros [of "Suc z"] digits_val_append [of "replicate (Suc z) (CHR ''0'')" ds] by simp
    ultimately show ?thesis
      using ds small e
      by (intro exI [of _ "''0''"] exI [of _ "replicate z (CHR ''0'') @ ds"])
        (auto simp: positional_def z_def list_all_iff is_digit_def)
  qed
qed

lemma positional_number_text:
  assumes "positional_number n"
  shows "\<exists>sign whole frac. positional (string_of_number n) sign whole frac \<and>
     number_of_text (string_of_number n) = n"
proof (cases n)
  case (Num m e)
  show ?thesis
  proof (cases "m = 0")
    case True
    then have "n = Num 0 0" using assms Num by simp
    moreover have "positional ''0'' [] ''0'' []" by (simp add: positional_def is_digit_def)
    moreover have "number_of_text ''0'' = Num 0 0"
      using number_of_text_positional [OF \<open>positional ''0'' [] ''0'' []\<close>]
      by (simp add: digits_val_def digit_val_def normalise.simps)
    ultimately show ?thesis by auto
  next
    case False
    let ?ds = "decimal_of_nat (nat \<bar>m\<bar>)"
    have ds: "list_all is_digit ?ds" "?ds \<noteq> []" "digits_val ?ds = \<bar>m\<bar>"
      using decimal_of_nat_digits [of "nat \<bar>m\<bar>"] by simp_all
    obtain whole frac where wf: "\<forall>sign \<in> {[], ''-''}. positional (sign @ number_digits ?ds e) sign whole frac"
      "digits_val (whole @ frac) = digits_val ?ds * 10 ^ nat e"
      "int (length frac) = (if 0 \<le> e then 0 else - e)"
      using number_digits_positional [OF ds(1,2), of e] assms False Num by (auto simp: Let_def)
    define sign where "sign = (if m < 0 then ''-'' else [])"
    have pos: "positional (string_of_number n) sign whole frac"
      using wf(1) False Num by (cases "m < 0") (simp_all add: sign_def)
    have "number_of_text (string_of_number n) =
        normalise ((if sign = [] then 1 else -1) * (\<bar>m\<bar> * 10 ^ nat e)) (- int (length frac))"
      using number_of_text_positional [OF pos] wf(2) ds(3) by simp
    also have "(if sign = [] then 1 else -1) * (\<bar>m\<bar> * 10 ^ nat e) = m * 10 ^ nat e"
      by (simp add: sign_def)
    also have "normalise (m * 10 ^ nat e) (- int (length frac)) = Num m e"
      using normalise_shift [of m "nat e" "- int (length frac)"] normalise_normal [of m e] assms Num wf(3)
      by simp
    finally show ?thesis using pos Num by blast
  qed
qed

section \<open>Values\<close>

fun value_ok :: "FilterValue \<Rightarrow> bool" where
  "value_ok (FNumber n) = positional_number n"
| "value_ok _ = True"

fun value_core :: "FilterValue \<Rightarrow> core" where
  "value_core FNull = kw K_NULL ''null''"
| "value_core (FBool b) = (KIdent, if b then ''true'' else ''false'', None, None)"
| "value_core (FNumber n) = (KNumber, string_of_number n, Some (VNum n), None)"
| "value_core (FString s) =
     (if s = ME then (KAt, ''@me'', Some (VStr ''me''), None)
      else if isSafeBare s then (KIdent, s, None, None)
      else (KString, quote s, Some (VStr s), None))"

lemma of_char_char_of: "n < 256 \<Longrightarrow> (of_char (char_of n) :: nat) = n"
  by (simp add: of_char_of)

lemma lower_upper_char: "lower_char (upper_char c) = lower_char c"
proof -
  define n :: nat where "n = of_char c"
  have n: "n < 256" "c = char_of n" by (simp_all add: n_def)
  consider (low) "97 \<le> n" "n \<le> 122" | (high) "224 \<le> n" "n \<le> 254" "n \<noteq> 247"
    | (same) "upper_char c = c"
    by (fastforce simp: upper_char_def n_def Let_def)
  then show ?thesis
  proof cases
    case low
    then have "upper_char c = char_of (n - 32)" by (simp add: upper_char_def n_def Let_def)
    moreover have "65 \<le> n - 32" "n - 32 \<le> 90" "n - 32 < 256" using low by simp_all
    ultimately show ?thesis using low n
      by (simp add: lower_char_def Let_def of_char_char_of n_def [symmetric])
  next
    case high
    then have "upper_char c = char_of (n - 32)" by (simp add: upper_char_def n_def Let_def)
    moreover have "192 \<le> n - 32" "n - 32 \<le> 222" "n - 32 \<noteq> 215" "n - 32 < 256"
      using high by simp_all
    ultimately show ?thesis using high n
      by (simp add: lower_char_def Let_def of_char_char_of n_def [symmetric])
  qed simp
qed

lemma lower_upper: "to_lower (to_upper w) = to_lower w"
  by (simp add: lower_upper_char)

lemma keywords_reserved: "list_all (\<lambda>(w, k). to_lower w \<in> set RESERVED) KEYWORDS"
  by code_simp

lemma isSafeBare_plain: "isSafeBare s \<Longrightarrow> plain_word s"
proof -
  assume s: "isSafeBare s"
  have "map_of KEYWORDS (to_upper s) = None"
  proof (rule ccontr)
    assume "map_of KEYWORDS (to_upper s) \<noteq> None"
    then obtain k where "(to_upper s, k) \<in> set KEYWORDS" by (auto dest: map_of_SomeD)
    then have "to_lower (to_upper s) \<in> set RESERVED"
      using keywords_reserved unfolding list_all_iff by blast
    then show False using s unfolding isSafeBare_def lower_upper by blast
  qed
  then show "plain_word s" using s by (simp add: plain_word_def word_def isSafeBare_def)
qed

lemma lexes_value: "value_ok v \<Longrightarrow> lexes (emitValue v) [value_core v]"
proof (cases v)
  case (FNumber n)
  moreover assume "value_ok v"
  ultimately show ?thesis using positional_number_text [of n] lexes_positional by force
qed (auto simp: lexes_keywords lexes_plain plain_booleans lexes_at_me lexes_quote
      intro!: lexes_plain [OF isSafeBare_plain])

lemma lexes_values:
  "vs \<noteq> [] \<Longrightarrow> list_all value_ok vs \<Longrightarrow>
   lexes (join '', '' (map emitValue vs)) (value_core (hd vs) # concat (map (\<lambda>v. [comma, value_core v]) (tl vs)))"
proof (induction vs)
  case (Cons v vs)
  then show ?case
  proof (cases vs)
    case Nil
    with Cons.prems show ?thesis by (simp add: lexes_value)
  next
    case (Cons w ws)
    with Cons.IH Cons.prems lexes_listed [OF lexes_value] show ?thesis by fastforce
  qed
qed simp

end
