(* ===== verification/Tql_Trees.thy ===== *)
theory Tql_Trees
  imports Tql_Roundtrip
begin

text \<open>
  Canonical trees: what each prints lexes into, and how the parser reads those tokens back.
\<close>

section \<open>Trees\<close>

text \<open>
  The canonical trees: field names that are plain words, values that fit their operator and whose
  numbers print positionally, and groups the text can say: an \<open>OR\<close> of at least two, or an \<open>AND\<close>
  of any number except one that is itself a group.
\<close>

fun is_group :: "FilterNode \<Rightarrow> bool" where
  "is_group (GroupNode _ _) = True" | "is_group _ = False"

fun values_of :: "node_value option \<Rightarrow> FilterValue list" where
  "values_of None = []" | "values_of (Some (Scalar v)) = [v]" | "values_of (Some (ListOf vs)) = vs"

fun canonical :: "FilterNode \<Rightarrow> bool" where
  "canonical (ComparisonNode field operator v) =
     (plain_word field \<and> value_shape_ok operator v \<and> list_all value_ok (values_of v))"
| "canonical (NotNode c) = canonical c"
| "canonical (GroupNode comb cs) =
     (list_all canonical cs \<and>
      (2 \<le> length cs \<or> comb = AndC \<and> (case cs of [c] \<Rightarrow> \<not> is_group c | _ \<Rightarrow> True)))"

fun op_cores :: "Operator \<Rightarrow> core list" where
  "op_cores Eq = [op_core ''='']" | "op_cores Neq = [op_core ''!='']"
| "op_cores Lt = [op_core ''<'']" | "op_cores Lte = [op_core ''<='']"
| "op_cores Gt = [op_core ''>'']" | "op_cores Gte = [op_core ''>='']"
| "op_cores In = [kw K_IN ''IN'']" | "op_cores Not_In = [kw K_NOT ''NOT'', kw K_IN ''IN'']"
| "op_cores Contains = [kw K_CONTAINS ''CONTAINS'']"
| "op_cores Is_Empty = [kw K_IS ''IS'', kw K_EMPTY ''EMPTY'']"
| "op_cores Is_Not_Empty = [kw K_IS ''IS'', kw K_NOT ''NOT'', kw K_EMPTY ''EMPTY'']"

definition list_cores :: "FilterValue list \<Rightarrow> core list" where
  "list_cores vs = (case vs of [] \<Rightarrow> []
     | v # ws \<Rightarrow> value_core v # concat (map (\<lambda>w. [comma, value_core w]) ws)) @ [rparen]"

fun value_cores :: "node_value option \<Rightarrow> core list" where
  "value_cores None = []"
| "value_cores (Some (Scalar v)) = [value_core v]"
| "value_cores (Some (ListOf vs)) = lparen # list_cores vs"

definition joiner :: "combinator \<Rightarrow> core" where
  "joiner comb = (if comb = AndC then kw K_AND ''AND'' else kw K_OR ''OR'')"

definition more_cores :: "core \<Rightarrow> core list list \<Rightarrow> core list" where
  "more_cores j css = concat (map (\<lambda>cs. j # cs) css)"

fun node_cores :: "FilterNode \<Rightarrow> core list" where
  "node_cores (ComparisonNode field operator v) =
     (KIdent, field, None, None) # op_cores operator @ value_cores v"
| "node_cores (NotNode c) = kw K_NOT ''NOT'' # node_cores c"
| "node_cores (GroupNode comb cs) =
     lparen # (case map node_cores cs of [] \<Rightarrow> []
       | c # rest \<Rightarrow> c @ more_cores (joiner comb) rest) @ [rparen]"

lemma lexes_listing: "list_all value_ok vs \<Longrightarrow> lexes (CHR ''('' # join '', '' (map emitValue vs) @ '')'') (lparen # list_cores vs)"
proof (cases vs)
  case Nil
  then show ?thesis using lexes_open [OF lexes_rparen] by (simp add: list_cores_def)
next
  case (Cons v ws)
  moreover assume "list_all value_ok vs"
  ultimately show ?thesis
    using lexes_open [OF lexes_close [OF lexes_values [of vs]]] by (simp add: list_cores_def)
qed

lemma lexes_comparison:
  assumes "canonical (ComparisonNode field operator v)"
  shows "lexes (emitComparison field operator v) (node_cores (ComparisonNode field operator v))"
proof -
  have f: "lexes field [(KIdent, field, None, None)]"
    and shape: "value_shape_ok operator v" and ok: "list_all value_ok (values_of v)"
    using assms lexes_plain by auto
  have two: "lexes (field @ '' '' @ o1 @ '' '' @ w) ((KIdent, field, None, None) # cs @ ds)"
    if "lexes o1 cs" "lexes w ds" for o1 w cs ds
    using lexes_spaced [OF f lexes_spaced [OF that]] by simp
  have scalar: "\<exists>x. v = Some (Scalar x) \<and> lexes (emitValue x) [value_core x]"
    if "operator \<notin> {In, Not_In, Is_Empty, Is_Not_Empty}"
    using shape ok that lexes_value
    by (cases v; cases "the v")
      (auto simp: value_shape_ok_def Let_def NULLARY_OPERATORS_def LIST_OPERATORS_def)
  have listed: "\<exists>xs. v = Some (ListOf xs) \<and> lexes (CHR ''('' # join '', '' (map emitValue xs) @ '')'') (lparen # list_cores xs)"
    if "operator \<in> {In, Not_In}"
    using shape ok that lexes_listing
    by (cases v; cases "the v")
      (auto simp: value_shape_ok_def Let_def NULLARY_OPERATORS_def LIST_OPERATORS_def)
  have none: "v = None" if "operator \<in> {Is_Empty, Is_Not_Empty}"
    using shape that
    by (cases v; cases "the v")
      (auto simp: value_shape_ok_def Let_def NULLARY_OPERATORS_def LIST_OPERATORS_def)
  show ?thesis
  proof (cases operator)
    case Not_In
    then obtain xs where "v = Some (ListOf xs)"
      "lexes (CHR ''('' # join '', '' (map emitValue xs) @ '')'') (lparen # list_cores xs)"
      using listed by auto
    with Not_In two [OF lexes_keywords(3) lexes_spaced [OF lexes_keywords(4)]] show ?thesis by simp
  next
    case Is_Not_Empty
    with two [OF lexes_keywords(5) lexes_spaced [OF lexes_keywords(3) lexes_keywords(6)]] none
    show ?thesis by simp
  next
    case Is_Empty
    with two [OF lexes_keywords(5) lexes_keywords(6)] none show ?thesis by simp
  next
    case In
    then obtain xs where "v = Some (ListOf xs)"
      "lexes (CHR ''('' # join '', '' (map emitValue xs) @ '')'') (lparen # list_cores xs)"
      using listed by auto
    with In two [OF lexes_keywords(4)] show ?thesis by simp
  qed (use scalar two lexes_ops lexes_keywords(7) in fastforce)+
qed

lemma lexes_joined:
  assumes "\<And>c. c \<in> set cs \<Longrightarrow> lexes (emit c) (node_cores c)" "cs \<noteq> []"
    "sep = '' '' @ w @ '' ''" "lexes w [j]"
  shows "lexes (join sep (map emit cs)) (node_cores (hd cs) @ more_cores j (map node_cores (tl cs)))"
  using assms(1,2)
proof (induction cs)
  case (Cons c cs)
  show ?case
  proof (cases cs)
    case Nil
    with Cons.prems show ?thesis by (simp add: more_cores_def)
  next
    case (Cons d ds)
    then have "lexes (join sep (map emit cs)) (node_cores d @ more_cores j (map node_cores ds))"
      using Cons.IH Cons.prems by simp
    then have "lexes (emit c @ '' '' @ w @ '' '' @ join sep (map emit cs))
        (node_cores c @ j # node_cores d @ more_cores j (map node_cores ds))"
      using lexes_spaced [OF Cons.prems(1) lexes_spaced [OF assms(4)]] by simp
    then show ?thesis using Cons assms(3) by (simp add: more_cores_def)
  qed
qed simp

lemma lexes_node: "canonical n \<Longrightarrow> lexes (emit n) (node_cores n)"
proof (induction n)
  case (ComparisonNode field operator v)
  then show ?case using lexes_comparison by simp
next
  case (GroupNode comb cs)
  show ?case
  proof (cases cs)
    case Nil
    then show ?thesis using lexes_open [OF lexes_rparen] by simp
  next
    case (Cons c ds)
    have each: "lexes (emit c) (node_cores c)" if "c \<in> set cs" for c
      using GroupNode that by (auto simp: list_all_iff)
    have "lexes (join (if comb = AndC then '' AND '' else '' OR '') (map emit cs))
        (node_cores (hd cs) @ more_cores (joiner comb) (map node_cores (tl cs)))"
    proof (cases comb)
      case AndC
      then show ?thesis
        using lexes_joined [OF each, of cs "'' AND ''" "''AND''"] lexes_keywords(1) Cons
        by (simp add: joiner_def)
    next
      case OrC
      then show ?thesis
        using lexes_joined [OF each, of cs "'' OR ''" "''OR''"] lexes_keywords(2) Cons
        by (simp add: joiner_def)
    qed
    from lexes_open [OF lexes_close [OF this]] show ?thesis using Cons by simp
  qed
next
  case (NotNode n)
  then show ?case using lexes_spaced [OF lexes_keywords(3)] by simp
qed

section \<open>Parsing the tokens of a tree\<close>

fun spells :: "Token list \<Rightarrow> nat \<Rightarrow> core list \<Rightarrow> bool" where
  "spells toks pos [] \<longleftrightarrow> True"
| "spells toks pos (c # cs) \<longleftrightarrow> pos < length toks \<and> core (toks ! pos) = c \<and> spells toks (Suc pos) cs"

lemma spells_append:
  "spells toks pos (cs @ ds) \<longleftrightarrow> spells toks pos cs \<and> spells toks (pos + length cs) ds"
  by (induction cs arbitrary: pos) auto

lemma spells_map_core: "spells (ts @ us) (length ts') (map core vs) \<longleftrightarrow> True"
  if "ts = ts' @ vs"
  using that by (induction vs arbitrary: ts') (auto simp: nth_append)

lemma peek_core: "pos < length toks \<Longrightarrow> core (toks ! pos) = (k, t, v, w) \<Longrightarrow>
   tok_kind (peek toks pos) = k \<and> tok_text (peek toks pos) = t \<and> tok_value (peek toks pos) = v \<and>
   tok_keyword (peek toks pos) = w"
  by (simp add: peek_def core_def)

lemma peek_keyword: "pos < length toks \<Longrightarrow> core (toks ! pos) = (k, t, v, w) \<Longrightarrow>
   is_keyword (peek toks pos) x \<longleftrightarrow> k = KKeyword \<and> w = Some x"
  using peek_core [of pos toks k t v w] by (auto simp: is_keyword_def)

lemma parse_value_core:
  assumes "spells toks pos [value_core v]"
  shows "parseValue toks pos = Return (v, pos + 1)"
proof (cases v)
  case (FString s)
  show ?thesis
  proof (cases "s = ME \<or> \<not> isSafeBare s")
    case True
    with FString assms show ?thesis
      by (auto simp: parseValue_def Let_def string_value_def dest!: peek_core split: if_splits)
  next
    case False
    then have "to_lower s \<notin> set RESERVED" by (simp add: isSafeBare_def)
    then have "ident_value s = FString s" by (auto simp: ident_value_def Let_def RESERVED_def)
    with False FString assms show ?thesis
      by (auto simp: parseValue_def Let_def dest!: peek_core)
  qed
next
  case (FBool b)
  have "ident_value ''true'' = FBool True" "ident_value ''false'' = FBool False"
    by code_simp+
  with FBool assms show ?thesis
    by (auto simp: parseValue_def Let_def dest!: peek_core split: if_splits)
qed (use assms in \<open>auto simp: parseValue_def Let_def number_value_def dest!: peek_core\<close>)

lemma value_core_kind: "fst (value_core v) \<notin> {KRparen, KEof, KLparen, KComma}"
  by (cases v) auto

lemma peek_value_core:
  "pos < length toks \<Longrightarrow> core (toks ! pos) = value_core v \<Longrightarrow>
   tok_kind (peek toks pos) \<noteq> KRparen \<and> tok_kind (peek toks pos) \<noteq> KEof"
  using value_core_kind [of v] by (cases "value_core v") (auto dest!: peek_core)

lemma list_loop_cores:
  "spells toks pos (value_core v # concat (map (\<lambda>w. [comma, value_core w]) ws) @ [rparen]) \<Longrightarrow>
   length ws < n \<Longrightarrow>
   list_loop n toks vs pos = Return (vs @ v # ws, pos + 2 * length ws + 2)"
proof (induction ws arbitrary: n v vs pos)
  case Nil
  then obtain m where n: "n = Suc m" by (cases n) auto
  have "parseValue toks pos = Return (v, pos + 1)" using Nil parse_value_core by simp
  moreover have "tok_kind (peek toks (pos + 1)) = KRparen" using Nil by (auto dest!: peek_core)
  ultimately show ?case using Nil n by (auto simp: Let_def dest!: peek_value_core)
next
  case (Cons w ws)
  then obtain m where n: "n = Suc m" "length ws < m" by (cases n) auto
  have v: "parseValue toks pos = Return (v, pos + 1)" using Cons.prems parse_value_core by simp
  have c: "tok_kind (peek toks (pos + 1)) = KComma" using Cons.prems by (auto dest!: peek_core)
  have "list_loop m toks (vs @ [v]) (pos + 2) = Return ((vs @ [v]) @ w # ws, pos + 2 + 2 * length ws + 2)"
    using Cons.prems n by (intro Cons.IH) auto
  with v c n Cons.prems show ?case by (auto simp: Let_def dest!: peek_value_core)
qed

lemma parseList_cores:
  assumes "spells toks pos (lparen # list_cores vs)" "length vs < n"
  shows "parseList n toks pos = Return (vs, pos + 1 + length (list_cores vs))"
proof (cases vs)
  case Nil
  with assms obtain m where "n = Suc m" by (cases n) auto
  with Nil assms show ?thesis
    by (auto simp: parseList_def list_cores_def Let_def dest!: peek_core)
next
  case (Cons v ws)
  have "length (concat (map (\<lambda>w. [comma, value_core w]) ws)) = 2 * length ws"
    by (induction ws) auto
  moreover have "list_loop n toks [] (pos + 1) = Return ([] @ v # ws, pos + 1 + 2 * length ws + 2)"
    using assms Cons by (intro list_loop_cores) (auto simp: list_cores_def)
  ultimately show ?thesis
    using assms Cons by (auto simp: parseList_def list_cores_def Let_def dest!: peek_core)
qed

lemma startsComparison_cores:
  "pos < length toks \<Longrightarrow> core (toks ! pos) = hd (op_cores operator) \<Longrightarrow> startsComparison toks pos"
  by (cases operator) (simp_all add: startsComparison_def core_def Let_def)

lemma op_of_text_cores:
  "op_of_text ''='' = Some Eq" "op_of_text ''!='' = Some Neq" "op_of_text ''<'' = Some Lt"
  "op_of_text ''<='' = Some Lte" "op_of_text ''>'' = Some Gt" "op_of_text ''>='' = Some Gte"
  by (simp_all add: op_of_text_def)

lemma peek_kw:
  "spells toks pos [kw k w] \<Longrightarrow> tok_kind (peek toks pos) = KKeyword \<and> tok_keyword (peek toks pos) = Some k"
  by (auto dest!: peek_core)

lemma parseAtom_cores:
  assumes canon: "canonical (ComparisonNode field operator v)"
    and spells: "spells toks pos (node_cores (ComparisonNode field operator v))"
    and n: "length (node_cores (ComparisonNode field operator v)) \<le> n"
  shows "parseAtom n toks pos =
     Return (ComparisonNode field operator v, pos + length (node_cores (ComparisonNode field operator v)))"
proof -
  have first: "tok_kind (peek toks pos) = KIdent" "tok_text (peek toks pos) = field"
    using spells by (auto dest!: peek_core)
  have rest: "spells toks (pos + 1) (op_cores operator @ value_cores v)" using spells by simp
  have starts: "startsComparison toks (pos + 1)"
    using rest by (cases operator) (auto intro!: startsComparison_cores [of _ _ operator])
  have shape: "value_shape_ok operator v" using canon by simp
  have scalar: "\<exists>x. v = Some (Scalar x)" if "operator \<notin> {In, Not_In, Is_Empty, Is_Not_Empty}"
    using shape that
    by (cases v; cases "the v")
      (auto simp: value_shape_ok_def Let_def NULLARY_OPERATORS_def LIST_OPERATORS_def)
  have listed: "\<exists>xs. v = Some (ListOf xs)" if "operator \<in> {In, Not_In}"
    using shape that
    by (cases v; cases "the v")
      (auto simp: value_shape_ok_def Let_def NULLARY_OPERATORS_def LIST_OPERATORS_def)
  have none: "v = None" if "operator \<in> {Is_Empty, Is_Not_Empty}"
    using shape that
    by (cases v; cases "the v")
      (auto simp: value_shape_ok_def Let_def NULLARY_OPERATORS_def LIST_OPERATORS_def)
  have many: "length xs < length (list_cores xs)" for xs
    by (cases xs) (auto simp: list_cores_def length_concat comp_def sum_list_triv)
  have "parseComparison n field toks (pos + 1) =
     Return (ComparisonNode field operator v, pos + length (node_cores (ComparisonNode field operator v)))"
  proof (cases "operator \<in> {In, Not_In, Is_Empty, Is_Not_Empty}")
    case False
    then obtain x where v: "v = Some (Scalar x)" using scalar by blast
    then have val: "parseValue toks (pos + 2) = Return (x, pos + 3)"
      using rest False parse_value_core [of toks "pos + 2" x] by (cases operator) auto
    show ?thesis
    proof (cases "operator = Contains")
      case True
      then have "tok_kind (peek toks (pos + 1)) = KKeyword"
        "tok_keyword (peek toks (pos + 1)) = Some K_CONTAINS"
        using rest by (auto dest!: peek_core)
      then show ?thesis
        using val v True
        by (simp add: parseComparison_def Let_def compare_value_def compare_node_def)
    next
      case no_contains: False
      then obtain w where w: "op_cores operator = [op_core w]" "op_of_text w = Some operator"
        using op_of_text_cores False by (cases operator) auto
      then have "tok_kind (peek toks (pos + 1)) = KOp" "tok_text (peek toks (pos + 1)) = w"
        using rest by (auto dest!: peek_core)
      then show ?thesis
        using val v w by (simp add: parseComparison_def Let_def compare_value_def compare_node_def)
    qed
  next
    case True
    then consider (empty) "operator = Is_Empty" | (nonempty) "operator = Is_Not_Empty"
      | (is_in) "operator = In" | (notin) "operator = Not_In" by auto
    then show ?thesis
    proof cases
      case empty
      then have "spells toks (pos + 1) [kw K_IS ''IS'']" "spells toks (pos + 2) [kw K_EMPTY ''EMPTY'']"
        using rest by simp_all
      from this [THEN peek_kw] show ?thesis
        using none empty
        by (simp add: parseComparison_def Let_def parse_is_def is_keyword_def compare_node_def)
    next
      case nonempty
      then have "spells toks (pos + 1) [kw K_IS ''IS'']" "spells toks (pos + 2) [kw K_NOT ''NOT'']"
        "spells toks (pos + 3) [kw K_EMPTY ''EMPTY'']"
        using rest by (simp_all add: numeral_3_eq_3)
      from this [THEN peek_kw] show ?thesis
        using none nonempty
        by (simp add: parseComparison_def Let_def parse_is_def is_keyword_def compare_node_def
            numeral_3_eq_3)
    next
      case is_in
      then obtain xs where v: "v = Some (ListOf xs)" using listed by blast
      have "parseList n toks (pos + 2) = Return (xs, pos + 2 + 1 + length (list_cores xs))"
        using rest v is_in n many [of xs] by (intro parseList_cores) auto
      moreover have "spells toks (pos + 1) [kw K_IN ''IN'']" using rest is_in by simp
      from this [THEN peek_kw] calculation show ?thesis
        using v is_in by (simp add: parseComparison_def Let_def compare_list_def compare_node_def)
    next
      case notin
      then obtain xs where v: "v = Some (ListOf xs)" using listed by blast
      have "parseList n toks (pos + 3) = Return (xs, pos + 3 + 1 + length (list_cores xs))"
        using rest v notin n many [of xs] by (intro parseList_cores) (auto simp: numeral_3_eq_3)
      moreover have "spells toks (pos + 1) [kw K_NOT ''NOT'']" "spells toks (pos + 2) [kw K_IN ''IN'']"
        using rest notin by simp_all
      from this [THEN peek_kw] calculation show ?thesis
        using v notin
        by (simp add: parseComparison_def Let_def compare_list_def compare_node_def is_keyword_def
            numeral_3_eq_3)
    qed
  qed
  then show ?thesis using first starts by (simp add: parseAtom_def Let_def)
qed

text \<open>\<open>reads\<close>: wherever the tokens of \<open>node\<close> stand, a term is parsed there as \<open>node\<close>.\<close>

definition reads :: "FilterNode \<Rightarrow> bool" where
  "reads node \<longleftrightarrow> (\<forall>n toks pos. spells toks pos (node_cores node) \<longrightarrow> 3 * length (node_cores node) \<le> n \<longrightarrow>
     parse_at n At_Term toks pos = Return (node, pos + length (node_cores node)))"

lemma node_cores_pos: "0 < length (node_cores n)"
  by (cases n) auto

lemma node_cores_start:
  "spells toks pos (node_cores n) \<Longrightarrow>
   tok_kind (peek toks pos) \<in> {KIdent, KLparen} \<or> is_keyword (peek toks pos) K_NOT"
  by (cases n) (auto simp: is_keyword_def dest!: peek_core)

lemma more_cores_Cons: "more_cores j (cs # css) = j # cs @ more_cores j css"
  by (simp add: more_cores_def)

lemma and_loop_cores:
  "(\<And>c. c \<in> set cs \<Longrightarrow> reads c) \<Longrightarrow>
   spells toks pos (more_cores (kw K_AND ''AND'') (map node_cores cs)) \<Longrightarrow>
   pos' = pos + length (more_cores (kw K_AND ''AND'') (map node_cores cs)) \<Longrightarrow>
   ends_and (peek toks pos') \<Longrightarrow>
   3 * length (more_cores (kw K_AND ''AND'') (map node_cores cs)) < n \<Longrightarrow>
   parse_at n (At_And_Loop ts) toks pos =
     Return (if length (ts @ cs) = 1 then hd (ts @ cs) else and_node (ts @ cs), pos')"
proof (induction cs arbitrary: ts pos n)
  case Nil
  then obtain m where "n = Suc m" by (cases n) auto
  then show ?case using Nil by (auto simp: more_cores_def ends_and_def is_keyword_def)
next
  case (Cons c cs)
  obtain m where n: "n = Suc m" using Cons.prems(5) by (cases n) auto
  let ?more = "more_cores (kw K_AND ''AND'') (map node_cores cs)"
  have sp: "pos < length toks" "core (toks ! pos) = kw K_AND ''AND''"
    "spells toks (pos + 1) (node_cores c)" "spells toks (pos + 1 + length (node_cores c)) ?more"
    using Cons.prems(2) by (simp_all add: more_cores_Cons spells_append)
  have "is_keyword (peek toks pos) K_AND" using peek_keyword [OF sp(1,2)] by simp
  moreover have "parse_at m At_Term toks (pos + 1) = Return (c, pos + 1 + length (node_cores c))"
    using Cons.prems(1) [of c] sp(3) Cons.prems(5) n unfolding reads_def
    by (simp add: more_cores_Cons)
  moreover have "parse_at m (At_And_Loop (ts @ [c])) toks (pos + 1 + length (node_cores c)) =
      Return (if length ((ts @ [c]) @ cs) = 1 then hd ((ts @ [c]) @ cs) else and_node ((ts @ [c]) @ cs), pos')"
    using Cons.prems sp(4) n by (intro Cons.IH) (auto simp: more_cores_Cons)
  ultimately show ?case unfolding n by simp
qed

lemma and_single:
  assumes "reads c" "spells toks pos (node_cores c)" "ends_and (peek toks (pos + length (node_cores c)))"
    "3 * length (node_cores c) < n"
  shows "parse_at n At_And toks pos = Return (c, pos + length (node_cores c))"
proof -
  obtain m where n: "n = Suc m" using assms(4) by (cases n) auto
  have "parse_at m At_Term toks pos = Return (c, pos + length (node_cores c))"
    using assms n unfolding reads_def by simp
  moreover have "parse_at m (At_And_Loop [c]) toks (pos + length (node_cores c)) =
      Return (c, pos + length (node_cores c))"
    using and_loop_cores [of "[]" toks "pos + length (node_cores c)" _ m "[c]"] assms n
      node_cores_pos [of c]
    by (simp add: more_cores_def)
  ultimately show ?thesis unfolding n by simp
qed

lemma or_loop_cores:
  "(\<And>c. c \<in> set cs \<Longrightarrow> reads c) \<Longrightarrow>
   spells toks pos (more_cores (kw K_OR ''OR'') (map node_cores cs)) \<Longrightarrow>
   pos' = pos + length (more_cores (kw K_OR ''OR'') (map node_cores cs)) \<Longrightarrow>
   ends_and (peek toks pos') \<and> \<not> is_keyword (peek toks pos') K_OR \<Longrightarrow>
   3 * length (more_cores (kw K_OR ''OR'') (map node_cores cs)) < n \<Longrightarrow>
   parse_at n (At_Or_Loop ts) toks pos =
     Return (if length (ts @ cs) = 1 then hd (ts @ cs) else or_node (ts @ cs), pos')"
proof (induction cs arbitrary: ts pos n)
  case Nil
  then obtain m where "n = Suc m" by (cases n) auto
  then show ?case using Nil by (auto simp: more_cores_def)
next
  case (Cons c cs)
  obtain m where n: "n = Suc m" using Cons.prems(5) by (cases n) auto
  let ?more = "more_cores (kw K_OR ''OR'') (map node_cores cs)"
  have sp: "pos < length toks" "core (toks ! pos) = kw K_OR ''OR''"
    "spells toks (pos + 1) (node_cores c)" "spells toks (pos + 1 + length (node_cores c)) ?more"
    using Cons.prems(2) by (simp_all add: more_cores_Cons spells_append)
  have "is_keyword (peek toks pos) K_OR" using peek_keyword [OF sp(1,2)] by simp
  moreover have "ends_and (peek toks (pos + 1 + length (node_cores c)))"
  proof (cases cs)
    case Nil
    then show ?thesis using Cons.prems(3,4) by (simp add: more_cores_def)
  next
    case (Cons d ds)
    with sp(4) show ?thesis by (auto simp: more_cores_Cons ends_and_def peek_keyword)
  qed
  then have "parse_at m At_And toks (pos + 1) = Return (c, pos + 1 + length (node_cores c))"
    using Cons.prems(1) [of c] sp(3) Cons.prems(5) n by (intro and_single) (auto simp: more_cores_Cons)
  moreover have "parse_at m (At_Or_Loop (ts @ [c])) toks (pos + 1 + length (node_cores c)) =
      Return (if length ((ts @ [c]) @ cs) = 1 then hd ((ts @ [c]) @ cs) else or_node ((ts @ [c]) @ cs), pos')"
    using Cons.prems sp(4) n by (intro Cons.IH) (auto simp: more_cores_Cons)
  ultimately show ?case unfolding n by simp
qed

text \<open>Children joined by one combinator, up to a token that ends both loops.\<close>

lemma or_joined:
  assumes reads: "\<And>x. x \<in> set (c # cs) \<Longrightarrow> reads x"
    and sp: "spells toks pos (node_cores c @ more_cores (joiner comb) (map node_cores cs))"
    and pos': "pos' = pos + length (node_cores c @ more_cores (joiner comb) (map node_cores cs))"
    and follow: "ends_and (peek toks pos') \<and> \<not> is_keyword (peek toks pos') K_OR"
    and n: "3 * length (node_cores c @ more_cores (joiner comb) (map node_cores cs)) + 1 < n"
  shows "parse_at n At_Or toks pos = Return (if cs = [] then c else GroupNode comb (c # cs), pos')"
proof -
  obtain m where m: "n = Suc m" using n by (cases n) auto
  have spc: "spells toks pos (node_cores c)"
    and spm: "spells toks (pos + length (node_cores c)) (more_cores (joiner comb) (map node_cores cs))"
    using sp by (simp_all add: spells_append)
  show ?thesis
  proof (cases comb)
    case AndC
    obtain k where k: "m = Suc k" using n m by (cases m) auto
    have "parse_at k At_Term toks pos = Return (c, pos + length (node_cores c))"
      using reads [of c] spc n m k unfolding reads_def by simp
    moreover have "parse_at k (At_And_Loop [c]) toks (pos + length (node_cores c)) =
        Return (if length ([c] @ cs) = 1 then hd ([c] @ cs) else and_node ([c] @ cs), pos')"
    proof (rule and_loop_cores)
      have "3 * length (more_cores (joiner comb) (map node_cores cs)) + 3 * length (node_cores c) + 1 < n"
        using n by simp
      then show "3 * length (more_cores (kw K_AND ''AND'') (map node_cores cs)) < k"
        using node_cores_pos [of c] m k AndC
        by (cases "length (node_cores c)") (simp_all add: joiner_def)
    qed (use reads spm pos' follow AndC in \<open>auto simp: joiner_def\<close>)
    ultimately have "parse_at m At_And toks pos = Return (if cs = [] then c else GroupNode AndC (c # cs), pos')"
      unfolding k by (simp add: and_node_def)
    moreover have "parse_at m (At_Or_Loop [x]) toks pos' = Return (x, pos')" for x
      using or_loop_cores [of "[]" toks pos' pos' m "[x]"] follow n m by (simp add: more_cores_def)
    ultimately show ?thesis unfolding m AndC by simp
  next
    case OrC
    have "ends_and (peek toks (pos + length (node_cores c)))"
    proof (cases cs)
      case Nil
      then show ?thesis using pos' follow by (simp add: more_cores_def)
    next
      case (Cons d ds)
      with spm OrC show ?thesis by (auto simp: joiner_def more_cores_Cons ends_and_def peek_keyword)
    qed
    then have "parse_at m At_And toks pos = Return (c, pos + length (node_cores c))"
      using reads spc n m by (intro and_single) auto
    moreover have "parse_at m (At_Or_Loop [c]) toks (pos + length (node_cores c)) =
        Return (if length ([c] @ cs) = 1 then hd ([c] @ cs) else or_node ([c] @ cs), pos')"
    proof (rule or_loop_cores)
      have "3 * length (more_cores (joiner comb) (map node_cores cs)) + 3 * length (node_cores c) + 1 < n"
        using n by simp
      then show "3 * length (more_cores (kw K_OR ''OR'') (map node_cores cs)) < m"
        using node_cores_pos [of c] m OrC unfolding joiner_def by simp
    qed (use reads spm pos' follow OrC in \<open>auto simp: joiner_def\<close>)
    ultimately show ?thesis unfolding m OrC by (simp add: or_node_def)
  qed
qed

lemma reads_canonical: "canonical node \<Longrightarrow> reads node"
proof (induction node)
  case (ComparisonNode field operator v)
  show ?case unfolding reads_def
  proof (intro allI impI)
    fix n toks pos
    let ?cs = "node_cores (ComparisonNode field operator v)"
    assume sp: "spells toks pos ?cs" and fuel: "3 * length ?cs \<le> n"
    then obtain m where m: "n = Suc m" by (cases n) auto
    have "tok_kind (peek toks pos) = KIdent" using sp by (auto dest!: peek_core)
    moreover have "parseAtom m toks pos = Return (ComparisonNode field operator v, pos + length ?cs)"
      using ComparisonNode sp fuel m by (intro parseAtom_cores) auto
    ultimately show "parse_at n At_Term toks pos = Return (ComparisonNode field operator v, pos + length ?cs)"
      unfolding m by (simp add: Let_def is_keyword_def)
  qed
next
  case (NotNode c)
  then have c: "reads c" by simp
  show ?case unfolding reads_def
  proof (intro allI impI)
    fix n toks pos
    assume sp: "spells toks pos (node_cores (NotNode c))" and fuel: "3 * length (node_cores (NotNode c)) \<le> n"
    then obtain m where m: "n = Suc m" by (cases n) auto
    have "is_keyword (peek toks pos) K_NOT" using sp peek_keyword by auto
    moreover have "parse_at m At_Term toks (pos + 1) = Return (c, pos + 1 + length (node_cores c))"
      using c sp fuel m unfolding reads_def by simp
    ultimately show "parse_at n At_Term toks pos = Return (NotNode c, pos + length (node_cores (NotNode c)))"
      unfolding m by (simp add: Let_def not_node_def)
  qed
next
  case (GroupNode comb cs)
  show ?case unfolding reads_def
  proof (intro allI impI)
    fix n toks pos
    let ?cs = "node_cores (GroupNode comb cs)"
    assume sp: "spells toks pos ?cs" and fuel: "3 * length ?cs \<le> n"
    then obtain m where m: "n = Suc m" by (cases n) auto
    have open_paren: "tok_kind (peek toks pos) = KLparen" using sp by (auto dest!: peek_core)
    show "parse_at n At_Term toks pos = Return (GroupNode comb cs, pos + length ?cs)"
    proof (cases cs)
      case Nil
      then have "tok_kind (peek toks (pos + 1)) = KRparen" using sp by (auto dest!: peek_core)
      then show ?thesis using open_paren Nil GroupNode.prems unfolding m
        by (simp add: Let_def is_keyword_def)
    next
      case (Cons c ds)
      let ?in = "node_cores c @ more_cores (joiner comb) (map node_cores ds)"
      have inner: "spells toks (pos + 1) ?in" "spells toks (pos + 1 + length ?in) [rparen]"
        using sp Cons by (simp_all add: spells_append add.assoc)
      have close: "tok_kind (peek toks (pos + 1 + length ?in)) = KRparen"
        using inner(2) by (auto dest!: peek_core)
      have first: "tok_kind (peek toks (pos + 1)) \<noteq> KRparen"
        using node_cores_start [of toks "pos + 1" c] inner(1) by (auto simp: spells_append is_keyword_def)
      have "parse_at m At_Or toks (pos + 1) =
          Return (if ds = [] then c else GroupNode comb (c # ds), pos + 1 + length ?in)"
        using GroupNode Cons inner(1) close fuel m
        by (intro or_joined) (auto simp: list_all_iff ends_and_def is_keyword_def)
      moreover have "close_group toks (if ds = [] then c else GroupNode comb (c # ds)) (pos + 1 + length ?in) =
          Return (GroupNode comb cs, pos + 1 + length ?in + 1)"
        using close GroupNode.prems Cons
        by (cases c) (auto simp: close_group_def Let_def is_keyword_def)
      ultimately show ?thesis
        using open_paren first Cons unfolding m by (simp add: Let_def is_keyword_def)
    qed
  qed
qed

section \<open>Text and back\<close>

lemma spells_prefix: "map core us = cs \<Longrightarrow> spells (ts @ us @ vs) (length ts) cs"
proof (induction us arbitrary: ts cs)
  case (Cons u us)
  have "spells ((ts @ [u]) @ us @ vs) (length (ts @ [u])) (map core us)" by (rule Cons.IH) simp
  with Cons.prems show ?case by (auto simp: nth_append)
qed simp

lemma tokenize_node:
  assumes "canonical n"
  obtains ts where "tokenize (emit n) = (ts @ [push KEof (length (emit n)) [] None None], [])"
    "map core ts = node_cores n"
proof -
  have "stop []" by (simp add: stop_def)
  then obtain ts where "lex_loop 0 (emit n @ []) =
      (ts @ fst (lex_loop (0 + length (emit n)) []), snd (lex_loop (0 + length (emit n)) []))"
    "map core ts = node_cores n"
    using lexes_node [OF assms] unfolding lexes_def by blast
  with that show thesis by (simp add: tokenize_def)
qed

lemma parse_emit:
  assumes "canonical n"
  shows "parse (emit n) = Some (ParseOk (Some n) None)"
proof -
  obtain ts where tok: "tokenize (emit n) = (ts @ [push KEof (length (emit n)) [] None None], [])"
    and cores: "map core ts = node_cores n" using tokenize_node [OF assms] .
  define toks where "toks = ts @ [push KEof (length (emit n)) [] None None]"
  have len: "length ts = length (node_cores n)" using cores by (metis length_map)
  have sp: "spells toks 0 (node_cores n)"
    using spells_prefix [OF cores, of "[]"] by (simp add: toks_def)
  have eof: "tok_kind (peek toks (length (node_cores n))) = KEof"
    by (simp add: toks_def peek_def len [symmetric] nth_append push_def)
  have no_kw: "\<not> is_keyword (peek toks (length (node_cores n))) k" for k
    using eof by (simp add: is_keyword_def)
  have first: "tok_kind (peek toks 0) \<noteq> KEof" "\<not> is_keyword (peek toks 0) K_ORDER"
    using node_cores_start [OF sp] by (auto simp: is_keyword_def)
  have "parse_at (parse_fuel toks) At_Or toks 0 = Return (if [] = [] then n else GroupNode AndC [n], length (node_cores n))"
    using or_joined [of n "[]" toks 0 AndC "length (node_cores n)" "parse_fuel toks"]
      reads_canonical [OF assms] sp eof no_kw len
    by (auto simp: more_cores_def parse_fuel_def toks_def ends_and_def)
  then have "run_parser (parse_fuel toks) toks = Return (ParseOk (Some n) None)"
    using first eof no_kw by (simp add: run_parser_def parseOrderBy_def)
  then show ?thesis unfolding parse_def tok toks_def [symmetric] by simp
qed

end
