(* ===== verification/Filter_Fields.thy ===== *)
theory Filter_Fields
  imports Filter_Ast
begin

text \<open>
  The field whitelist, \<open>packages/filter/src/fields.ts\<close>: which names each resource may be filtered
  by, the SQL expression behind each, its type and its operators.
\<close>

datatype FieldType = TText | TNumber | TDate | TBoolean | TUuid | TUuidArray | TEnum

fun type_name :: "FieldType \<Rightarrow> string" where
  "type_name TText = ''text''"
| "type_name TNumber = ''number''"
| "type_name TDate = ''date''"
| "type_name TBoolean = ''boolean''"
| "type_name TUuid = ''uuid''"
| "type_name TUuidArray = ''uuid_array''"
| "type_name TEnum = ''enum''"

record FieldDefinition =
  fld_name :: string
  fld_type :: FieldType
  fld_sql :: "string option"
  fld_operators :: "Operator list option"
  fld_options :: "string list option"
  fld_acceptsMe :: "bool option"

text \<open>\<open>{ name, type, sql }\<close> with the optional members left out.\<close>

definition plain_field :: "string \<Rightarrow> FieldType \<Rightarrow> string option \<Rightarrow> FieldDefinition" where
  "plain_field name ty sql =
     \<lparr>fld_name = name, fld_type = ty, fld_sql = sql, fld_operators = None, fld_options = None,
      fld_acceptsMe = None\<rparr>"

fun OPERATORS_BY_TYPE :: "FieldType \<Rightarrow> Operator list" where
  "OPERATORS_BY_TYPE TText = [Eq, Neq, Contains, Is_Empty, Is_Not_Empty]"
| "OPERATORS_BY_TYPE TNumber = [Eq, Neq, Lt, Lte, Gt, Gte, Is_Empty, Is_Not_Empty]"
| "OPERATORS_BY_TYPE TDate = [Eq, Neq, Lt, Lte, Gt, Gte, Is_Empty, Is_Not_Empty]"
| "OPERATORS_BY_TYPE TBoolean = [Eq, Neq]"
| "OPERATORS_BY_TYPE TUuid = [Eq, Neq, In, Not_In, Is_Empty, Is_Not_Empty]"
| "OPERATORS_BY_TYPE TUuidArray = [In, Not_In, Is_Empty, Is_Not_Empty]"
| "OPERATORS_BY_TYPE TEnum = [Eq, Neq, In, Not_In, Is_Empty, Is_Not_Empty]"

definition CARD_FIELDS :: "FieldDefinition list" where
  "CARD_FIELDS =
    [plain_field ''title'' TText (Some ''work.cards.title''),
     plain_field ''description'' TText (Some ''work.cards.description_text''),
     plain_field ''list'' TUuid (Some ''work.cards.list_id''),
     plain_field ''status'' TUuid (Some ''work.cards.status_id''),
     (plain_field ''priority'' TEnum (Some ''work.cards.priority''))
       \<lparr>fld_options := Some [''urgent'', ''high'', ''normal'', ''low'']\<rparr>,
     plain_field ''board'' TUuid (Some ''work.cards.board_id''),
     plain_field ''project'' TUuid (Some ''work.cards.project_id''),
     plain_field ''number'' TNumber (Some ''work.cards.number''),
     (plain_field ''assignee'' TUuidArray (Some ''work.cards.assignee_ids''))
       \<lparr>fld_acceptsMe := Some True\<rparr>,
     (plain_field ''creator'' TUuid (Some ''work.cards.created_by''))\<lparr>fld_acceptsMe := Some True\<rparr>,
     plain_field ''due'' TDate (Some ''work.cards.due_date''),
     plain_field ''start'' TDate (Some ''work.cards.start_date''),
     plain_field ''created'' TDate (Some ''work.cards.created_at''),
     plain_field ''updated'' TDate (Some ''work.cards.updated_at''),
     plain_field ''comments'' TNumber (Some ''work.cards.comment_count''),
     plain_field ''checklistDone'' TNumber (Some ''work.cards.checklist_done''),
     plain_field ''checklistTotal'' TNumber (Some ''work.cards.checklist_total''),
     plain_field ''archived'' TBoolean (Some ''(work.cards.archived_at IS NOT NULL)''),
     plain_field ''label'' TUuidArray
       (Some ''(SELECT array_agg(cl.label_id) FROM work.card_labels cl WHERE cl.card_id = work.cards.id)'')]"

definition SEARCH_FIELDS :: "FieldDefinition list" where
  "SEARCH_FIELDS =
    [(plain_field ''type'' TEnum (Some ''search.documents.entity_type''))
       \<lparr>fld_options := Some [''card'', ''message'', ''page'', ''comment'', ''transcript'']\<rparr>,
     plain_field ''title'' TText (Some ''search.documents.title''),
     plain_field ''text'' TText
       (Some (''coalesce(search.documents.title, '' @ [CHR 0x27, CHR 0x27] @ '') || '' @
              [CHR 0x27, CHR 0x20, CHR 0x27] @ '' || coalesce(search.documents.body, '' @
              [CHR 0x27, CHR 0x27] @ '')'')),
     (plain_field ''author'' TUuid (Some ''search.documents.author_id''))
       \<lparr>fld_acceptsMe := Some True\<rparr>,
     plain_field ''updated'' TDate (Some ''search.documents.updated_at''),
     plain_field ''created'' TDate (Some ''search.documents.created_at''),
     plain_field ''archived'' TBoolean (Some ''search.documents.archived'')]"

definition CONNECTOR_OPERATORS :: "Operator list" where
  "CONNECTOR_OPERATORS = [Eq, Neq, In, Not_In, Contains]"

definition CONNECTOR_FIELDS :: "FieldDefinition list" where
  "CONNECTOR_FIELDS =
    [(plain_field ''provider_event'' TText None)\<lparr>fld_operators := Some CONNECTOR_OPERATORS\<rparr>,
     (plain_field ''provider_scope'' TText None)\<lparr>fld_operators := Some CONNECTOR_OPERATORS\<rparr>]"

datatype Resource = Card | Search | Connector

fun resource_name :: "Resource \<Rightarrow> string" where
  "resource_name Card = ''card''"
| "resource_name Search = ''search''"
| "resource_name Connector = ''connector''"

text \<open>\<open>new Map(fields.map((field) => [field.name, field]))\<close>, in insertion order.\<close>

fun FIELD_SETS :: "Resource \<Rightarrow> (string \<times> FieldDefinition) list" where
  "FIELD_SETS Card = map (\<lambda>f. (fld_name f, f)) CARD_FIELDS"
| "FIELD_SETS Search = map (\<lambda>f. (fld_name f, f)) SEARCH_FIELDS"
| "FIELD_SETS Connector = map (\<lambda>f. (fld_name f, f)) CONNECTOR_FIELDS"

definition CONNECTOR_TRIGGERS :: "string list" where
  "CONNECTOR_TRIGGERS = [''integration.slack_event'', ''integration.github_event'']"

definition resourceForTrigger :: "string \<Rightarrow> Resource" where
  "resourceForTrigger triggerEvent =
     (if triggerEvent \<in> set CONNECTOR_TRIGGERS then Connector else Card)"

definition findField :: "Resource \<Rightarrow> string \<Rightarrow> FieldDefinition option" where
  "findField resource name = map_of (FIELD_SETS resource) name"

definition fieldsOf :: "Resource \<Rightarrow> FieldDefinition list" where
  "fieldsOf resource = map snd (FIELD_SETS resource)"

definition operatorsFor :: "FieldDefinition \<Rightarrow> Operator list" where
  "operatorsFor field =
     (case fld_operators field of Some ops \<Rightarrow> ops | None \<Rightarrow> OPERATORS_BY_TYPE (fld_type field))"

definition supportsOperator :: "FieldDefinition \<Rightarrow> Operator \<Rightarrow> bool" where
  "supportsOperator field operator = (operator \<in> set (operatorsFor field))"

end
