(* ===== verification/Tql_Correct.thy ===== *)
theory Tql_Correct
  imports Tql_Trees Filter_Fields
begin

text \<open>
  The properties of TQL: parsing always answers, token positions are exact, and the formatter and
  the parser are inverse on canonical trees, which include every tree over the whitelisted fields
  with well-shaped values and the groups the text can express.
\<close>

section \<open>Parsing always answers\<close>

lemma parseOrderBy_result:
  assumes "sentinel toks"
  shows "advances 0 toks pos (parseOrderBy toks pos)"
  using assms by (simp add: parseOrderBy_def Let_def)

definition located :: "Token list \<Rightarrow> (parse_failure, 'a) result \<Rightarrow> bool" where
  "located toks r \<longleftrightarrow>
     (case r of
        Inr _ \<Rightarrow> True
      | Inl OutOfFuel \<Rightarrow> False
      | Inl (Failure e) \<Rightarrow> \<exists>t \<in> set toks. tql_offset e = tok_offset t \<and> tql_length e = tok_length t)"

lemma located_advances: "advances k toks pos r \<Longrightarrow> located toks r"
  by (auto simp: advances_def located_def split: sum.split parse_failure.split)

lemma located_bind: "located toks r \<Longrightarrow> (\<And>a. located toks (f a)) \<Longrightarrow> located toks (bind_result r f)"
  by (cases r) (auto simp: located_def split: sum.splits parse_failure.splits)

lemma located_simps [simp]:
  "located toks (Inr a)" "t \<in> set toks \<Longrightarrow> located toks (Inl (failure t m))"
  by (auto simp: located_def failure_def)

lemma run_parser_located:
  assumes "sentinel toks"
  shows "located toks (run_parser (parse_fuel toks) toks)"
proof -
  have "located toks (parseOr (parse_fuel toks) toks 0)"
    using parse_at_advances [of toks At_Or 0 "parse_fuel toks"] assms
    by (intro located_advances [where k = 1 and pos = 0]) (simp add: parse_fuel_def)
  moreover have "located toks (parseOrderBy toks pos)" for pos
    using parseOrderBy_result [OF assms] by (rule located_advances)
  ultimately show ?thesis
    using assms unfolding run_parser_def Let_def
    by (auto intro!: located_bind split: prod.split)
qed

lemma run_parser_ok: "run_parser n toks = Inr r \<Longrightarrow> \<exists>f ob. r = ParseOk f ob"
  by (auto simp: run_parser_def Let_def split: if_splits)

lemma tokenize_positions_spec:
  assumes "tokenize s = (ts, es)"
  shows "\<forall>t \<in> set ts. slice_of 0 s t" "sorted_wrt before ts" "\<forall>e \<in> set es. error_in 0 s e" "sentinel ts"
  using lex_loop_positions [of 0 s ts es] assms by (auto simp: tokenize_def)

definition error_within :: "string \<Rightarrow> TqlError \<Rightarrow> bool" where
  "error_within s e \<longleftrightarrow> tql_offset e + tql_length e \<le> length s"

lemma parse_answers:
  "\<exists>r. parse s = Some r \<and>
     (case r of ParseOk _ _ \<Rightarrow> True | ParseErrors es \<Rightarrow> es \<noteq> [] \<and> list_all (error_within s) es)"
proof -
  obtain toks errs where tok: "tokenize s = (toks, errs)" by (cases "tokenize s")
  note pos = tokenize_positions_spec [OF tok]
  show ?thesis
  proof (cases "errs = []")
    case False
    then show ?thesis using tok pos(3)
      by (auto simp: parse_def list_all_iff error_within_def error_in_def)
  next
    case True
    have "located toks (run_parser (parse_fuel toks) toks)" by (rule run_parser_located [OF pos(4)])
    then show ?thesis using tok True pos(1) run_parser_ok [of "parse_fuel toks" toks]
      by (fastforce simp: parse_def located_def error_within_def slice_of_def
          split: sum.splits parse_failure.splits)
  qed
qed

section \<open>The whitelisted fields can be written\<close>

lemma whitelisted_names:
  "list_all (\<lambda>f. plain_word (fld_name f)) (CARD_FIELDS @ SEARCH_FIELDS @ CONNECTOR_FIELDS)"
  by code_simp

lemma findField_plain: "findField resource name = Some f \<Longrightarrow> plain_word name"
  using whitelisted_names
  by (cases resource) (auto simp: findField_def list_all_iff dest!: map_of_SomeD)

section \<open>Properties\<close>

text \<open>C11: \<open>parse\<close> answers every input: a result (its recursion always ends within the fuel the model
  gives it), and when that is a list of errors, there is at least one and each marks a range of the
  input.\<close>

theorem parse_always_answers:
  "\<exists>r. parse s = Some r \<and>
     (case r of ParseOk _ _ \<Rightarrow> True | ParseErrors es \<Rightarrow> es \<noteq> [] \<and> list_all (error_within s) es)"
  by (rule parse_answers)

text \<open>Tokens say where they stand. Each carries exactly the characters of the source its offset and
  length mark, they follow one another without overlap, only the last is the end-of-input token, and
  every lexical error lies inside the source.\<close>

theorem tokenize_positions:
  "case tokenize s of (toks, errs) \<Rightarrow>
     list_all (slice_of 0 s) toks \<and>
     sorted_wrt (\<lambda>t u. tok_offset t + tok_length t \<le> tok_offset u) toks \<and>
     toks \<noteq> [] \<and> tok_kind (last toks) = KEof \<and>
     list_all (\<lambda>t. tok_kind t \<noteq> KEof) (butlast toks) \<and> list_all (error_in 0 s) errs"
  using lex_loop_positions [of 0 s]
  by (auto simp: tokenize_def list_all_iff sentinel_def split: prod.split)

text \<open>C10: the round trip of \<open>format\<close> and \<open>parse\<close>. Formatting a canonical tree and parsing the text gives
  the same tree, values included, with no ordering clause. Canonical trees have field names that are
  plain words, values that fit their operator, numbers that print without an exponent, and groups
  other than an \<open>OR\<close> of fewer than two children or an \<open>AND\<close> of exactly one group.\<close>

theorem format_parse_roundtrip:
  assumes "canonical node"
  shows "parse (format (Some node)) = Some (ParseOk (Some node) None)"
  using parse_emit [OF assms] by (simp add: format_def)

definition example_tree :: FilterNode where
  "example_tree = GroupNode AndC
     [ComparisonNode ''title'' Contains (Some (Scalar (FString ''true''))),
      NotNode (GroupNode OrC
        [ComparisonNode ''assignee'' In (Some (ListOf [FString ME, FString ''a b''])),
         ComparisonNode ''number'' Gte (Some (Scalar (FNumber (Num 35 (- 1))))),
         ComparisonNode ''due'' Is_Not_Empty None])]"

theorem format_parse_roundtrip_witness:
  "parse (format (Some example_tree)) = Some (ParseOk (Some example_tree) None)"
proof (rule format_parse_roundtrip)
  show "canonical example_tree" by code_simp
qed

text \<open>Every field of every resource has a name the text can carry: it is a plain word, no keyword in
  any letter case, so a comparison on it with a fitting printable value survives the round trip.\<close>

theorem whitelisted_comparison_roundtrip:
  assumes "findField resource name = Some f" and "value_shape_ok operator v"
    and "list_all value_ok (values_of v)"
  shows "parse (format (Some (ComparisonNode name operator v))) =
     Some (ParseOk (Some (ComparisonNode name operator v)) None)"
  using parse_emit [of "ComparisonNode name operator v"] findField_plain [OF assms(1)] assms(2,3)
  by (simp add: format_def)

theorem whitelisted_comparison_roundtrip_witness:
  "parse (format (Some (ComparisonNode ''checklistDone'' Lt (Some (Scalar (FNumber (Num 5 0))))))) =
     Some (ParseOk (Some (ComparisonNode ''checklistDone'' Lt (Some (Scalar (FNumber (Num 5 0)))))) None)"
proof -
  have "findField Card ''checklistDone'' =
      Some (plain_field ''checklistDone'' TNumber (Some ''work.cards.checklist_done''))"
    by code_simp
  then show ?thesis
    by (rule whitelisted_comparison_roundtrip) code_simp+
qed

section \<open>What the round trip excludes, and a decimal month\<close>

text \<open>A number \<open>String(n)\<close> prints with an exponent is outside the round trip: \<open>1e+21\<close> lexes as the number
  1, the word \<open>e\<close> and the number 21.\<close>

lemma exponent_breaks_roundtrip:
  "parse (format (Some (ComparisonNode ''number'' Eq (Some (Scalar (FNumber (Num 1 21))))))) \<noteq>
     Some (ParseOk (Some (ComparisonNode ''number'' Eq (Some (Scalar (FNumber (Num 1 21)))))) None)"
  by code_simp

text \<open>The comment of \<open>scanNumber\<close> refuses a decimal before a unit, but its test for \<open>mo\<close> does not
  look at the decimal point: \<open>7.5mo\<close> is one relative-date token and no error, \<open>7.5d\<close> is an error.\<close>

lemma decimal_months_accepted:
  "map tok_kind (fst (tokenize ''7.5mo'')) = [KRelative, KEof] \<and> snd (tokenize ''7.5mo'') = [] \<and>
   snd (tokenize ''7.5d'') \<noteq> []"
  by code_simp

end
