(* ===== verification/Tree_Walk.thy ===== *)
theory Tree_Walk
  imports Prelude
begin

text \<open>
  The walk that measures an untrusted tree: a loop over an explicit stack that counts nodes and levels and
  stops at the first limit it passes. \<open>packages/filter/src/ast.ts\<close> and \<open>apps/api/src/work/richtext.ts\<close> both
  have one. The interface is the equations of the loop and of the two sizes; the result is that the loop
  decides the limits exactly.
\<close>

lemma fold_max_le: "fold max xs (a :: nat) \<le> k \<longleftrightarrow> a \<le> k \<and> (\<forall>x \<in> set xs. x \<le> k)"
  by (induction xs arbitrary: a) auto

locale bounded_walk =
  fixes kids :: "'n \<Rightarrow> 'n list"
    and count :: "'n \<Rightarrow> nat"
    and depth :: "'n \<Rightarrow> nat"
    and max_nodes :: nat
    and max_depth :: nat
    and loop :: "('n \<times> nat) list \<Rightarrow> nat \<Rightarrow> nat \<Rightarrow> nat \<times> nat"
  assumes count_kids: "count n = Suc (sum_list (map count (kids n)))"
    and depth_kids: "depth n = Suc (fold max (map depth (kids n)) 0)"
    and loop_Nil: "loop [] nodes deep = (nodes, deep)"
    and loop_Cons: "loop ((n, level) # rest) nodes deep =
          (let deep' = (if level > deep then level else deep) in
           if nodes + 1 > max_nodes \<or> deep' > max_depth then (nodes + 1, deep')
           else loop (rev (map (\<lambda>c. (c, level + 1)) (kids n)) @ rest) (nodes + 1) deep')"
begin

definition within_limits :: "nat \<times> nat \<Rightarrow> bool" where
  "within_limits m \<longleftrightarrow> fst m \<le> max_nodes \<and> snd m \<le> max_depth"

definition total :: "('n \<times> nat) list \<Rightarrow> nat" where
  "total stack = sum_list (map (count \<circ> fst) stack)"

definition reach_le :: "('n \<times> nat) list \<Rightarrow> nat \<Rightarrow> bool" where
  "reach_le stack k \<longleftrightarrow> (\<forall>p \<in> set stack. snd p + depth (fst p) \<le> Suc k)"

lemma level_le:
  "l + depth n \<le> Suc k \<longleftrightarrow> l \<le> k \<and> (\<forall>c \<in> set (kids n). Suc l + depth c \<le> Suc k)"
proof (cases "l \<le> k")
  case True
  then have "l + depth n \<le> Suc k \<longleftrightarrow> fold max (map depth (kids n)) 0 \<le> k - l"
    using depth_kids [of n] by auto
  also have "\<dots> \<longleftrightarrow> (\<forall>c \<in> set (kids n). depth c \<le> k - l)" by (simp add: fold_max_le)
  also have "\<dots> \<longleftrightarrow> (\<forall>c \<in> set (kids n). Suc l + depth c \<le> Suc k)"
    using True by (auto simp: le_diff_conv2)
  finally show ?thesis using True by simp
next
  case False
  then show ?thesis using depth_kids [of n] by simp
qed

lemma total_step: "total (rev (map (\<lambda>c. (c, Suc l)) (kids n)) @ rest) + 1 = total ((n, l) # rest)"
  unfolding total_def using count_kids [of n]
  by (simp add: rev_map [symmetric] comp_def sum_list_rev)

lemma reach_step:
  "reach_le ((n, l) # rest) k \<longleftrightarrow> l \<le> k \<and> reach_le (rev (map (\<lambda>c. (c, Suc l)) (kids n)) @ rest) k"
proof -
  have "reach_le ((n, l) # rest) k \<longleftrightarrow> l + depth n \<le> Suc k \<and> reach_le rest k"
    by (simp add: reach_le_def)
  also have "\<dots> \<longleftrightarrow> l \<le> k \<and> (\<forall>c \<in> set (kids n). Suc l + depth c \<le> Suc k) \<and> reach_le rest k"
    by (simp only: level_le [of l n k] conj_assoc)
  also have "\<dots> \<longleftrightarrow> l \<le> k \<and> reach_le (rev (map (\<lambda>c. (c, Suc l)) (kids n)) @ rest) k"
    by (simp add: reach_le_def ball_Un)
  finally show ?thesis .
qed

lemma loop_spec:
  "nodes \<le> max_nodes \<Longrightarrow> deep \<le> max_depth \<Longrightarrow> loop stack nodes deep = r \<Longrightarrow>
   (within_limits r \<longleftrightarrow> nodes + total stack \<le> max_nodes \<and> reach_le stack max_depth) \<and>
   (within_limits r \<longrightarrow> fst r = nodes + total stack \<and>
      (\<forall>k. snd r \<le> k \<longleftrightarrow> deep \<le> k \<and> reach_le stack k))"
proof (induction "total stack" arbitrary: stack nodes deep rule: less_induct)
  case less
  show ?case
  proof (cases stack)
    case Nil
    then have "r = (nodes, deep)" using less by (simp add: loop_Nil)
    then show ?thesis using less Nil by (auto simp: within_limits_def total_def reach_le_def)
  next
    case (Cons p rest)
    obtain n level where p: "p = (n, level)" by (cases p)
    let ?deep = "if level > deep then level else deep"
    let ?stack = "rev (map (\<lambda>c. (c, level + 1)) (kids n)) @ rest"
    have total: "total stack = 1 + total ?stack"
      using total_step [of level n rest] by (simp add: Cons p)
    have reach: "reach_le stack k \<longleftrightarrow> level \<le> k \<and> reach_le ?stack k" for k
      using reach_step [of n level rest k] by (simp add: Cons p)
    show ?thesis
    proof (cases "nodes + 1 > max_nodes \<or> ?deep > max_depth")
      case True
      then have "r = (nodes + 1, ?deep)" using less Cons p by (simp add: loop_Cons Let_def)
      then show ?thesis using True less total reach [of max_depth]
        by (auto simp: within_limits_def split: if_splits)
    next
      case False
      then have r: "loop ?stack (nodes + 1) ?deep = r" using less Cons p by (simp add: loop_Cons Let_def)
      have IH: "(within_limits r \<longleftrightarrow> nodes + 1 + total ?stack \<le> max_nodes \<and> reach_le ?stack max_depth) \<and>
         (within_limits r \<longrightarrow> fst r = nodes + 1 + total ?stack \<and>
            (\<forall>k. snd r \<le> k \<longleftrightarrow> ?deep \<le> k \<and> reach_le ?stack k))"
        using less.hyps [OF _ _ _ r] False total by simp
      have d: "?deep \<le> k \<longleftrightarrow> deep \<le> k \<and> level \<le> k" for k by auto
      have low: "level \<le> max_depth" using False d [of max_depth] by auto
      have sum: "nodes + total stack = nodes + 1 + total ?stack" using total by simp
      show ?thesis using IH unfolding sum reach d using low by blast
    qed
  qed
qed

lemma walk_spec:
  "within_limits (loop [(root, 1)] 0 0) \<longleftrightarrow> count root \<le> max_nodes \<and> depth root \<le> max_depth"
  "within_limits (loop [(root, 1)] 0 0) \<Longrightarrow> loop [(root, 1)] 0 0 = (count root, depth root)"
proof -
  let ?r = "loop [(root, 1)] 0 0"
  have "reach_le [(root, 1)] k \<longleftrightarrow> depth root \<le> k" for k by (simp add: reach_le_def)
  moreover have "total [(root, 1)] = count root" by (simp add: total_def)
  ultimately have spec: "(within_limits ?r \<longleftrightarrow> count root \<le> max_nodes \<and> depth root \<le> max_depth) \<and>
     (within_limits ?r \<longrightarrow> fst ?r = count root \<and> (\<forall>k. snd ?r \<le> k \<longleftrightarrow> depth root \<le> k))"
    using loop_spec [of 0 0 "[(root, 1)]" ?r] by simp
  then show "within_limits ?r \<longleftrightarrow> count root \<le> max_nodes \<and> depth root \<le> max_depth" by blast
  assume "within_limits ?r"
  with spec have "fst ?r = count root" "snd ?r = depth root" by (auto intro: antisym)
  then show "?r = (count root, depth root)" by (simp add: prod_eq_iff)
qed

text \<open>The verdict of a caller that compares both numbers with the limits.\<close>

lemma verdict:
  "fst (loop [(root, 1)] 0 0) \<le> max_nodes \<and> snd (loop [(root, 1)] 0 0) \<le> max_depth \<longleftrightarrow>
   count root \<le> max_nodes \<and> depth root \<le> max_depth"
  using walk_spec(1) [of root] by (simp add: within_limits_def)

end

end
