(* ===== verification/Filter_Ast_Correct.thy ===== *)
theory Filter_Ast_Correct
  imports Filter_Ast Tree_Walk
begin

text \<open>
  What the filter schema guarantees: the iterative \<open>measure\<close> with its early exit decides the limits
  exactly, and \<open>FilterTree\<close> accepts the JSON form of exactly the well-shaped trees within them.
\<close>

section \<open>Measuring\<close>

interpretation walk: bounded_walk children_of node_count node_depth MAX_NODES MAX_DEPTH measure_loop
proof (unfold_locales, goal_cases)
  case (1 n) show ?case using node_count_children [of n] by (simp add: comp_def)
next
  case (2 n) show ?case by (cases n) simp_all
next
  case (3 nodes deep) show ?case by (simp add: measure_loop.simps)
next
  case (4 n level rest nodes deep) show ?case by (subst measure_loop.simps) (simp add: Let_def)
qed

lemma measure_tree_verdict:
  "fst (measure_tree root) \<le> MAX_NODES \<and> snd (measure_tree root) \<le> MAX_DEPTH \<longleftrightarrow>
   node_count root \<le> MAX_NODES \<and> node_depth root \<le> MAX_DEPTH"
  using walk.verdict [of root] by (simp add: measure_tree_def)

section \<open>The schema\<close>

fun literal_ok :: "FilterValue \<Rightarrow> bool" where
  "literal_ok (FString s) = (length s \<le> 500)"
| "literal_ok (FNumber n) = normal n"
| "literal_ok _ = True"

fun literals_ok :: "node_value option \<Rightarrow> bool" where
  "literals_ok None = True"
| "literals_ok (Some (Scalar v)) = literal_ok v"
| "literals_ok (Some (ListOf vs)) = (length vs \<le> MAX_LIST_LENGTH \<and> list_all literal_ok vs)"

fun shape_ok :: "FilterNode \<Rightarrow> bool" where
  "shape_ok (ComparisonNode field operator v) =
     (field \<noteq> [] \<and> length field \<le> 80 \<and> value_shape_ok operator v \<and> literals_ok v)"
| "shape_ok (GroupNode _ cs) = (length cs \<le> MAX_NODES \<and> list_all shape_ok cs)"
| "shape_ok (NotNode c) = shape_ok c"

text \<open>The JSON a client sends for a tree.\<close>

fun literal_json :: "FilterValue \<Rightarrow> json" where
  "literal_json (FString s) = JStr s"
| "literal_json (FNumber (Num m e)) = JNum m e"
| "literal_json (FBool b) = JBool b"
| "literal_json FNull = JNull"

fun value_json :: "node_value option \<Rightarrow> (string \<times> json) list" where
  "value_json None = []"
| "value_json (Some (Scalar v)) = [(''value'', literal_json v)]"
| "value_json (Some (ListOf vs)) = [(''value'', JArr (map literal_json vs))]"

fun node_json :: "FilterNode \<Rightarrow> json" where
  "node_json (ComparisonNode field operator v) =
     JObj ([(''kind'', JStr ''comparison''), (''field'', JStr field),
            (''operator'', JStr (operator_name operator))] @ value_json v)"
| "node_json (GroupNode comb cs) =
     JObj [(''kind'', JStr ''group''), (''combinator'', JStr (if comb = AndC then ''and'' else ''or'')),
           (''children'', JArr (map node_json cs))]"
| "node_json (NotNode c) = JObj [(''kind'', JStr ''not''), (''child'', node_json c)]"

lemma decode_literal: "literal_ok v \<Longrightarrow> decode_value (literal_json v) = Some v"
proof (cases v)
  case (FNumber n)
  moreover assume "literal_ok v"
  ultimately show ?thesis by (cases n) (simp add: normalise_normal del: normal.simps)
qed auto

lemma decode_value_ok: "decode_value j = Some v \<Longrightarrow> literal_ok v"
  by (cases j) (auto simp: normal_normalise split: if_splits)

lemma all_some_map: "(\<And>x. x \<in> set xs \<Longrightarrow> f (g x) = Some x) \<Longrightarrow> all_some (map f (map g xs)) = Some xs"
  by (induction xs) auto

lemma all_some_Some: "all_some xs = Some ys \<Longrightarrow> xs = map Some ys"
proof (induction xs arbitrary: ys)
  case (Cons x xs)
  then show ?case by (cases x) (auto split: option.splits)
qed auto

lemma all_some_length: "all_some xs = Some ys \<Longrightarrow> length ys = length xs"
  using all_some_Some [of xs ys] by simp

lemma all_some_elem: "all_some (map f xs) = Some ys \<Longrightarrow> y \<in> set ys \<Longrightarrow> \<exists>x \<in> set xs. f x = Some y"
  using all_some_Some [of "map f xs" ys] by (metis image_iff image_set)

lemma decode_operator_name: "decode_operator (JStr (operator_name oper)) = Some oper"
  by (cases oper) (simp_all add: decode_operator_def OPERATORS_def)

lemma decode_list: "list_all literal_ok vs \<Longrightarrow> all_some (map (decode_value \<circ> literal_json) vs) = Some vs"
  using all_some_map [of vs decode_value literal_json] by (simp add: list_all_iff decode_literal)

lemma decode_scalar: "literal_ok v \<Longrightarrow> decode_node_value (literal_json v) = Some (Scalar v)"
  using decode_literal [of v] by (cases v rule: literal_json.cases) auto

lemma ComparisonSchema_json:
  assumes "shape_ok (ComparisonNode field operator v)"
  shows "ComparisonSchema (node_json (ComparisonNode field operator v)) = Some (ComparisonNode field operator v)"
proof (cases v)
  case None
  with assms show ?thesis
    by (simp add: ComparisonSchema_def only_keys_def decode_operator_name)
next
  case (Some nv)
  show ?thesis
  proof (cases nv)
    case (Scalar x)
    with assms Some show ?thesis
      by (simp add: ComparisonSchema_def only_keys_def decode_operator_name decode_scalar)
  next
    case (ListOf vs)
    with assms Some show ?thesis
      by (simp add: ComparisonSchema_def only_keys_def decode_operator_name decode_list)
  qed
qed

lemma FilterNodeSchema_json: "shape_ok n \<Longrightarrow> FilterNodeSchema (node_json n) = Some n"
proof (induction n)
  case (ComparisonNode field operator v)
  then show ?case
    using ComparisonSchema_json by (subst FilterNodeSchema.simps) simp
next
  case (GroupNode comb cs)
  have "all_some (map (FilterNodeSchema \<circ> node_json) cs) = Some cs"
    using all_some_map [of cs FilterNodeSchema node_json] GroupNode by (simp add: list_all_iff)
  moreover have "ComparisonSchema (node_json (GroupNode comb cs)) = None"
    by (simp add: ComparisonSchema_def)
  ultimately show ?case
    using GroupNode.prems by (subst FilterNodeSchema.simps) (cases comb; simp add: only_keys_def)
next
  case (NotNode c)
  have "ComparisonSchema (node_json (NotNode c)) = None" by (simp add: ComparisonSchema_def)
  with NotNode show ?case by (subst FilterNodeSchema.simps) (simp add: only_keys_def)
qed

lemma decode_node_value_ok:
  assumes "decode_node_value j = Some v"
  shows "literals_ok (Some v)"
proof (cases j)
  case (JArr js)
  with assms obtain vs where v: "v = ListOf vs" "all_some (map decode_value js) = Some vs"
    "length js \<le> MAX_LIST_LENGTH"
    by (auto split: if_splits)
  then have "literal_ok x" if "x \<in> set vs" for x
    using all_some_elem [OF v(2) that] decode_value_ok by blast
  with v all_some_length [OF v(2)] show ?thesis by (simp add: list_all_iff)
qed (use assms decode_value_ok in \<open>auto simp: normal_normalise split: if_splits\<close>)

lemma ComparisonSchema_ok: "ComparisonSchema j = Some n \<Longrightarrow> shape_ok n"
  using decode_node_value_ok
  by (auto simp: ComparisonSchema_def not_less Suc_le_eq
      split: if_splits option.splits json.splits)

lemma FilterNodeSchema_ok: "FilterNodeSchema j = Some n \<Longrightarrow> shape_ok n"
proof (induction j arbitrary: n rule: FilterNodeSchema.induct)
  case (1 j)
  show ?case
  proof (cases "ComparisonSchema j")
    case (Some m)
    with 1(3) show ?thesis using ComparisonSchema_ok by (subst (asm) FilterNodeSchema.simps) auto
  next
    case None
    show ?thesis
    proof (cases "json_field ''kind'' j = Some (JStr ''group'')")
      case True
      then obtain cs ns comb where cs: "json_field ''children'' j = Some (JArr cs)"
        "length cs \<le> MAX_NODES" "all_some (map FilterNodeSchema cs) = Some ns" "n = GroupNode comb ns"
        "only_keys [''kind'', ''combinator'', ''children''] j"
        using 1(3) None
        by (subst (asm) FilterNodeSchema.simps)
          (auto split: if_splits option.splits json.splits)
      have "shape_ok x" if x: "x \<in> set ns" for x
      proof -
        obtain c where "c \<in> set cs" "FilterNodeSchema c = Some x"
          using all_some_elem [OF cs(3) x] by blast
        then show ?thesis using 1(1) None True cs by auto
      qed
      then show ?thesis using cs all_some_length [OF cs(3)] by (simp add: list_all_iff)
    next
      case False
      then obtain c m where c: "json_field ''kind'' j = Some (JStr ''not'')"
        "only_keys [''kind'', ''child''] j" "json_field ''child'' j = Some c"
        "FilterNodeSchema c = Some m" "n = NotNode m"
        using 1(3) None
        by (subst (asm) FilterNodeSchema.simps) (auto split: if_splits option.splits)
      then show ?thesis using 1(2) None False by auto
    qed
  qed
qed

lemma FilterTree_iff:
  "FilterTree j = Some n \<longleftrightarrow> FilterNodeSchema j = Some n \<and> node_count n \<le> MAX_NODES \<and> node_depth n \<le> MAX_DEPTH"
proof -
  have "(case measure_tree m of (nodes, depth) \<Rightarrow>
      if depth > MAX_DEPTH then None else if nodes > MAX_NODES then None else Some m) =
      (if node_count m \<le> MAX_NODES \<and> node_depth m \<le> MAX_DEPTH then Some m else None)" for m
    using measure_tree_verdict [of m] by (cases "measure_tree m") auto
  then show ?thesis by (cases "FilterNodeSchema j") (auto simp: FilterTree_def)
qed

section \<open>Properties\<close>

text \<open>\<open>measure\<close>, which walks with an explicit stack and stops at the first limit it passes, is
  within the limits exactly when the number of nodes and the depth of the tree are, and then it
  returns exactly those two numbers.\<close>

theorem measure_exact:
  "(fst (measure_tree root) \<le> MAX_NODES \<and> snd (measure_tree root) \<le> MAX_DEPTH \<longleftrightarrow>
      node_count root \<le> MAX_NODES \<and> node_depth root \<le> MAX_DEPTH) \<and>
   (node_count root \<le> MAX_NODES \<and> node_depth root \<le> MAX_DEPTH \<longrightarrow>
      measure_tree root = (node_count root, node_depth root))"
  using measure_tree_verdict [of root] walk.walk_spec [of root] by (auto simp: measure_tree_def walk.within_limits_def)

theorem measure_exact_witness:
  "measure_tree (NotNode (GroupNode OrC [ComparisonNode ''due'' Is_Empty None,
     ComparisonNode ''list'' Is_Empty None])) = (4, 3)"
proof -
  let ?n = "NotNode (GroupNode OrC [ComparisonNode ''due'' Is_Empty None,
     ComparisonNode ''list'' Is_Empty None])"
  have "node_count ?n = 4" "node_depth ?n = 3" "node_count ?n \<le> MAX_NODES" "node_depth ?n \<le> MAX_DEPTH"
    by (simp_all add: MAX_NODES_def MAX_DEPTH_def)
  with measure_exact [of ?n] show ?thesis by simp
qed

text \<open>C12: the wire schema accepts exactly the well-shaped trees within the limits: it reads back the
  JSON of each of them as that tree, and whatever JSON it accepts, the tree it returns is one of
  them. Well-shaped: field names of 1 to 80 characters, a value exactly when the operator takes one
  and a list exactly when it takes a list, bounded strings and lists.\<close>

theorem FilterTree_accepts_exactly:
  "(shape_ok n \<and> node_count n \<le> MAX_NODES \<and> node_depth n \<le> MAX_DEPTH) =
     (FilterTree (node_json n) = Some n) \<and>
   ((\<exists>j. FilterTree j = Some n) =
     (shape_ok n \<and> node_count n \<le> MAX_NODES \<and> node_depth n \<le> MAX_DEPTH))"
  using FilterTree_iff FilterNodeSchema_json FilterNodeSchema_ok by metis

end
