(* ===== verification/Dates.thy ===== *)
theory Dates
  imports Tokenize
begin

text \<open>
  The JavaScript \<open>Date\<close> as far as the filter package uses it, and the symbolic dates of
  \<open>packages/filter/src/tql/relative-date.ts\<close>. A time value is an \<open>int\<close> of milliseconds since 1970 in
  UTC, \<open>None\<close> an invalid date; the calendar functions follow the definitions of ECMA-262. The instants
  \<open>toISOString\<close> prints are read back exactly by \<open>date_parse\<close>, whose argument \<open>other\<close> stands for what
  \<open>Date.parse\<close> does with every remaining text, which the language leaves to the host.
\<close>

section \<open>Days, years and months\<close>

definition MS_PER_DAY :: int where "MS_PER_DAY = 86400000"
definition MAX_TIME :: int where "MAX_TIME = 8640000000000000"

definition day_from_year :: "int \<Rightarrow> int" where
  "day_from_year y =
     365 * (y - 1970) + (y - 1969) div 4 - (y - 1901) div 100 + (y - 1601) div 400"

definition leap :: "int \<Rightarrow> bool" where
  "leap y = (y mod 4 = 0 \<and> (y mod 100 \<noteq> 0 \<or> y mod 400 = 0))"

text \<open>The largest year that starts no later than day \<open>d\<close>: an estimate, corrected by at most one.\<close>

definition year_of_day :: "int \<Rightarrow> int" where
  "year_of_day d =
     (let y = (400 * d) div 146097 + 1970 in
      if day_from_year (y + 1) \<le> d then y + 1 else if d < day_from_year y then y - 1 else y)"

definition month_start :: "bool \<Rightarrow> nat \<Rightarrow> int" where
  "month_start l m =
     [0, 31, 59, 90, 120, 151, 181, 212, 243, 273, 304, 334, 365] ! m + (if l \<and> 2 \<le> m then 1 else 0)"

definition month_of :: "bool \<Rightarrow> int \<Rightarrow> nat" where
  "month_of l yday = length (filter (\<lambda>m. month_start l m \<le> yday) [1..<12])"

definition month_of_day :: "int \<Rightarrow> nat" where
  "month_of_day d = month_of (leap (year_of_day d)) (d - day_from_year (year_of_day d))"

definition date_of_day :: "int \<Rightarrow> int" where
  "date_of_day d =
     d - day_from_year (year_of_day d) - month_start (leap (year_of_day d)) (month_of_day d) + 1"

definition make_day :: "int \<Rightarrow> int \<Rightarrow> int \<Rightarrow> int" where
  "make_day year month date =
     (let ym = year + month div 12; mn = nat (month mod 12) in
      day_from_year ym + month_start (leap ym) mn + date - 1)"

definition days_in_month :: "int \<Rightarrow> nat \<Rightarrow> int" where
  "days_in_month y m = month_start (leap y) (Suc m) - month_start (leap y) m"

section \<open>Time values\<close>

definition time_clip :: "int \<Rightarrow> int option" where
  "time_clip t = (if \<bar>t\<bar> \<le> MAX_TIME then Some t else None)"

definition make_date :: "int \<Rightarrow> int \<Rightarrow> int" where
  "make_date day time = day * MS_PER_DAY + time"

definition day_of :: "int \<Rightarrow> int" where "day_of t = t div MS_PER_DAY"
definition time_in_day :: "int \<Rightarrow> int" where "time_in_day t = t mod MS_PER_DAY"

definition getUTCDate :: "int \<Rightarrow> int" where "getUTCDate t = date_of_day (day_of t)"
definition getUTCMonth :: "int \<Rightarrow> int" where "getUTCMonth t = int (month_of_day (day_of t))"
definition getUTCFullYear :: "int \<Rightarrow> int" where "getUTCFullYear t = year_of_day (day_of t)"

definition setUTCDate :: "int \<Rightarrow> int \<Rightarrow> int option" where
  "setUTCDate t date =
     time_clip (make_date (make_day (getUTCFullYear t) (getUTCMonth t) date) (time_in_day t))"

definition setUTCMonth :: "int \<Rightarrow> int \<Rightarrow> int option" where
  "setUTCMonth t month =
     time_clip (make_date (make_day (getUTCFullYear t) month (getUTCDate t)) (time_in_day t))"

text \<open>\<open>setUTCHours(0, 0, 0, 0)\<close>\<close>

definition setUTCHours0 :: "int \<Rightarrow> int option" where
  "setUTCHours0 t = time_clip (make_date (day_of t) 0)"

section \<open>Printing and parsing\<close>

fun pad :: "nat \<Rightarrow> nat \<Rightarrow> string" where
  "pad 0 k = []"
| "pad (Suc w) k = pad w (k div 10) @ [char_of (48 + k mod 10)]"

datatype date_error = InvalidTimeValue

text \<open>\<open>toISOString\<close> throws a \<open>RangeError\<close> on an invalid date.\<close>

definition iso_year :: "int \<Rightarrow> string" where
  "iso_year y =
     (if 0 \<le> y \<and> y \<le> 9999 then pad 4 (nat y)
      else (if y < 0 then CHR ''-'' else CHR ''+'') # pad 6 (nat \<bar>y\<bar>))"

definition iso_text :: "int \<Rightarrow> string" where
  "iso_text t =
     (let tm = nat (time_in_day t) in
      iso_year (getUTCFullYear t) @ CHR ''-'' # pad 2 (nat (getUTCMonth t + 1)) @
      CHR ''-'' # pad 2 (nat (getUTCDate t)) @ CHR ''T'' # pad 2 (tm div 3600000) @
      CHR '':'' # pad 2 (tm div 60000 mod 60) @ CHR '':'' # pad 2 (tm div 1000 mod 60) @
      CHR ''.'' # pad 3 (tm mod 1000) @ ''Z'')"

definition toISOString :: "int option \<Rightarrow> (date_error, string) result" where
  "toISOString d = (case d of None \<Rightarrow> Throw InvalidTimeValue | Some t \<Rightarrow> Return (iso_text t))"

fun picture :: "string \<Rightarrow> string \<Rightarrow> bool" where
  "picture [] s = (s = [])"
| "picture (p # ps) [] = False"
| "picture (p # ps) (c # s) =
     ((if p = CHR ''d'' then is_digit c else c = p) \<and> picture ps s)"

definition field_value :: "nat \<Rightarrow> nat \<Rightarrow> string \<Rightarrow> int" where
  "field_value a b s = digits_val (slice a b s)"

definition civil :: "int \<Rightarrow> int \<Rightarrow> int \<Rightarrow> int \<Rightarrow> int \<Rightarrow> int \<Rightarrow> int \<Rightarrow> int option" where
  "civil y mo d h mi s ms =
     (if 1 \<le> mo \<and> mo \<le> 12 \<and> 1 \<le> d \<and> d \<le> days_in_month y (nat (mo - 1)) \<and>
         h \<le> 23 \<and> mi \<le> 59 \<and> s \<le> 59
      then time_clip (make_date (make_day y (mo - 1) d) (h * 3600000 + mi * 60000 + s * 1000 + ms))
      else None)"

text \<open>What follows a year of \<open>k\<close> characters: a date, and a time in UTC with milliseconds.\<close>

definition civil_text :: "nat \<Rightarrow> int \<Rightarrow> string \<Rightarrow> int option" where
  "civil_text k y s =
     civil y (field_value (k + 1) (k + 3) s) (field_value (k + 4) (k + 6) s)
       (field_value (k + 7) (k + 9) s) (field_value (k + 10) (k + 12) s)
       (field_value (k + 13) (k + 15) s) (field_value (k + 16) (k + 19) s)"

definition parse_iso :: "string \<Rightarrow> int option" where
  "parse_iso s =
     (if picture ''dddd-dd-dd'' s
      then civil (field_value 0 4 s) (field_value 5 7 s) (field_value 8 10 s) 0 0 0 0
      else if picture ''dddd-dd-ddTdd:dd:dd.dddZ'' s then civil_text 4 (field_value 0 4 s) s
      else if picture ''+dddddd-dd-ddTdd:dd:dd.dddZ'' s then civil_text 7 (field_value 1 7 s) s
      else if picture ''-dddddd-dd-ddTdd:dd:dd.dddZ'' s \<and> field_value 1 7 s \<noteq> 0
      then civil_text 7 (- field_value 1 7 s) s
      else None)"

definition date_parse :: "(string \<Rightarrow> int option) \<Rightarrow> string \<Rightarrow> int option" where
  "date_parse other s = (case parse_iso s of Some t \<Rightarrow> Some t | None \<Rightarrow> other s)"

section \<open>Symbolic dates\<close>

definition TODAY :: string where "TODAY = ''@today''"
definition NOW :: string where "NOW = ''@now''"

text \<open>\<open>/^([+-])(\d+)(d|w|mo)$/.exec(value)\<close>: the sign, the digits and the unit.\<close>

definition RELATIVE_OFFSET_RE :: "string \<Rightarrow> (char \<times> string \<times> string) option" where
  "RELATIVE_OFFSET_RE value =
     (case value of
        [] \<Rightarrow> None
      | sign # s \<Rightarrow>
          (let digits = takeWhile is_digit s; unit = dropWhile is_digit s in
           if (sign = CHR ''+'' \<or> sign = CHR ''-'') \<and> digits \<noteq> [] \<and>
              (unit = ''d'' \<or> unit = ''w'' \<or> unit = ''mo'')
           then Some (sign, digits, unit) else None))"

definition SYMBOLIC_RE :: "string \<Rightarrow> bool" where
  "SYMBOLIC_RE value =
     (value = ''@today'' \<or> value = ''@now'' \<or>
      (case value of
         [] \<Rightarrow> False
       | sign # s \<Rightarrow> (sign = CHR ''+'' \<or> sign = CHR ''-'') \<and> takeWhile is_digit s \<noteq> [] \<and>
                     dropWhile is_digit s \<in> {''d'', ''w'', ''mo''}))"

definition isSymbolicDate :: "string \<Rightarrow> bool" where
  "isSymbolicDate value = SYMBOLIC_RE value"

text \<open>
  \<open>Number(digits)\<close> is exact below \<open>2 ^ 53\<close>; from there on the offset leaves the range of a \<open>Date\<close>
  whether rounded or not, so the exact amount gives the same result.
\<close>

definition resolveSymbolicDate :: "string \<Rightarrow> int \<Rightarrow> (date_error, string option) result" where
  "resolveSymbolicDate value now =
     (let iso = (\<lambda>d. bind_result (toISOString d) (\<lambda>s. Return (Some s))) in
      if value = TODAY then iso (setUTCHours0 now)
      else if value = NOW then iso (Some now)
      else (case RELATIVE_OFFSET_RE value of
              None \<Rightarrow> Return None
            | Some (s, digits, unit) \<Rightarrow>
                (let sign = (if s = CHR ''-'' then -1 else 1);
                     amount = digits_val digits in
                 if unit = ''d'' then iso (setUTCDate now (getUTCDate now + sign * amount))
                 else if unit = ''w'' then iso (setUTCDate now (getUTCDate now + sign * amount * 7))
                 else iso (setUTCMonth now (getUTCMonth now + sign * amount)))))"

end
