(* ===== verification/Dates_Correct.thy ===== *)
theory Dates_Correct
  imports Dates Tql_Roundtrip
begin

text \<open>
  The calendar functions are right (the year of a day encloses it, months and dates split a day and
  put it together again), an ISO text reads back as the instant it was printed from, and a symbolic
  date resolves to the instant its text means.
\<close>

section \<open>Years\<close>

lemma div_step: "(k::int) > 0 \<Longrightarrow> (x + 1) div k = x div k + (if (x + 1) mod k = 0 then 1 else 0)"
proof -
  assume k: "k > 0"
  have e: "x = k * (x div k) + x mod k" by simp
  have r: "0 \<le> x mod k" "x mod k < k" using k by simp_all
  show ?thesis
  proof (cases "x mod k + 1 = k")
    case True
    then have "x + 1 = k * (x div k) + k" using e by linarith
    then have e': "x + 1 = k * (x div k + 1) + 0" by (simp add: distrib_left)
    show ?thesis using int_div_pos_eq [OF e'] int_mod_pos_eq [OF e'] k by simp
  next
    case False
    have e': "x + 1 = k * (x div k) + (x mod k + 1)" using e by simp
    have "x mod k + 1 < k" using False r by simp
    then show ?thesis using int_div_pos_eq [OF e'] int_mod_pos_eq [OF e'] r by simp
  qed
qed

lemma leap_count:
  "(C \<Longrightarrow> B) \<Longrightarrow> (B \<Longrightarrow> A) \<Longrightarrow>
   (if A then 1 else 0) - (if B then 1 else 0) + (if C then 1 else 0) = (if A \<and> (\<not> B \<or> C) then 1 else 0 :: int)"
  by auto

lemma year_sum:
  "d = 365 + l \<Longrightarrow> l = p - q + r \<Longrightarrow>
   365 * (y + 1 - 1970) + (u + p) - (v + q) + (w + r) = 365 * (y - 1970) + u - v + w + (d :: int)"
  by simp

lemma year_length: "day_from_year (y + 1) = day_from_year y + (if leap y then 366 else 365)"
proof -
  have a: "(y + 1 - 1969) div 4 = (y - 1969) div 4 + (if y mod 4 = 0 then 1 else 0)"
    using div_step [of 4 "y - 1969"] mod_mult_self2 [of y 4 "- 492"] by simp
  have b: "(y + 1 - 1901) div 100 = (y - 1901) div 100 + (if y mod 100 = 0 then 1 else 0)"
    using div_step [of 100 "y - 1901"] mod_mult_self2 [of y 100 "- 19"] by simp
  have c: "(y + 1 - 1601) div 400 = (y - 1601) div 400 + (if y mod 400 = 0 then 1 else 0)"
    using div_step [of 400 "y - 1601"] mod_mult_self2 [of y 400 "- 4"] by simp
  have "(4::int) dvd 100" "(100::int) dvd 400" by simp_all
  then have d: "y mod 400 = 0 \<Longrightarrow> y mod 100 = 0" "y mod 100 = 0 \<Longrightarrow> y mod 4 = 0"
    by (metis dvd_eq_mod_eq_0 dvd_trans)+
  have "(if leap y then 366 else 365 :: int) = 365 + (if leap y then 1 else 0)" by simp
  moreover have "(if leap y then 1 else 0 :: int) =
      (if y mod 4 = 0 then 1 else 0) - (if y mod 100 = 0 then 1 else 0) + (if y mod 400 = 0 then 1 else 0)"
    unfolding leap_def by (rule leap_count [symmetric, OF d])
  ultimately show ?thesis
    unfolding day_from_year_def a b c by (rule year_sum)
qed

lemma div_lower: "(k::int) > 0 \<Longrightarrow> k * (x div k) \<le> x"
  by (metis mult_div_mod_eq pos_mod_sign le_add_same_cancel1)

lemma div_upper: "(k::int) > 0 \<Longrightarrow> x < k * (x div k) + k"
  by (metis mult_div_mod_eq pos_mod_bound add_less_cancel_left)

lemma year_bounds_sum:
  assumes "4 * a \<le> y - 1969" "100 * b \<le> y - 1901" "400 * c \<le> y - 1601"
    "y - 1969 < 4 * a + 4" "y - 1901 < 100 * b + 100" "y - 1601 < 400 * c + (400 :: int)"
  shows "146097 * (y - 1970) - 506 \<le> 400 * (365 * (y - 1970) + a - b + c) \<and>
         400 * (365 * (y - 1970) + a - b + c) \<le> 146097 * (y - 1970) + 589"
  using assms unfolding distrib_left right_diff_distrib by (intro conjI) linarith+

lemma day_from_year_bounds:
  "146097 * (y - 1970) - 506 \<le> 400 * day_from_year y \<and> 400 * day_from_year y \<le> 146097 * (y - 1970) + 589"
  unfolding day_from_year_def
  by (rule year_bounds_sum) (simp_all only: div_lower div_upper zero_less_numeral)

lemma year_of_day_bounds: "day_from_year (year_of_day d) \<le> d \<and> d < day_from_year (year_of_day d + 1)"
proof -
  define q where "q = (400 * d) div 146097"
  have q: "146097 * q \<le> 400 * d" "400 * d < 146097 * q + 146097"
    using div_lower [of 146097 "400 * d"] div_upper [of 146097 "400 * d"] by (simp_all add: q_def)
  have lo: "day_from_year (q + 1970 - 1) \<le> d"
    using day_from_year_bounds [of "q + 1970 - 1"] q by simp
  have hi: "d < day_from_year (q + 1970 + 1 + 1)"
    using day_from_year_bounds [of "q + 1970 + 1 + 1"] q by simp
  show ?thesis
    using lo hi unfolding year_of_day_def q_def [symmetric] Let_def
    by (simp add: algebra_simps split: if_split)
qed

lemma day_from_year_less: "y < z \<Longrightarrow> day_from_year y < day_from_year z"
proof -
  assume "y < z"
  then have "y < z" .
  have "day_from_year y < day_from_year (y + 1 + int k)" for k
  proof (induction k)
    case 0
    show ?case by (simp add: year_length)
  next
    case (Suc k)
    then show ?case using year_length [of "y + 1 + int k"]
      by (simp add: add.assoc [symmetric] add.commute [of 1] split: if_splits)
  qed
  from this [of "nat (z - y - 1)"] show ?thesis using \<open>y < z\<close> by simp
qed

text \<open>The year of a day is the one whose first day and next first day enclose it.\<close>

lemma year_of_day_eq: "day_from_year y \<le> d \<Longrightarrow> d < day_from_year (y + 1) \<Longrightarrow> year_of_day d = y"
proof (rule ccontr)
  assume a: "day_from_year y \<le> d" "d < day_from_year (y + 1)" "year_of_day d \<noteq> y"
  note b = year_of_day_bounds [of d]
  from a(3) consider "year_of_day d < y" | "y < year_of_day d" by linarith
  then show False
  proof cases
    case 1
    then have "day_from_year (year_of_day d + 1) \<le> day_from_year y"
      using day_from_year_less [of "year_of_day d + 1" y] by (cases "year_of_day d + 1 = y") auto
    with a b show False by linarith
  next
    case 2
    then have "day_from_year (y + 1) \<le> day_from_year (year_of_day d)"
      using day_from_year_less [of "y + 1" "year_of_day d"] by (cases "y + 1 = year_of_day d") auto
    with a b show False by linarith
  qed
qed

section \<open>Months\<close>

lemma upt_1_12: "[Suc 0..<12] = [Suc 0, 2, 3, 4, 5, 6, 7, 8, 9, 10, 11::nat]"
  by (simp add: upt_rec)

lemma less_12_cases: "(m::nat) < 12 \<Longrightarrow>
   m = 0 \<or> m = 1 \<or> m = 2 \<or> m = 3 \<or> m = 4 \<or> m = 5 \<or> m = 6 \<or> m = 7 \<or> m = 8 \<or> m = 9 \<or> m = 10 \<or> m = 11"
  by arith

lemma month_start_simps [simp]:
  "month_start l 0 = 0"
  "month_start l (Suc 0) = 31"
  "month_start l (Suc (Suc 0)) = (if l then 60 else 59)"
  "month_start l 2 = (if l then 60 else 59)"
  "month_start l 3 = (if l then 91 else 90)"
  "month_start l 4 = (if l then 121 else 120)"
  "month_start l 5 = (if l then 152 else 151)"
  "month_start l 6 = (if l then 182 else 181)"
  "month_start l 7 = (if l then 213 else 212)"
  "month_start l 8 = (if l then 244 else 243)"
  "month_start l 9 = (if l then 274 else 273)"
  "month_start l 10 = (if l then 305 else 304)"
  "month_start l 11 = (if l then 335 else 334)"
  "month_start l 12 = (if l then 366 else 365)"
  by (simp_all add: month_start_def)

lemma month_of_eq_True:
  "month_of True yday = length (filter (\<lambda>s. s \<le> yday) [31, 60, 91, 121, 152, 182, 213, 244, 274, 305, 335])"
  by (simp add: month_of_def upt_1_12)

lemma month_of_eq:
  assumes "m < 12" "month_start l m \<le> yday" "yday < month_start l (Suc m)"
  shows "month_of l yday = m"
  using less_12_cases [OF assms(1)] assms(2,3)
  by (elim disjE) (simp_all add: month_of_def upt_1_12 split: if_splits)

lemma month_of_bounds:
  assumes "0 \<le> yday" "yday < (if l then 366 else 365)"
  shows "month_of l yday < 12 \<and> month_start l (month_of l yday) \<le> yday \<and>
         yday < month_start l (Suc (month_of l yday))"
proof -
  have "\<exists>m < 12. month_start l m \<le> yday \<and> yday < month_start l (Suc m)"
  proof (rule ccontr)
    assume "\<not> ?thesis"
    then have n: "\<And>m. m < 12 \<Longrightarrow> month_start l m \<le> yday \<Longrightarrow> month_start l (Suc m) \<le> yday" by force
    have "month_start l k \<le> yday" if "k \<le> 12" for k
      using that by (induction k) (use assms n in auto)
    from this [of 12] show False using assms by (simp split: if_splits)
  qed
  then obtain m where m: "m < 12" "month_start l m \<le> yday" "yday < month_start l (Suc m)" by blast
  then show ?thesis using month_of_eq [OF m] by simp
qed

lemma month_of_day_bounds:
  "month_of_day d < 12" "1 \<le> date_of_day d"
  "date_of_day d \<le> days_in_month (year_of_day d) (month_of_day d)"
proof -
  let ?y = "year_of_day d"
  have "0 \<le> d - day_from_year ?y" "d - day_from_year ?y < (if leap ?y then 366 else 365)"
    using year_of_day_bounds [of d] year_length [of ?y] by (auto split: if_splits)
  note b = month_of_bounds [OF this]
  show "month_of_day d < 12" "1 \<le> date_of_day d"
    "date_of_day d \<le> days_in_month (year_of_day d) (month_of_day d)"
    using b by (auto simp: month_of_day_def date_of_day_def days_in_month_def)
qed

lemma make_day_of_parts: "make_day (year_of_day d) (int (month_of_day d)) (date_of_day d) = d"
  using month_of_day_bounds(1) [of d]
  by (simp add: make_day_def date_of_day_def Let_def)

lemma make_day_shift: "make_day y m (d + k) = make_day y m d + k"
  by (simp add: make_day_def Let_def)

lemma make_day_parts:
  assumes "0 \<le> m" "m < 12" "1 \<le> d" "d \<le> days_in_month y (nat m)"
  shows "year_of_day (make_day y m d) = y" "month_of_day (make_day y m d) = nat m"
    "date_of_day (make_day y m d) = d"
proof -
  let ?d = "make_day y m d"
  have e: "?d = day_from_year y + month_start (leap y) (nat m) + d - 1"
    using assms by (simp add: make_day_def)
  have m: "nat m < 12" using assms by simp
  have s: "0 \<le> month_start (leap y) (nat m)"
    "month_start (leap y) (Suc (nat m)) \<le> (if leap y then 366 else 365)"
    using less_12_cases [OF m] by (elim disjE; simp)+
  have y: "year_of_day ?d = y"
    by (rule year_of_day_eq) (use e s assms in \<open>auto simp: days_in_month_def year_length\<close>)
  show "year_of_day ?d = y" by (rule y)
  show mo: "month_of_day ?d = nat m"
    unfolding month_of_day_def y
    by (rule month_of_eq [OF m]) (use e assms in \<open>auto simp: days_in_month_def\<close>)
  show "date_of_day ?d = d" unfolding date_of_day_def y mo using e by simp
qed

section \<open>Printed fields\<close>

lemma length_pad [simp]: "length (pad w k) = w"
  by (induction w k rule: pad.induct) simp_all

lemma pad_numeral:
  "pad (numeral w) k = pad (pred_numeral w) (k div 10) @ [char_of (48 + k mod 10)]"
  by (simp only: numeral_eq_Suc [of w] pad.simps(2))

lemma pad_digits: "list_all is_digit (pad w k)"
  by (induction w k rule: pad.induct) (use digit_char_ok in \<open>simp_all add: digit_char_def\<close>)

lemma pad_value: "digits_val (pad w k) = int (k mod 10 ^ w)"
proof (induction w k rule: pad.induct)
  case (2 w k)
  have "digits_val [char_of (48 + k mod 10)] = int (k mod 10)"
    using digit_char_ok [of "k mod 10"] by (simp add: digits_val_def digit_char_def)
  moreover have "k mod (10 * 10 ^ w) = 10 * (k div 10 mod 10 ^ w) + k mod 10"
    by (rule mod_mult2_eq)
  ultimately show ?case using 2 by (simp add: digits_val_append)
qed (simp add: digits_val_def)

lemma pad_value_small: "k < 10 ^ w \<Longrightarrow> digits_val (pad w k) = int k"
  by (simp add: pad_value)

lemma picture_digits:
  "list_all is_digit ds \<Longrightarrow>
   picture (replicate (length ds) (CHR ''d'') @ ps) (ds @ s) = picture ps s"
  by (induction ds) simp_all

lemma picture_pad:
  "picture (CHR ''d'' # CHR ''d'' # ps) (pad 2 k @ s) = picture ps s"
  "picture (CHR ''d'' # CHR ''d'' # CHR ''d'' # ps) (pad 3 k @ s) = picture ps s"
  "picture (CHR ''d'' # CHR ''d'' # CHR ''d'' # CHR ''d'' # ps) (pad 4 k @ s) = picture ps s"
  "picture (CHR ''d'' # CHR ''d'' # CHR ''d'' # CHR ''d'' # CHR ''d'' # CHR ''d'' # ps) (pad 6 k @ s) = picture ps s"
  using picture_digits [OF pad_digits [of 2 k], of ps s] picture_digits [OF pad_digits [of 3 k], of ps s]
    picture_digits [OF pad_digits [of 4 k], of ps s] picture_digits [OF pad_digits [of 6 k], of ps s]
  by (simp_all add: eval_nat_numeral del: pad.simps)

definition time_text :: "nat \<Rightarrow> nat \<Rightarrow> nat \<Rightarrow> nat \<Rightarrow> nat \<Rightarrow> nat \<Rightarrow> string" where
  "time_text mo d h mi s ms =
     CHR ''-'' # pad 2 mo @ CHR ''-'' # pad 2 d @ CHR ''T'' # pad 2 h @ CHR '':'' # pad 2 mi @
     CHR '':'' # pad 2 s @ CHR ''.'' # pad 3 ms @ ''Z''"

lemma picture_time: "picture ''-dd-ddTdd:dd:dd.dddZ'' (time_text mo d h mi s ms)"
  by (simp add: time_text_def picture_pad del: pad.simps)

lemma civil_time_text:
  assumes "mo < 100" "d < 100" "h < 100" "mi < 100" "s < 100" "ms < 1000" "length ytxt = k"
  shows "civil_text k y (ytxt @ time_text mo d h mi s ms) =
           civil y (int mo) (int d) (int h) (int mi) (int s) (int ms)"
  using assms
  by (simp add: civil_text_def field_value_def slice_def time_text_def pad_value_small del: pad.simps)

section \<open>Time values\<close>

definition valid_time :: "int \<Rightarrow> bool" where "valid_time t = (\<bar>t\<bar> \<le> MAX_TIME)"

lemma time_clip_valid: "time_clip t = (if valid_time t then Some t else None)"
  by (simp add: time_clip_def valid_time_def)

lemma make_date_parts [simp]: "make_date (day_of t) (time_in_day t) = t"
  by (simp add: make_date_def day_of_def time_in_day_def)

lemma make_date_shift: "make_date (d + k) s = make_date d s + k * MS_PER_DAY"
  by (simp add: make_date_def algebra_simps)

lemma time_in_day_range: "0 \<le> time_in_day t" "time_in_day t < 86400000"
  by (simp_all add: time_in_day_def MS_PER_DAY_def)

lemma setUTCDate_shift: "setUTCDate t (getUTCDate t + k) = time_clip (t + k * MS_PER_DAY)"
  using make_day_of_parts [of "day_of t"]
  by (simp add: setUTCDate_def getUTCFullYear_def getUTCMonth_def getUTCDate_def make_day_shift
      make_date_shift)

lemma year_range: "valid_time t \<Longrightarrow> \<bar>getUTCFullYear t\<bar> < 1000000"
proof -
  assume "valid_time t"
  then have "- 100000000 \<le> day_of t" "day_of t \<le> 100000000"
    using div_lower [of MS_PER_DAY t] div_upper [of MS_PER_DAY t]
    by (auto simp: valid_time_def MAX_TIME_def MS_PER_DAY_def day_of_def)
  moreover note year_of_day_bounds [of "day_of t"]
    day_from_year_bounds [of "year_of_day (day_of t)"] day_from_year_bounds [of "year_of_day (day_of t) + 1"]
  ultimately show ?thesis
    unfolding getUTCFullYear_def abs_less_iff right_diff_distrib distrib_left
    by (elim conjE) (intro conjI; linarith)
qed

lemma clock_parts:
  assumes "0 \<le> tm" "tm < (86400000 :: int)"
  shows "nat tm div 3600000 \<le> 23"
    "int (nat tm div 3600000) * 3600000 + int (nat tm div 60000 mod 60) * 60000 +
       int (nat tm div 1000 mod 60) * 1000 + int (nat tm mod 1000) = tm"
proof -
  define n where "n = nat tm"
  have n: "n < 86400000" "int n = tm" using assms by (simp_all add: n_def)
  show "nat tm div 3600000 \<le> 23" using n(1) by (simp add: n_def [symmetric])
  have "n div 60000 = n div 3600000 * 60 + n div 60000 mod 60"
    using div_mult2_eq [of n 60000 60] by simp
  moreover have "n div 1000 = n div 60000 * 60 + n div 1000 mod 60"
    using div_mult2_eq [of n 1000 60] by simp
  moreover have "n = n div 1000 * 1000 + n mod 1000" by simp
  ultimately have "n div 3600000 * 3600000 + n div 60000 mod 60 * 60000 + n div 1000 mod 60 * 1000 + n mod 1000 = n"
    by linarith
  then have "int (n div 3600000 * 3600000 + n div 60000 mod 60 * 60000 + n div 1000 mod 60 * 1000 + n mod 1000) = int n"
    by (rule arg_cong)
  then show "int (nat tm div 3600000) * 3600000 + int (nat tm div 60000 mod 60) * 60000 +
       int (nat tm div 1000 mod 60) * 1000 + int (nat tm mod 1000) = tm"
    by (simp only: n_def [symmetric] n(2) of_nat_add of_nat_mult of_nat_numeral)
qed

lemma days_in_month_le: "m < 12 \<Longrightarrow> days_in_month y m \<le> 31"
  by (drule less_12_cases, elim disjE) (simp_all add: days_in_month_def)

lemma mod_60_le: "n mod 60 \<le> (59 :: nat)"
  using mod_less_divisor [of 60 n] by linarith

lemma civil_of_parts:
  assumes "valid_time t"
  shows "civil (getUTCFullYear t) (getUTCMonth t + 1) (getUTCDate t)
     (int (nat (time_in_day t) div 3600000)) (int (nat (time_in_day t) div 60000 mod 60))
     (int (nat (time_in_day t) div 1000 mod 60)) (int (nat (time_in_day t) mod 1000)) = Some t"
  using month_of_day_bounds [of "day_of t"] make_day_of_parts [of "day_of t"] assms
    clock_parts [OF time_in_day_range, of t]
  by (simp add: civil_def getUTCFullYear_def getUTCMonth_def getUTCDate_def time_clip_valid mod_60_le)

lemma iso_text_parts: "iso_text t = iso_year (getUTCFullYear t) @
    time_text (nat (getUTCMonth t + 1)) (nat (getUTCDate t)) (nat (time_in_day t) div 3600000)
      (nat (time_in_day t) div 60000 mod 60) (nat (time_in_day t) div 1000 mod 60)
      (nat (time_in_day t) mod 1000)"
  by (simp add: iso_text_def time_text_def Let_def del: pad.simps)

lemma parts_small:
  "nat (getUTCMonth t + 1) < 100" "nat (getUTCDate t) < 100" "0 \<le> getUTCMonth t" "0 \<le> getUTCDate t"
  using month_of_day_bounds [of "day_of t"]
    days_in_month_le [of "month_of_day (day_of t)" "year_of_day (day_of t)"]
  by (simp_all add: getUTCMonth_def getUTCDate_def)

lemma field_value_head: "k < 10 ^ w \<Longrightarrow> field_value 0 w (pad w k @ s) = int k"
  "k < 10 ^ w \<Longrightarrow> field_value 1 (Suc w) (c # pad w k @ s) = int k"
  by (simp_all add: field_value_def slice_def pad_value_small)

lemma picture_not_digit: "\<not> is_digit c \<Longrightarrow> \<not> picture (CHR ''d'' # ps) (c # s)"
  by simp

lemma parse_iso_text: "valid_time t \<Longrightarrow> parse_iso (iso_text t) = Some t"
proof -
  assume t: "valid_time t"
  define y where "y = getUTCFullYear t"
  define rest where "rest = time_text (nat (getUTCMonth t + 1)) (nat (getUTCDate t))
      (nat (time_in_day t) div 3600000) (nat (time_in_day t) div 60000 mod 60)
      (nat (time_in_day t) div 1000 mod 60) (nat (time_in_day t) mod 1000)"
  have split: "iso_text t = iso_year y @ rest" by (simp add: iso_text_parts y_def rest_def)
  have civil: "civil_text k y (ytxt @ rest) = Some t" if "length ytxt = k" for ytxt k
    unfolding rest_def y_def using civil_time_text [OF _ _ _ _ _ _ that] parts_small [of t]
      civil_of_parts [OF t] clock_parts(1) [OF time_in_day_range, of t] by simp
  have pic: "picture ''-dd-ddTdd:dd:dd.dddZ'' rest"
    unfolding rest_def by (rule picture_time)
  have short: "\<not> picture ''-dd-dd'' rest"
    by (simp add: rest_def time_text_def picture_pad del: pad.simps)
  have y: "\<bar>y\<bar> < 1000000" unfolding y_def by (rule year_range [OF t])
  consider "0 \<le> y" "y \<le> 9999" | "y < 0" | "9999 < y" by linarith
  then show ?thesis
  proof cases
    case 1
    then have "iso_text t = pad 4 (nat y) @ rest" by (simp add: split iso_year_def del: pad.simps)
    moreover have "field_value 0 4 (pad 4 (nat y) @ rest) = y"
      using field_value_head(1) [of "nat y" 4 rest] 1 by (simp del: pad.simps)
    ultimately show ?thesis using pic short civil [of "pad 4 (nat y)" 4]
      by (simp add: parse_iso_def picture_pad del: pad.simps)
  next
    case 2
    then have "iso_text t = CHR ''-'' # pad 6 (nat (- y)) @ rest" by (simp add: split iso_year_def del: pad.simps)
    moreover have "field_value 1 7 (CHR ''-'' # pad 6 (nat (- y)) @ rest) = - y"
      using field_value_head(2) [of "nat (- y)" 6 "CHR ''-''" rest] 2 y by (simp del: pad.simps)
    ultimately show ?thesis using pic 2 civil [of "CHR ''-'' # pad 6 (nat (- y))" 7]
      by (simp add: parse_iso_def picture_pad not_digit del: pad.simps)
  next
    case 3
    then have "iso_text t = CHR ''+'' # pad 6 (nat y) @ rest" by (simp add: split iso_year_def del: pad.simps)
    moreover have "field_value 1 7 (CHR ''+'' # pad 6 (nat y) @ rest) = y"
      using field_value_head(2) [of "nat y" 6 "CHR ''+''" rest] 3 y by (simp del: pad.simps)
    ultimately show ?thesis using pic civil [of "CHR ''+'' # pad 6 (nat y)" 7]
      by (simp add: parse_iso_def picture_pad not_digit del: pad.simps)
  qed
qed

text \<open>The text \<open>toISOString\<close> prints of a valid instant is read back by \<open>Date.parse\<close> as exactly that
  instant, whatever the host does with texts outside the standard format.\<close>

theorem iso_roundtrip:
  assumes "\<bar>t\<bar> \<le> MAX_TIME"
  shows "bind_result (toISOString (Some t)) (\<lambda>s. Return (date_parse other s)) = Return (Some t)"
  using assms parse_iso_text [of t] by (simp add: toISOString_def date_parse_def valid_time_def)

theorem iso_roundtrip_witness:
  "bind_result (toISOString (Some (- 62198755200001))) (\<lambda>s. Return (date_parse (\<lambda>_. None) s)) =
     Return (Some (- 62198755200001))"
  by (rule iso_roundtrip) (simp add: MAX_TIME_def)

section \<open>Calendar months\<close>

definition month_index :: "int \<Rightarrow> int" where
  "month_index t = 12 * getUTCFullYear t + getUTCMonth t"

lemma make_day_index: "make_day y m d = make_day ((12 * y + m) div 12) ((12 * y + m) mod 12) d"
  by (simp add: make_day_def)

lemma days_in_month_bounds: "m < 12 \<Longrightarrow> 28 \<le> days_in_month y m \<and> days_in_month y m \<le> 31"
  by (drule less_12_cases, elim disjE) (simp_all add: days_in_month_def)

lemma make_day_overflow:
  assumes "0 \<le> m" "m < 12"
  shows "make_day y m (days_in_month y (nat m) + e) = make_day y (m + 1) e"
proof (cases "m = 11")
  case True
  then show ?thesis using year_length [of y]
    by (simp add: make_day_def days_in_month_def)
next
  case False
  then have "nat (m + 1) = Suc (nat m)" "(m + 1) div 12 = 0" "(m + 1) mod 12 = m + 1"
    using assms by auto
  then show ?thesis using assms by (simp add: make_day_def days_in_month_def)
qed

lemma month_parts_of_day:
  assumes "1 \<le> d" "d \<le> days_in_month (i div 12) (nat (i mod 12))" "0 \<le> s" "s < MS_PER_DAY"
  shows "month_index (make_date (make_day (i div 12) (i mod 12) d) s) = i"
    "getUTCDate (make_date (make_day (i div 12) (i mod 12) d) s) = d"
    "time_in_day (make_date (make_day (i div 12) (i mod 12) d) s) = s"
proof -
  let ?t = "make_date (make_day (i div 12) (i mod 12) d) s"
  have day: "day_of ?t = make_day (i div 12) (i mod 12) d" and tm: "time_in_day ?t = s"
    using assms(3,4) by (simp_all add: day_of_def time_in_day_def make_date_def MS_PER_DAY_def)
  have m: "0 \<le> i mod 12" "i mod 12 < 12" by simp_all
  note p = make_day_parts [OF m assms(1,2)]
  show "month_index ?t = i" unfolding month_index_def getUTCFullYear_def getUTCMonth_def day p by simp
  show "getUTCDate ?t = d" unfolding getUTCDate_def day p by simp
  show "time_in_day ?t = s" by (rule tm)
qed

lemma setUTCMonth_calendar:
  assumes t: "setUTCMonth now (getUTCMonth now + k) = Some t"
  defines "i \<equiv> month_index now + k"
  defines "len \<equiv> days_in_month (i div 12) (nat (i mod 12))"
  shows "time_in_day t = time_in_day now \<and>
     (if getUTCDate now \<le> len then month_index t = i \<and> getUTCDate t = getUTCDate now
      else month_index t = i + 1 \<and> getUTCDate t = getUTCDate now - len)"
proof -
  let ?d = "getUTCDate now"
  have s: "0 \<le> time_in_day now" "time_in_day now < MS_PER_DAY"
    using time_in_day_range [of now] by (simp_all add: MS_PER_DAY_def)
  have d: "1 \<le> ?d" "?d \<le> 31"
    using month_of_day_bounds [of "day_of now"] days_in_month_le [of "month_of_day (day_of now)"]
    by (auto simp: getUTCDate_def intro: order_trans)
  have e: "t = make_date (make_day (i div 12) (i mod 12) ?d) (time_in_day now)"
    using t make_day_index [of "getUTCFullYear now" "getUTCMonth now + k" ?d]
    by (simp add: setUTCMonth_def time_clip_def i_def month_index_def add.assoc split: if_splits)
  show ?thesis
  proof (cases "?d \<le> len")
    case True
    show ?thesis using month_parts_of_day [OF d(1) True [unfolded len_def] s] True
      by (simp add: e)
  next
    case False
    have m: "0 \<le> i mod 12" "i mod 12 < 12" by simp_all
    have "nat ((i + 1) mod 12) < 12" by simp
    note later = conjunct1 [OF days_in_month_bounds [OF this, of "(i + 1) div 12"]]
    have len: "28 \<le> len" unfolding len_def using days_in_month_bounds [of "nat (i mod 12)"] by simp
    have "make_day (i div 12) (i mod 12) ?d = make_day (i div 12) (i mod 12 + 1) (?d - len)"
      using make_day_overflow [OF m, of "i div 12" "?d - len"] by (simp add: len_def)
    also have "\<dots> = make_day ((i + 1) div 12) ((i + 1) mod 12) (?d - len)"
      using make_day_index [of "i div 12" "i mod 12 + 1" "?d - len"] by (simp add: add.assoc [symmetric])
    finally have e': "t = make_date (make_day ((i + 1) div 12) ((i + 1) mod 12) (?d - len)) (time_in_day now)"
      by (simp add: e)
    have "?d - len \<le> days_in_month ((i + 1) div 12) (nat ((i + 1) mod 12))"
      using d len later
      by linarith
    from month_parts_of_day [OF _ this s] False d show ?thesis by (simp add: e')
  qed
qed

section \<open>Symbolic dates\<close>

definition signed_amount :: "char \<Rightarrow> string \<Rightarrow> int" where
  "signed_amount sign digits = (if sign = CHR ''-'' then - digits_val digits else digits_val digits)"

text \<open>The instant a symbolic date means: days and weeks are exact multiples of 24 hours, months go
  through the calendar. \<open>None\<close>: not a symbolic date, or outside the range of a \<open>Date\<close>.\<close>

definition symbolic_instant :: "string \<Rightarrow> int \<Rightarrow> int option" where
  "symbolic_instant value now =
     (if value = TODAY then Some (now - now mod MS_PER_DAY)
      else if value = NOW then Some now
      else (case RELATIVE_OFFSET_RE value of
              None \<Rightarrow> None
            | Some (sign, digits, unit) \<Rightarrow>
                if unit = ''d'' then time_clip (now + signed_amount sign digits * MS_PER_DAY)
                else if unit = ''w'' then time_clip (now + 7 * signed_amount sign digits * MS_PER_DAY)
                else setUTCMonth now (getUTCMonth now + signed_amount sign digits)))"

lemma isSymbolicDate_iff: "isSymbolicDate v \<longleftrightarrow> v = TODAY \<or> v = NOW \<or> RELATIVE_OFFSET_RE v \<noteq> None"
  by (cases v) (auto simp: isSymbolicDate_def SYMBOLIC_RE_def RELATIVE_OFFSET_RE_def TODAY_def NOW_def Let_def)

lemma toISOString_parse:
  "d \<noteq> None \<longrightarrow> valid_time (the d) \<Longrightarrow>
   (case toISOString d of Inl _ \<Rightarrow> d = None | Inr s \<Rightarrow> d \<noteq> None \<and> date_parse other s = d)"
  by (cases d) (simp_all add: toISOString_def date_parse_def parse_iso_text)

lemma clip_valid: "time_clip x \<noteq> None \<longrightarrow> valid_time (the (time_clip x))"
  by (simp add: time_clip_valid)

definition resolves_to ::
  "(string \<Rightarrow> int option) \<Rightarrow> (date_error, string option) result \<Rightarrow> int option \<Rightarrow> bool" where
  "resolves_to other r d =
     (case r of Inl _ \<Rightarrow> d = None | Inr None \<Rightarrow> False | Inr (Some s) \<Rightarrow> d \<noteq> None \<and> date_parse other s = d)"

lemma iso_case:
  "d \<noteq> None \<longrightarrow> valid_time (the d) \<Longrightarrow>
   resolves_to other (bind_result (toISOString d) (\<lambda>s. Return (Some s))) d"
  using toISOString_parse [of d other] by (cases d) (simp_all add: toISOString_def resolves_to_def)

lemma today_valid: "valid_time t \<Longrightarrow> valid_time (t - t mod MS_PER_DAY)"
proof -
  assume t: "valid_time t"
  have "t - t mod MS_PER_DAY = MS_PER_DAY * (t div MS_PER_DAY)" by (simp add: minus_mod_eq_mult_div)
  moreover have "- 100000000 \<le> t div MS_PER_DAY" "t div MS_PER_DAY \<le> 100000000"
    using t div_lower [of MS_PER_DAY t] div_upper [of MS_PER_DAY t]
    by (auto simp: valid_time_def MAX_TIME_def MS_PER_DAY_def)
  ultimately show ?thesis by (simp add: valid_time_def MAX_TIME_def MS_PER_DAY_def)
qed

lemma day_start: "make_date (day_of t) 0 = t - t mod MS_PER_DAY"
  by (simp add: make_date_def day_of_def minus_mod_eq_div_mult)

lemma symbolic_cases:
  assumes "\<bar>now\<bar> \<le> MAX_TIME"
  shows "if isSymbolicDate v
         then resolves_to other (resolveSymbolicDate v now) (symbolic_instant v now)
         else resolveSymbolicDate v now = Return None"
proof -
  have now: "valid_time now" using assms by (simp add: valid_time_def)
  have today: "setUTCHours0 now = Some (now - now mod MS_PER_DAY)"
    using today_valid [OF now] by (simp add: setUTCHours0_def day_start time_clip_valid)
  have w: "getUTCDate now + k * 7 = getUTCDate now + 7 * k" for k by simp
  have month: "setUTCMonth now k \<noteq> None \<longrightarrow> valid_time (the (setUTCMonth now k))" for k
    unfolding setUTCMonth_def by (rule clip_valid)
  note iso = iso_case [OF clip_valid, of other] iso_case [OF month, of other]
    iso_case [of "Some now" other] iso_case [of "Some (now - now mod MS_PER_DAY)" other]
  show ?thesis
  proof (cases "v = TODAY \<or> v = NOW")
    case True
    then show ?thesis
      using iso(3,4) now today_valid [OF now]
      by (auto simp: isSymbolicDate_iff resolveSymbolicDate_def symbolic_instant_def
          today TODAY_def NOW_def)
  next
    case False
    show ?thesis
    proof (cases "RELATIVE_OFFSET_RE v")
      case None
      with False show ?thesis by (simp add: isSymbolicDate_iff resolveSymbolicDate_def)
    next
      case (Some r)
      obtain sg ds u where r: "r = (sg, ds, u)" by (cases r)
      show ?thesis
        using Some r False iso(1,2)
        by (cases "sg = CHR ''-''") (simp_all add: isSymbolicDate_iff
            resolveSymbolicDate_def symbolic_instant_def signed_amount_def setUTCDate_shift
            setUTCDate_shift [of _ "- _", simplified] w)
    qed
  qed
qed

text \<open>C16: resolving a symbolic date. A text outside the vocabulary gives \<open>null\<close>; a symbolic date gives
  a text that \<open>Date.parse\<close> reads as the instant it means, and a \<open>RangeError\<close> exactly when that instant
  lies outside the range of a \<open>Date\<close>.\<close>

theorem resolve_symbolic:
  assumes "\<bar>now\<bar> \<le> MAX_TIME"
  shows "if isSymbolicDate v
         then resolves_to other (resolveSymbolicDate v now) (symbolic_instant v now)
         else resolveSymbolicDate v now = Return None"
  by (rule symbolic_cases [OF assms])

theorem resolve_symbolic_witness:
  "if isSymbolicDate ''-7d''
   then resolves_to (\<lambda>_. None) (resolveSymbolicDate ''-7d'' 1706659200000) (symbolic_instant ''-7d'' 1706659200000)
   else resolveSymbolicDate ''-7d'' 1706659200000 = Return None"
  by (rule resolve_symbolic) (simp add: MAX_TIME_def)

text \<open>An offset in months moves the month and keeps the date and the time of day; where the target
  month is too short for the date, the surplus days run into the following month (31 January and one
  month is 3 March, or 2 March in a leap year).\<close>

theorem months_are_calendar_months:
  assumes "RELATIVE_OFFSET_RE v = Some (sign, digits, ''mo'')"
    and "resolveSymbolicDate v now = Return (Some s)"
  shows "\<exists>t. date_parse other s = Some t \<and> time_in_day t = time_in_day now \<and>
     (let target = month_index now + signed_amount sign digits;
          len = days_in_month (target div 12) (nat (target mod 12))
      in if getUTCDate now \<le> len
         then month_index t = target \<and> getUTCDate t = getUTCDate now
         else month_index t = target + 1 \<and> getUTCDate t = getUTCDate now - len)"
proof -
  let ?d = "setUTCMonth now (getUTCMonth now + signed_amount sign digits)"
  have "v \<noteq> TODAY" "v \<noteq> NOW"
    using assms(1) by (auto simp: RELATIVE_OFFSET_RE_def TODAY_def NOW_def)
  then have "bind_result (toISOString ?d) (\<lambda>s. Return (Some s)) = Return (Some s)"
    using assms by (cases "sign = CHR ''-''") (simp_all add: resolveSymbolicDate_def signed_amount_def)
  then obtain t where t: "?d = Some t" "s = iso_text t"
    by (cases ?d) (auto simp: toISOString_def)
  have "valid_time t" using t(1) by (simp add: setUTCMonth_def time_clip_valid split: if_splits)
  then have "date_parse other s = Some t" by (simp add: t(2) date_parse_def parse_iso_text)
  then show ?thesis using setUTCMonth_calendar [OF t(1)] by (auto simp: Let_def)
qed

theorem months_are_calendar_months_witness:
  "\<exists>t. date_parse (\<lambda>_. None) ''2024-03-02T00:00:00.000Z'' = Some t \<and> time_in_day t = time_in_day 1706659200000 \<and>
     (let target = month_index 1706659200000 + signed_amount (CHR ''+'') ''1'';
          len = days_in_month (target div 12) (nat (target mod 12))
      in if getUTCDate 1706659200000 \<le> len
         then month_index t = target \<and> getUTCDate t = getUTCDate 1706659200000
         else month_index t = target + 1 \<and> getUTCDate t = getUTCDate 1706659200000 - len)"
proof (rule months_are_calendar_months)
  show "RELATIVE_OFFSET_RE ''+1mo'' = Some (CHR ''+'', ''1'', ''mo'')" by code_simp
  have re: "RELATIVE_OFFSET_RE ''+1mo'' = Some (CHR ''+'', ''1'', ''mo'')" by code_simp
  have parts: "getUTCFullYear 1706659200000 = 2024" "getUTCMonth 1706659200000 = 0"
    "getUTCDate 1706659200000 = 31"
    by code_simp+
  have "setUTCMonth 1706659200000 1 = Some 1709337600000"
    unfolding setUTCMonth_def parts by code_simp
  moreover have printed: "getUTCFullYear 1709337600000 = 2024" "getUTCMonth 1709337600000 = 2"
    "getUTCDate 1709337600000 = 2" "time_in_day 1709337600000 = 0"
    by code_simp+
  moreover have "iso_text 1709337600000 = ''2024-03-02T00:00:00.000Z''"
    unfolding iso_text_def printed by (simp add: iso_year_def pad_numeral char_of_def bit_0)
  ultimately show "resolveSymbolicDate ''+1mo'' 1706659200000 = Return (Some ''2024-03-02T00:00:00.000Z'')"
    by (simp add: resolveSymbolicDate_def re parts toISOString_def TODAY_def NOW_def digits_val_def digit_val_def)
qed

end
