(* ===== verification/Validate.thy ===== *)
theory Validate
  imports Filter_Fields Dates
begin

text \<open>
  Checking a filter tree against the fields of its resource, \<open>packages/filter/src/validate.ts\<close>.
  \<open>other\<close> is \<open>Date.parse\<close> outside the standard format (theory \<open>Dates\<close>).
\<close>

record FilterError =
  ferr_path :: "nat list"
  ferr_message :: string

record ValidationResult =
  res_ok :: bool
  res_errors :: "FilterError list"

section \<open>The id pattern\<close>

definition between_chars :: "char \<Rightarrow> char \<Rightarrow> char \<Rightarrow> bool" where
  "between_chars lo hi c \<longleftrightarrow> lo \<le> c \<and> c \<le> hi"

definition hex_char :: "char \<Rightarrow> bool" where
  "hex_char c \<longleftrightarrow> between_chars (CHR ''0'') (CHR ''9'') c \<or> between_chars (CHR ''a'') (CHR ''f'') c \<or>
     between_chars (CHR ''A'') (CHR ''F'') c"

fun pattern_match :: "(char \<Rightarrow> bool) list \<Rightarrow> string \<Rightarrow> bool" where
  "pattern_match [] s = (s = [])"
| "pattern_match (p # ps) [] = False"
| "pattern_match (p # ps) (c # s) = (p c \<and> pattern_match ps s)"

text \<open>\<open>/^[0-9a-f]{8}-[0-9a-f]{4}-[1-8][0-9a-f]{3}-[89ab][0-9a-f]{3}-[0-9a-f]{12}$/i\<close>\<close>

definition UUID :: "(char \<Rightarrow> bool) list" where
  "UUID =
     replicate 8 hex_char @ [(=) (CHR ''-'')] @ replicate 4 hex_char @ [(=) (CHR ''-'')] @
     between_chars (CHR ''1'') (CHR ''8'') # replicate 3 hex_char @ [(=) (CHR ''-'')] @
     (\<lambda>c. c \<in> set ''89abAB'') # replicate 3 hex_char @ [(=) (CHR ''-'')] @ replicate 12 hex_char"

section \<open>One value against its field\<close>

definition quoted_name :: "FieldDefinition \<Rightarrow> string" where
  "quoted_name field = CHR 0x22 # fld_name field @ [CHR 0x22]"

definition expects :: "FieldDefinition \<Rightarrow> string \<Rightarrow> string option" where
  "expects field what = Some (''Field '' @ quoted_name field @ '' expects '' @ what)"

definition me_message :: "FieldDefinition \<Rightarrow> string" where
  "me_message field =
     ''Field '' @ quoted_name field @ '' is not a user field, so '' @ CHR 0x22 # ME @
     CHR 0x22 # '' has no meaning for it.''"

definition checkValue ::
  "(string \<Rightarrow> int option) \<Rightarrow> FieldDefinition \<Rightarrow> FilterValue \<Rightarrow> string option" where
  "checkValue other field v =
     (if v = FNull then None
      else if v = FString ME then
        (if fld_acceptsMe field = Some True then None else Some (me_message field))
      else
        (case fld_type field of
           TText \<Rightarrow> (case v of FString _ \<Rightarrow> None | _ \<Rightarrow> expects field ''text.'')
         | TNumber \<Rightarrow> (case v of FNumber _ \<Rightarrow> None | _ \<Rightarrow> expects field ''a number.'')
         | TBoolean \<Rightarrow> (case v of FBool _ \<Rightarrow> None | _ \<Rightarrow> expects field ''true or false.'')
         | TDate \<Rightarrow>
             (case v of
                FString s \<Rightarrow>
                  if isSymbolicDate s then None
                  else if date_parse other s = None then expects field ''an ISO date.'' else None
              | _ \<Rightarrow> expects field ''an ISO date.'')
         | TUuid \<Rightarrow>
             (case v of
                FString s \<Rightarrow> if pattern_match UUID s then None else expects field ''an id.''
              | _ \<Rightarrow> expects field ''an id.'')
         | TUuidArray \<Rightarrow>
             (case v of
                FString s \<Rightarrow> if pattern_match UUID s then None else expects field ''an id.''
              | _ \<Rightarrow> expects field ''an id.'')
         | TEnum \<Rightarrow>
             (case v of
                FString s \<Rightarrow>
                  if (case fld_options field of Some opts \<Rightarrow> s \<in> set opts | None \<Rightarrow> False) then None
                  else Some (CHR 0x22 # s @ CHR 0x22 # '' is not a valid value for '' @
                             quoted_name field @ ''.'')
              | _ \<Rightarrow> expects field ''one of its options.'')))"

section \<open>The walk over the tree\<close>

definition unknown_field_message :: "string \<Rightarrow> string" where
  "unknown_field_message name = ''Unknown field '' @ CHR 0x22 # name @ CHR 0x22 # ''.''"

definition operator_message :: "FieldDefinition \<Rightarrow> Operator \<Rightarrow> string" where
  "operator_message field operator =
     ''Operator '' @ CHR 0x22 # operator_name operator @ CHR 0x22 # '' cannot be used with '' @
     type_name (fld_type field) @ '' field '' @ quoted_name field @ ''.''"

definition check_comparison ::
  "(string \<Rightarrow> int option) \<Rightarrow> Resource \<Rightarrow> string \<Rightarrow> Operator \<Rightarrow> node_value option \<Rightarrow> string list" where
  "check_comparison other resource name operator v =
     (case findField resource name of
        None \<Rightarrow> [unknown_field_message name]
      | Some field \<Rightarrow>
          if \<not> supportsOperator field operator then [operator_message field operator]
          else if operator \<in> set NULLARY_OPERATORS then []
          else List.map_filter (checkValue other field)
                 (if operator \<in> set LIST_OPERATORS then list_of v else [scalar_of v]))"

fun walk :: "(string \<Rightarrow> int option) \<Rightarrow> Resource \<Rightarrow> FilterNode \<Rightarrow> nat list \<Rightarrow> FilterError list"
and walk_children ::
  "(string \<Rightarrow> int option) \<Rightarrow> Resource \<Rightarrow> nat \<Rightarrow> FilterNode list \<Rightarrow> nat list \<Rightarrow> FilterError list" where
  "walk other resource (GroupNode _ children) path = walk_children other resource 0 children path"
| "walk other resource (NotNode child) path = walk other resource child (path @ [0])"
| "walk other resource (ComparisonNode name operator v) path =
     map (\<lambda>m. \<lparr>ferr_path = path, ferr_message = m\<rparr>) (check_comparison other resource name operator v)"
| "walk_children other resource index [] path = []"
| "walk_children other resource index (child # children) path =
     walk other resource child (path @ [index]) @
     walk_children other resource (Suc index) children path"

definition validate :: "(string \<Rightarrow> int option) \<Rightarrow> Resource \<Rightarrow> FilterNode \<Rightarrow> ValidationResult" where
  "validate other resource node =
     (let errors = walk other resource node []
      in \<lparr>res_ok = (length errors = 0), res_errors = errors\<rparr>)"

end
