(* ===== verification/Compile.thy ===== *)
theory Compile
  imports Validate Format
begin

text \<open>
  Compiling a filter tree to parameterized SQL, \<open>packages/filter/src/compile.ts\<close>. The closure
  \<open>placeholder\<close>, which pushes a value on \<open>params\<close>, is explicit state passing: every emitting function
  takes the parameters so far and returns them extended.
\<close>

datatype compile_error = FilterCompileError string | RangeError date_error

record CompileOptions =
  opt_viewerId :: "string option"
  opt_startIndex :: "nat option"
  opt_now :: "int option"

record CompiledFilter =
  out_sql :: string
  out_params :: "FilterValue list"

definition COMPILABLE_RESOURCES :: "Resource list" where
  "COMPILABLE_RESOURCES = [Card, Search]"

definition no_sql_form :: "Resource \<Rightarrow> string" where
  "no_sql_form resource =
     ''The '' @ CHR 0x22 # resource_name resource @ CHR 0x22 # '' field set has no SQL form '' @ em_dash @
     '' it is evaluated in memory, never compiled.''"

definition no_column :: "FieldDefinition \<Rightarrow> string" where
  "no_column field = ''Field '' @ quoted_name field @ '' has no SQL form and cannot be compiled.''"

definition me_no_meaning :: "FieldDefinition \<Rightarrow> string" where
  "me_no_meaning field =
     CHR 0x22 # ME @ CHR 0x22 # '' has no meaning for field '' @ quoted_name field @ ''.''"

definition no_viewer :: string where
  "no_viewer = ''This filter uses '' @ CHR 0x22 # ME @ CHR 0x22 # '' but no viewer was supplied.''"

section \<open>Values\<close>

text \<open>\<open>String(v)\<close>\<close>

fun js_string :: "FilterValue \<Rightarrow> string" where
  "js_string (FString s) = s"
| "js_string (FNumber n) = string_of_number n"
| "js_string (FBool b) = (if b then ''true'' else ''false'')"
| "js_string FNull = ''null''"

definition replace_all :: "char \<Rightarrow> string \<Rightarrow> string \<Rightarrow> string" where
  "replace_all c by s = concat (map (\<lambda>d. if d = c then by else [d]) s)"

definition escapeLike :: "string \<Rightarrow> string" where
  "escapeLike value =
     replace_all (CHR ''_'') [CHR 0x5C, CHR ''_'']
       (replace_all (CHR ''%'') [CHR 0x5C, CHR ''%'']
         (replace_all (CHR 0x5C) [CHR 0x5C, CHR 0x5C] value))"

text \<open>\<open>now\<close> is \<open>options.now\<close>, which \<open>compile\<close> has set.\<close>

definition resolve ::
  "string option \<Rightarrow> int \<Rightarrow> FieldDefinition \<Rightarrow> FilterValue \<Rightarrow> (compile_error, FilterValue) result" where
  "resolve viewerId now field v =
     (if v \<noteq> FString ME then
        (case v of
           FString s \<Rightarrow>
             if fld_type field = TDate then
               (case resolveSymbolicDate s now of
                  Inl e \<Rightarrow> Throw (RangeError e)
                | Inr (Some resolved) \<Rightarrow> Return (FString resolved)
                | Inr None \<Rightarrow> Return v)
             else Return v
         | _ \<Rightarrow> Return v)
      else if fld_acceptsMe field \<noteq> Some True then Throw (FilterCompileError (me_no_meaning field))
      else (case viewerId of
              None \<Rightarrow> Throw (FilterCompileError no_viewer)
            | Some viewer \<Rightarrow> Return (FString viewer)))"

definition placeholder :: "nat \<Rightarrow> FilterValue \<Rightarrow> FilterValue list \<Rightarrow> string \<times> FilterValue list" where
  "placeholder offset v params =
     (let params' = params @ [v] in
      (CHR ''$'' # decimal_of_nat (length params' + offset - 1), params'))"

fun placeholders ::
  "nat \<Rightarrow> FilterValue list \<Rightarrow> FilterValue list \<Rightarrow> string list \<times> FilterValue list" where
  "placeholders offset [] params = ([], params)"
| "placeholders offset (v # vs) params =
     (let (p, params1) = placeholder offset v params;
          (ps, params2) = placeholders offset vs params1 in (p # ps, params2))"

section \<open>Comparisons\<close>

fun COMPARISON_TOKENS :: "Operator \<Rightarrow> string" where
  "COMPARISON_TOKENS Eq = ''=''"
| "COMPARISON_TOKENS Neq = ''<>''"
| "COMPARISON_TOKENS Lt = ''<''"
| "COMPARISON_TOKENS Lte = ''<=''"
| "COMPARISON_TOKENS Gt = ''>''"
| "COMPARISON_TOKENS Gte = ''>=''"
| "COMPARISON_TOKENS _ = []"

definition like_escape :: string where "like_escape = '' ESCAPE '' @ [CHR 0x27, CHR 0x5C, CHR 0x27]"

definition cast_of :: "FieldType \<Rightarrow> string" where
  "cast_of ty = (if ty = TUuid then ''::uuid'' else if ty = TDate then ''::timestamptz'' else [])"

definition emitComparison_sql ::
  "string option \<Rightarrow> int \<Rightarrow> nat \<Rightarrow> FieldDefinition \<Rightarrow> Operator \<Rightarrow> node_value option \<Rightarrow>
   FilterValue list \<Rightarrow> (compile_error, string \<times> FilterValue list) result" where
  "emitComparison_sql viewerId now offset field operator v params =
     (case fld_sql field of
        None \<Rightarrow> Throw (FilterCompileError (no_column field))
      | Some column \<Rightarrow>
          (let isArray = (fld_type field = TUuidArray) in
           if operator = Is_Empty then
             Return (if isArray
                     then ''('' @ column @ '' IS NULL OR cardinality('' @ column @ '') = 0)''
                     else column @ '' IS NULL'', params)
           else if operator = Is_Not_Empty then
             Return (if isArray
                     then ''('' @ column @ '' IS NOT NULL AND cardinality('' @ column @ '') > 0)''
                     else column @ '' IS NOT NULL'', params)
           else if operator = In \<or> operator = Not_In then
             bind_result (map_result (resolve viewerId now field) (list_of v)) (\<lambda>values.
               if length values = 0
               then Return (if operator = In then ''FALSE'' else ''TRUE'', params)
               else
                 (let (ps, params') = placeholders offset values params;
                      list = join '', '' ps in
                  if isArray then
                    (let expression = column @ '' && ARRAY['' @ list @ '']::uuid[]'' in
                     Return (if operator = In then ''('' @ expression @ '')''
                             else ''(NOT COALESCE('' @ expression @ '', FALSE))'', params'))
                  else if operator = In
                  then Return (column @ '' IN ('' @ list @ '')'', params')
                  else Return (''(NOT COALESCE('' @ column @ '' IN ('' @ list @ ''), FALSE))'', params')))
           else if operator = Contains then
             bind_result (resolve viewerId now field (scalar_of v)) (\<lambda>r.
               (let escaped = escapeLike (js_string r);
                    (p, params') = placeholder offset (FString (''%'' @ escaped @ ''%'')) params in
                Return (column @ '' ILIKE '' @ p @ like_escape, params')))
           else
             bind_result (resolve viewerId now field (scalar_of v)) (\<lambda>resolved.
               if resolved = FNull
               then Return (if operator = Neq then column @ '' IS NOT NULL'' else column @ '' IS NULL'',
                            params)
               else
                 (let (p, params') = placeholder offset resolved params in
                  Return (column @ '' '' @ COMPARISON_TOKENS operator @ '' '' @ p @
                          cast_of (fld_type field), params')))))"

section \<open>The tree\<close>

fun emit_sql ::
  "string option \<Rightarrow> int \<Rightarrow> nat \<Rightarrow> Resource \<Rightarrow> FilterNode \<Rightarrow> FilterValue list \<Rightarrow>
   (compile_error, string \<times> FilterValue list) result"
and emit_children ::
  "string option \<Rightarrow> int \<Rightarrow> nat \<Rightarrow> Resource \<Rightarrow> FilterNode list \<Rightarrow> FilterValue list \<Rightarrow>
   (compile_error, string list \<times> FilterValue list) result" where
  "emit_sql viewerId now offset resource (GroupNode c children) params =
     (if children = [] then Return (if c = AndC then ''TRUE'' else ''FALSE'', params)
      else bind_result (emit_children viewerId now offset resource children params)
             (\<lambda>(parts, params'). Return
                (''('' @ join (if c = AndC then '' AND '' else '' OR '') parts @ '')'', params')))"
| "emit_sql viewerId now offset resource (NotNode child) params =
     bind_result (emit_sql viewerId now offset resource child params) (\<lambda>(sql, params').
       Return (''(NOT COALESCE('' @ sql @ '', FALSE))'', params'))"
| "emit_sql viewerId now offset resource (ComparisonNode name operator v) params =
     (case findField resource name of
        None \<Rightarrow> Throw (FilterCompileError (unknown_field_message name))
      | Some field \<Rightarrow> emitComparison_sql viewerId now offset field operator v params)"
| "emit_children viewerId now offset resource [] params = Return ([], params)"
| "emit_children viewerId now offset resource (child # children) params =
     bind_result (emit_sql viewerId now offset resource child params) (\<lambda>(sql, params1).
     bind_result (emit_children viewerId now offset resource children params1) (\<lambda>(parts, params2).
       Return (sql # parts, params2)))"

text \<open>\<open>clock\<close> is what \<open>new Date()\<close> returns.\<close>

definition compile ::
  "(string \<Rightarrow> int option) \<Rightarrow> int \<Rightarrow> Resource \<Rightarrow> FilterNode \<Rightarrow> CompileOptions \<Rightarrow>
   (compile_error, CompiledFilter) result" where
  "compile other clock resource node options =
     (if resource \<notin> set COMPILABLE_RESOURCES then Throw (FilterCompileError (no_sql_form resource))
      else
        (let result = validate other resource node in
         if \<not> res_ok result then
           Throw (FilterCompileError (''Refusing to compile an invalid filter: '' @
             join ''; '' (map ferr_message (res_errors result))))
         else
           (let offset = (case opt_startIndex options of None \<Rightarrow> 1 | Some i \<Rightarrow> i);
                now = (case opt_now options of None \<Rightarrow> clock | Some t \<Rightarrow> t) in
            bind_result (emit_sql (opt_viewerId options) now offset resource node [])
              (\<lambda>(sql, params). Return \<lparr>out_sql = sql, out_params = params\<rparr>))))"

end
