(* ===== verification/Sql.thy ===== *)
theory Sql
  imports Compile Dates_Correct
begin

text \<open>
  The SQL the compiler emits as an expression tree. \<open>expr_of\<close> is the compiler without text and
  numbering, \<open>render\<close> prints an expression with its placeholders numbered from a given one, and
  \<open>sql_values\<close> lists the parameters in the order of their placeholders. The refinement lemma says the
  text-building, state-passing \<open>emit_sql\<close> does exactly that; the properties of \<open>compile\<close> are proved on
  expressions and carried over.
\<close>

datatype sql_expr =
    SqlConst bool
  | SqlNull FieldDefinition
  | SqlNotNull FieldDefinition
  | SqlNoElements FieldDefinition
  | SqlHasElements FieldDefinition
  | SqlIn FieldDefinition "FilterValue list"
  | SqlOverlaps FieldDefinition "FilterValue list"
  | SqlLike FieldDefinition string
  | SqlCompare Operator FieldDefinition FilterValue
  | SqlParens sql_expr
  | SqlNot sql_expr
  | SqlJoin combinator "sql_expr list"

fun sql_values :: "sql_expr \<Rightarrow> FilterValue list" where
  "sql_values (SqlIn _ vs) = vs"
| "sql_values (SqlOverlaps _ vs) = vs"
| "sql_values (SqlLike _ pat) = [FString pat]"
| "sql_values (SqlCompare _ _ v) = [v]"
| "sql_values (SqlParens e) = sql_values e"
| "sql_values (SqlNot e) = sql_values e"
| "sql_values (SqlJoin _ es) = concat (map sql_values es)"
| "sql_values _ = []"

definition column :: "FieldDefinition \<Rightarrow> string" where
  "column field = (case fld_sql field of Some c \<Rightarrow> c | None \<Rightarrow> [])"

definition dollar :: "nat \<Rightarrow> string" where
  "dollar n = CHR ''$'' # decimal_of_nat n"

definition value_list :: "nat \<Rightarrow> 'v list \<Rightarrow> string" where
  "value_list n vs = join '', '' (map dollar [n..<n + length vs])"

fun render :: "nat \<Rightarrow> sql_expr \<Rightarrow> string"
and render_list :: "nat \<Rightarrow> sql_expr list \<Rightarrow> string list" where
  "render n (SqlConst b) = (if b then ''TRUE'' else ''FALSE'')"
| "render n (SqlNull f) = column f @ '' IS NULL''"
| "render n (SqlNotNull f) = column f @ '' IS NOT NULL''"
| "render n (SqlNoElements f) =
     ''('' @ column f @ '' IS NULL OR cardinality('' @ column f @ '') = 0)''"
| "render n (SqlHasElements f) =
     ''('' @ column f @ '' IS NOT NULL AND cardinality('' @ column f @ '') > 0)''"
| "render n (SqlIn f vs) = column f @ '' IN ('' @ value_list n vs @ '')''"
| "render n (SqlOverlaps f vs) = column f @ '' && ARRAY['' @ value_list n vs @ '']::uuid[]''"
| "render n (SqlLike f pat) = column f @ '' ILIKE '' @ dollar n @ like_escape"
| "render n (SqlCompare oper f v) =
     column f @ '' '' @ COMPARISON_TOKENS oper @ '' '' @ dollar n @ cast_of (fld_type f)"
| "render n (SqlParens e) = ''('' @ render n e @ '')''"
| "render n (SqlNot e) = ''(NOT COALESCE('' @ render n e @ '', FALSE))''"
| "render n (SqlJoin c es) =
     ''('' @ join (if c = AndC then '' AND '' else '' OR '') (render_list n es) @ '')''"
| "render_list n [] = []"
| "render_list n (e # es) = render n e # render_list (n + length (sql_values e)) es"

section \<open>The compiler without text\<close>

definition expr_of_list :: "FieldDefinition \<Rightarrow> Operator \<Rightarrow> FilterValue list \<Rightarrow> sql_expr" where
  "expr_of_list field operator vs =
     (let expression = (if fld_type field = TUuidArray then SqlOverlaps field vs else SqlIn field vs) in
      if vs = [] then SqlConst (operator = Not_In)
      else if operator = Not_In then SqlNot expression
      else if fld_type field = TUuidArray then SqlParens expression else expression)"

definition expr_of_scalar :: "FieldDefinition \<Rightarrow> Operator \<Rightarrow> FilterValue \<Rightarrow> sql_expr" where
  "expr_of_scalar field operator v =
     (if operator = Contains then SqlLike field (''%'' @ escapeLike (js_string v) @ ''%'')
      else if v = FNull then (if operator = Neq then SqlNotNull field else SqlNull field)
      else SqlCompare operator field v)"

definition expr_of_empty :: "FieldDefinition \<Rightarrow> Operator \<Rightarrow> sql_expr" where
  "expr_of_empty field operator =
     (if operator = Is_Empty
      then if fld_type field = TUuidArray then SqlNoElements field else SqlNull field
      else if fld_type field = TUuidArray then SqlHasElements field else SqlNotNull field)"

definition expr_of_comparison ::
  "string option \<Rightarrow> int \<Rightarrow> FieldDefinition \<Rightarrow> Operator \<Rightarrow> node_value option \<Rightarrow>
   (compile_error, sql_expr) result" where
  "expr_of_comparison viewerId now field operator v =
     (if fld_sql field = None then Throw (FilterCompileError (no_column field))
      else if operator \<in> set NULLARY_OPERATORS then Return (expr_of_empty field operator)
      else if operator \<in> set LIST_OPERATORS
      then bind_result (map_result (resolve viewerId now field) (list_of v))
             (\<lambda>vs. Return (expr_of_list field operator vs))
      else bind_result (resolve viewerId now field (scalar_of v))
             (\<lambda>x. Return (expr_of_scalar field operator x)))"

fun expr_of :: "string option \<Rightarrow> int \<Rightarrow> Resource \<Rightarrow> FilterNode \<Rightarrow> (compile_error, sql_expr) result" where
  "expr_of viewerId now resource (GroupNode c children) =
     (if children = [] then Return (SqlConst (c = AndC))
      else bind_result (map_result (expr_of viewerId now resource) children)
             (\<lambda>es. Return (SqlJoin c es)))"
| "expr_of viewerId now resource (NotNode child) =
     bind_result (expr_of viewerId now resource child) (\<lambda>e. Return (SqlNot e))"
| "expr_of viewerId now resource (ComparisonNode name operator v) =
     (case findField resource name of
        None \<Rightarrow> Throw (FilterCompileError (unknown_field_message name))
      | Some field \<Rightarrow> expr_of_comparison viewerId now field operator v)"

section \<open>The refinement\<close>

lemma placeholders_numbered:
  "placeholders offset vs params =
     (map dollar [length params + offset..<length params + offset + length vs], params @ vs)"
proof (induction vs arbitrary: params)
  case (Cons v vs)
  show ?case
    using Cons [of "params @ [v]"] upt_conv_Cons [of "length params + offset" "length params + offset + length (v # vs)"]
    by (simp add: placeholder_def dollar_def Let_def del: upt_Suc)
qed simp

lemma operator_kind:
  obtains "operator = Is_Empty \<or> operator = Is_Not_Empty" | "operator = In \<or> operator = Not_In"
  | "operator = Contains" | "operator \<in> {Eq, Neq, Lt, Lte, Gt, Gte}"
  by (cases operator) auto

lemmas operator_groups = NULLARY_OPERATORS_def LIST_OPERATORS_def

lemma emitComparison_refines:
  "emitComparison_sql viewerId now offset field operator v params =
     bind_result (expr_of_comparison viewerId now field operator v)
       (\<lambda>e. Return (render (length params + offset) e, params @ sql_values e))"
proof (cases "fld_sql field")
  case None
  then show ?thesis by (simp add: emitComparison_sql_def expr_of_comparison_def)
next
  case (Some col)
  then have col: "column field = col" by (simp add: column_def)
  show ?thesis
  proof (cases rule: operator_kind [of operator])
    case 1
    then show ?thesis using Some col
      by (auto simp: emitComparison_sql_def expr_of_comparison_def expr_of_empty_def operator_groups Let_def)
  next
    case 2
    then show ?thesis using Some col
      by (auto simp: emitComparison_sql_def expr_of_comparison_def expr_of_list_def operator_groups
          Let_def bind_result_assoc placeholders_numbered value_list_def intro!: bind_result_cong2)
  next
    case 3
    then show ?thesis using Some col
      by (auto simp: emitComparison_sql_def expr_of_comparison_def expr_of_scalar_def operator_groups
          Let_def bind_result_assoc placeholder_def dollar_def intro!: bind_result_cong2)
  next
    case 4
    then have "operator \<notin> set NULLARY_OPERATORS" "operator \<notin> set LIST_OPERATORS" "operator \<noteq> Contains"
      "operator \<noteq> Is_Empty" "operator \<noteq> Is_Not_Empty" "operator \<noteq> In" "operator \<noteq> Not_In"
      by (auto simp: operator_groups)
    then show ?thesis using Some col
      by (auto simp: emitComparison_sql_def expr_of_comparison_def expr_of_scalar_def
          Let_def bind_result_assoc placeholder_def dollar_def intro!: bind_result_cong2)
  qed
qed

lemma emit_refines:
  "emit_sql viewerId now offset resource node params =
     bind_result (expr_of viewerId now resource node)
       (\<lambda>e. Return (render (length params + offset) e, params @ sql_values e))"
  "emit_children viewerId now offset resource children params =
     bind_result (map_result (expr_of viewerId now resource) children)
       (\<lambda>es. Return (render_list (length params + offset) es, params @ concat (map sql_values es)))"
proof (induction viewerId now offset resource node params
    and viewerId now offset resource children params
    rule: emit_sql_emit_children.induct)
  case (5 viewerId now offset resource child children params)
  show ?case
  proof (cases "expr_of viewerId now resource child")
    case (Inl err)
    then show ?thesis by (simp add: 5(1))
  next
    case (Inr e)
    then have emitted: "emit_sql viewerId now offset resource child params =
        Inr (render (length params + offset) e, params @ sql_values e)"
      by (simp add: 5(1))
    with Inr emitted show ?thesis using 5(2) [OF emitted refl] by (simp add: bind_result_assoc ac_simps)
  qed
qed (auto simp: bind_result_assoc emitComparison_refines split: option.splits intro!: bind_result_cong2)

end
