(* ===== verification/Evaluate.thy ===== *)
theory Evaluate
  imports Compile
begin

text \<open>
  The in-memory evaluator, \<open>packages/filter/src/evaluate.ts\<close>. A row maps field names to JavaScript
  values; \<open>RDate\<close> is a \<open>Date\<close> with its time value (\<open>None\<close>: invalid) and the text \<open>String\<close> gives for it,
  \<open>ROther\<close> any other object with that text. A symbolic date out of range throws, so the result is a
  \<open>result\<close>, and \<open>every\<close> and \<open>some\<close> stop at the first child that decides them.
\<close>

datatype row_value =
    RUndefined | RNull | RString string | RNumber number | RBool bool | RArray "row_value list"
  | RDate "int option" string | ROther string

type_synonym EvaluableRow = "string \<Rightarrow> row_value"

record EvaluateOptions =
  ev_viewerId :: "string option"
  ev_now :: "int option"

definition isNullish :: "row_value \<Rightarrow> bool" where
  "isNullish v = (v = RNull \<or> v = RUndefined)"

fun is_array :: "row_value \<Rightarrow> bool" where
  "is_array (RArray _) = True"
| "is_array _ = False"

fun elements :: "row_value \<Rightarrow> row_value list" where
  "elements (RArray vs) = vs"
| "elements _ = []"

text \<open>A filter value as the JavaScript value it is; \<open>includes\<close> compares with it.\<close>

fun row_of :: "FilterValue \<Rightarrow> row_value" where
  "row_of (FString s) = RString s"
| "row_of (FNumber n) = RNumber n"
| "row_of (FBool b) = RBool b"
| "row_of FNull = RNull"

definition includes_value :: "FilterValue list \<Rightarrow> row_value \<Rightarrow> bool" where
  "includes_value wanted actual = (actual \<in> set (map row_of wanted))"

fun row_string :: "row_value \<Rightarrow> string" where
  "row_string RUndefined = ''undefined''"
| "row_string RNull = ''null''"
| "row_string (RString s) = s"
| "row_string (RNumber n) = string_of_number n"
| "row_string (RBool b) = (if b then ''true'' else ''false'')"
| "row_string (RArray vs) =
     join '','' (map (\<lambda>v. if v = RNull \<or> v = RUndefined then [] else row_string v) vs)"
| "row_string (RDate _ s) = s"
| "row_string (ROther s) = s"

text \<open>\<open>undefined\<close> is \<open>None\<close>; the time value of an invalid \<open>Date\<close> is \<open>NaN\<close>, \<open>Some None\<close>.\<close>

fun toInstant :: "(string \<Rightarrow> int option) \<Rightarrow> row_value \<Rightarrow> int option option" where
  "toInstant other (RDate t _) = Some t"
| "toInstant other (RString s) = (case date_parse other s of None \<Rightarrow> None | Some t \<Rightarrow> Some (Some t))"
| "toInstant other _ = None"

text \<open>\<open>a === b ? 0 : a < b ? -1 : 1\<close> on numbers, where every comparison with \<open>NaN\<close> is false.\<close>

definition order_time :: "int option \<Rightarrow> int option \<Rightarrow> int" where
  "order_time a b =
     (case (a, b) of (Some x, Some y) \<Rightarrow> if x = y then 0 else if x < y then -1 else 1 | _ \<Rightarrow> 1)"

definition orderOf ::
  "(string \<Rightarrow> int option) \<Rightarrow> FieldDefinition \<Rightarrow> row_value \<Rightarrow> FilterValue \<Rightarrow> int option" where
  "orderOf other field actual expected =
     (if fld_type field = TDate then
        (case (toInstant other actual, toInstant other (row_of expected)) of
           (Some left, Some right) \<Rightarrow> Some (order_time left right)
         | _ \<Rightarrow> None)
      else if fld_type field = TNumber then
        (case (actual, expected) of
           (RNumber a, FNumber b) \<Rightarrow> Some (if a = b then 0 else if num_less a b then -1 else 1)
         | _ \<Rightarrow> None)
      else if fld_type field = TBoolean then
        (case (actual, expected) of
           (RBool a, FBool b) \<Rightarrow> Some (if a = b then 0 else if a then 1 else -1)
         | _ \<Rightarrow> None)
      else
        (let left = row_string actual; right = js_string expected in
         Some (if left = right then 0 else if left < right then -1 else 1)))"

definition resolve_row ::
  "string option \<Rightarrow> int \<Rightarrow> FieldDefinition \<Rightarrow> FilterValue \<Rightarrow> (date_error, FilterValue) result" where
  "resolve_row viewerId now field v =
     (if v \<noteq> FString ME then
        (case v of
           FString s \<Rightarrow>
             if fld_type field = TDate then
               (case resolveSymbolicDate s now of
                  Inl e \<Rightarrow> Throw e
                | Inr (Some resolved) \<Rightarrow> Return (FString resolved)
                | Inr None \<Rightarrow> Return v)
             else Return v
         | _ \<Rightarrow> Return v)
      else if fld_acceptsMe field \<noteq> Some True \<or> viewerId = None then Return FNull
      else Return (FString (the viewerId)))"

fun substring_of :: "string \<Rightarrow> string \<Rightarrow> bool" where
  "substring_of needle [] = (needle = [])"
| "substring_of needle (c # s) = (prefix needle (c # s) \<or> substring_of needle s)"

fun decide_order :: "Operator \<Rightarrow> int \<Rightarrow> bool" where
  "decide_order Eq order = (order = 0)"
| "decide_order Neq order = (order \<noteq> 0)"
| "decide_order Lt order = (order < 0)"
| "decide_order Lte order = (order \<le> 0)"
| "decide_order Gt order = (order > 0)"
| "decide_order Gte order = (order \<ge> 0)"
| "decide_order _ order = False"

definition compare_row ::
  "(string \<Rightarrow> int option) \<Rightarrow> string option \<Rightarrow> int \<Rightarrow> FieldDefinition \<Rightarrow> Operator \<Rightarrow>
   node_value option \<Rightarrow> EvaluableRow \<Rightarrow> (date_error, bool) result" where
  "compare_row other viewerId now field operator v row =
     (let actual = row (fld_name field);
          isArray = (fld_type field = TUuidArray) in
      if operator = Is_Empty then
        Return (if isArray then \<not> is_array actual \<or> length (elements actual) = 0 else isNullish actual)
      else if operator = Is_Not_Empty then
        Return (if isArray then is_array actual \<and> length (elements actual) > 0
                else \<not> isNullish actual)
      else if operator = In \<or> operator = Not_In then
        bind_result (map_result (resolve_row viewerId now field) (list_of v)) (\<lambda>wanted.
          if length wanted = 0 then Return (operator = Not_In)
          else
            (let matched = (if isArray
                            then is_array actual \<and> list_ex (includes_value wanted) (elements actual)
                            else includes_value wanted actual) in
             Return (if operator = In then matched else \<not> matched)))
      else if operator = Contains then
        (case actual of
           RString s \<Rightarrow>
             bind_result (resolve_row viewerId now field (scalar_of v)) (\<lambda>r.
               Return (substring_of (to_lower (js_string r)) (to_lower s)))
         | _ \<Rightarrow> Return False)
      else
        bind_result (resolve_row viewerId now field (scalar_of v)) (\<lambda>expected.
          if expected = FNull then
            Return (if operator = Neq then \<not> isNullish actual else isNullish actual)
          else if isNullish actual then Return False
          else
            (case orderOf other field actual expected of
               None \<Rightarrow> Return False
             | Some order \<Rightarrow> Return (decide_order operator order))))"

fun evaluateWith ::
  "(string \<Rightarrow> int option) \<Rightarrow> string option \<Rightarrow> int \<Rightarrow> Resource \<Rightarrow> FilterNode \<Rightarrow> EvaluableRow \<Rightarrow>
   (date_error, bool) result"
and evaluate_every ::
  "(string \<Rightarrow> int option) \<Rightarrow> string option \<Rightarrow> int \<Rightarrow> Resource \<Rightarrow> FilterNode list \<Rightarrow> EvaluableRow \<Rightarrow>
   (date_error, bool) result"
and evaluate_some ::
  "(string \<Rightarrow> int option) \<Rightarrow> string option \<Rightarrow> int \<Rightarrow> Resource \<Rightarrow> FilterNode list \<Rightarrow> EvaluableRow \<Rightarrow>
   (date_error, bool) result" where
  "evaluateWith other viewerId now resource (GroupNode c children) row =
     (if children = [] then Return (c = AndC)
      else if c = AndC then evaluate_every other viewerId now resource children row
      else evaluate_some other viewerId now resource children row)"
| "evaluateWith other viewerId now resource (NotNode child) row =
     bind_result (evaluateWith other viewerId now resource child row) (\<lambda>b. Return (\<not> b))"
| "evaluateWith other viewerId now resource (ComparisonNode name operator v) row =
     (case findField resource name of
        None \<Rightarrow> Return False
      | Some field \<Rightarrow> compare_row other viewerId now field operator v row)"
| "evaluate_every other viewerId now resource [] row = Return True"
| "evaluate_every other viewerId now resource (child # children) row =
     bind_result (evaluateWith other viewerId now resource child row) (\<lambda>b.
       if b then evaluate_every other viewerId now resource children row else Return False)"
| "evaluate_some other viewerId now resource [] row = Return False"
| "evaluate_some other viewerId now resource (child # children) row =
     bind_result (evaluateWith other viewerId now resource child row) (\<lambda>b.
       if b then Return True else evaluate_some other viewerId now resource children row)"

definition evaluate ::
  "(string \<Rightarrow> int option) \<Rightarrow> int \<Rightarrow> Resource \<Rightarrow> FilterNode \<Rightarrow> EvaluableRow \<Rightarrow> EvaluateOptions \<Rightarrow>
   (date_error, bool) result" where
  "evaluate other clock resource node row options =
     evaluateWith other (ev_viewerId options)
       (case ev_now options of None \<Rightarrow> clock | Some t \<Rightarrow> t) resource node row"

end
