(* ===== verification/Sql_Semantics.thy ===== *)
theory Sql_Semantics
  imports Sql Evaluate
begin

text \<open>
  What an emitted expression selects: three-valued logic over the columns of one row, as the comments of
  \<open>compile.ts\<close> and \<open>evaluate.ts\<close> rely on it. A column holds a value or NULL; \<open>column_of\<close> is the value stored for
  what the evaluator sees of the row. \<open>timestamptz\<close> is the database's cast of a text to an instant, a
  parameter. Texts, ids and arrays are never ordered: no operator table offers an ordering for them.
\<close>

datatype sql_value =
    VText string | VNumber number | VBool bool | VInstant int | VId string | VIds "string list"

definition text_of :: "row_value \<Rightarrow> string option" where
  "text_of v = (case v of RString s \<Rightarrow> Some s | _ \<Rightarrow> None)"

definition column_of :: "(string \<Rightarrow> int option) \<Rightarrow> FieldType \<Rightarrow> row_value \<Rightarrow> sql_value option" where
  "column_of other ty v =
     (case ty of
        TText \<Rightarrow> map_option VText (text_of v)
      | TEnum \<Rightarrow> map_option VText (text_of v)
      | TUuid \<Rightarrow> map_option VId (text_of v)
      | TNumber \<Rightarrow> (case v of RNumber n \<Rightarrow> Some (VNumber n) | _ \<Rightarrow> None)
      | TBoolean \<Rightarrow> (case v of RBool b \<Rightarrow> Some (VBool b) | _ \<Rightarrow> None)
      | TDate \<Rightarrow> (case toInstant other v of Some (Some t) \<Rightarrow> Some (VInstant t) | _ \<Rightarrow> None)
      | TUuidArray \<Rightarrow> (if is_array v then Some (VIds (List.map_filter text_of (elements v))) else None))"

text \<open>A row the database can have produced: every field is nullish or has a value of its type, and ids
  are printed in lower case.\<close>

definition canonical_id :: "string \<Rightarrow> bool" where "canonical_id s = (to_lower s = s)"

definition value_fits :: "(string \<Rightarrow> int option) \<Rightarrow> FieldType \<Rightarrow> row_value \<Rightarrow> bool" where
  "value_fits other ty v =
     (isNullish v \<or>
      (case ty of
         TText \<Rightarrow> text_of v \<noteq> None
       | TEnum \<Rightarrow> text_of v \<noteq> None
       | TUuid \<Rightarrow> (case text_of v of Some s \<Rightarrow> canonical_id s | None \<Rightarrow> False)
       | TNumber \<Rightarrow> (case v of RNumber n \<Rightarrow> normal n | _ \<Rightarrow> False)
       | TBoolean \<Rightarrow> (case v of RBool _ \<Rightarrow> True | _ \<Rightarrow> False)
       | TDate \<Rightarrow> (case toInstant other v of Some (Some _) \<Rightarrow> True | _ \<Rightarrow> False)
       | TUuidArray \<Rightarrow> is_array v \<and> list_all (\<lambda>e. case text_of e of Some s \<Rightarrow> canonical_id s | None \<Rightarrow> False) (elements v)))"

definition row_fits :: "(string \<Rightarrow> int option) \<Rightarrow> Resource \<Rightarrow> EvaluableRow \<Rightarrow> bool" where
  "row_fits other resource row =
     list_all (\<lambda>f. value_fits other (fld_type f) (row (fld_name f))) (fieldsOf resource)"

section \<open>Values and operators\<close>

definition param_value :: "(string \<Rightarrow> int option) \<Rightarrow> FieldType \<Rightarrow> FilterValue \<Rightarrow> sql_value option" where
  "param_value timestamptz ty v =
     (case v of
        FString s \<Rightarrow>
          if ty = TUuid \<or> ty = TUuidArray then Some (VId (to_lower s))
          else if ty = TDate then map_option VInstant (timestamptz s)
          else Some (VText s)
      | FNumber n \<Rightarrow> Some (VNumber n)
      | FBool b \<Rightarrow> Some (VBool b)
      | FNull \<Rightarrow> None)"

fun sql_less :: "sql_value \<Rightarrow> sql_value \<Rightarrow> bool" where
  "sql_less (VNumber a) (VNumber b) = num_less a b"
| "sql_less (VInstant a) (VInstant b) = (a < b)"
| "sql_less _ _ = False"

fun sql_compare :: "Operator \<Rightarrow> sql_value \<Rightarrow> sql_value \<Rightarrow> bool" where
  "sql_compare Eq a b = (a = b)"
| "sql_compare Neq a b = (a \<noteq> b)"
| "sql_compare Lt a b = sql_less a b"
| "sql_compare Lte a b = (sql_less a b \<or> a = b)"
| "sql_compare Gt a b = sql_less b a"
| "sql_compare Gte a b = (sql_less b a \<or> a = b)"
| "sql_compare _ a b = False"

text \<open>\<open>LIKE\<close> with the escape character \<open>\\<close>: the pattern characters are \<open>%\<close> and \<open>_\<close>.\<close>

fun like_match :: "string \<Rightarrow> string \<Rightarrow> bool" where
  "like_match [] s = (s = [])"
| "like_match (p # ps) s =
     (if p = CHR ''%'' then like_match ps s \<or> (case s of [] \<Rightarrow> False | _ # s' \<Rightarrow> like_match (p # ps) s')
      else if p = CHR 0x5C \<and> ps \<noteq> []
      then (case s of [] \<Rightarrow> False | c # s' \<Rightarrow> c = hd ps \<and> like_match (tl ps) s')
      else (case s of [] \<Rightarrow> False | c # s' \<Rightarrow> (p = CHR ''_'' \<or> c = p) \<and> like_match ps s'))"

definition sql_in :: "sql_value \<Rightarrow> sql_value option list \<Rightarrow> bool option" where
  "sql_in a vs = (if Some a \<in> set vs then Some True else if None \<in> set vs then None else Some False)"

definition ids_overlap :: "string list \<Rightarrow> sql_value option list \<Rightarrow> bool" where
  "ids_overlap ss vs = list_ex (\<lambda>s. Some (VId s) \<in> set vs) ss"

fun sql_and :: "bool option list \<Rightarrow> bool option" where
  "sql_and bs = (if Some False \<in> set bs then Some False else if None \<in> set bs then None else Some True)"

fun sql_or :: "bool option list \<Rightarrow> bool option" where
  "sql_or bs = (if Some True \<in> set bs then Some True else if None \<in> set bs then None else Some False)"

section \<open>Expressions\<close>

fun truth ::
  "(string \<Rightarrow> int option) \<Rightarrow> (FieldDefinition \<Rightarrow> sql_value option) \<Rightarrow> sql_expr \<Rightarrow> bool option" where
  "truth timestamptz col (SqlConst b) = Some b"
| "truth timestamptz col (SqlNull f) = Some (col f = None)"
| "truth timestamptz col (SqlNotNull f) = Some (col f \<noteq> None)"
| "truth timestamptz col (SqlNoElements f) = Some (col f = None \<or> col f = Some (VIds []))"
| "truth timestamptz col (SqlHasElements f) = Some (col f \<noteq> None \<and> col f \<noteq> Some (VIds []))"
| "truth timestamptz col (SqlIn f vs) =
     Option.bind (col f) (\<lambda>a. sql_in a (map (param_value timestamptz (fld_type f)) vs))"
| "truth timestamptz col (SqlOverlaps f vs) =
     (case col f of
        Some (VIds ss) \<Rightarrow> Some (ids_overlap ss (map (param_value timestamptz (fld_type f)) vs))
      | _ \<Rightarrow> None)"
| "truth timestamptz col (SqlLike f pat) =
     (case col f of Some (VText s) \<Rightarrow> Some (like_match (to_lower pat) (to_lower s)) | _ \<Rightarrow> None)"
| "truth timestamptz col (SqlCompare oper f v) =
     Option.bind (col f) (\<lambda>a. map_option (sql_compare oper a) (param_value timestamptz (fld_type f) v))"
| "truth timestamptz col (SqlParens e) = truth timestamptz col e"
| "truth timestamptz col (SqlNot e) = Some (truth timestamptz col e \<noteq> Some True)"
| "truth timestamptz col (SqlJoin c es) =
     (if c = AndC then sql_and (map (truth timestamptz col) es) else sql_or (map (truth timestamptz col) es))"

text \<open>\<open>WHERE e\<close> keeps the row.\<close>

definition selects ::
  "(string \<Rightarrow> int option) \<Rightarrow> (string \<Rightarrow> int option) \<Rightarrow> EvaluableRow \<Rightarrow> sql_expr \<Rightarrow> bool" where
  "selects timestamptz other row e =
     (truth timestamptz (\<lambda>f. column_of other (fld_type f) (row (fld_name f))) e = Some True)"

section \<open>\<open>LIKE\<close> on an escaped value is a substring test\<close>

definition escape_char :: "char \<Rightarrow> string" where
  "escape_char c = (if c = CHR 0x5C \<or> c = CHR ''%'' \<or> c = CHR ''_'' then [CHR 0x5C, c] else [c])"

lemma replace_all_append: "replace_all c by (a @ b) = replace_all c by a @ replace_all c by b"
  by (simp add: replace_all_def)

lemma escapeLike_chars: "escapeLike s = concat (map escape_char s)"
proof (induction s)
  case Nil
  show ?case by (simp add: escapeLike_def replace_all_def)
next
  case (Cons c s)
  have "escapeLike (c # s) = escapeLike [c] @ escapeLike s"
    unfolding escapeLike_def by (metis append_Cons append_Nil replace_all_append)
  moreover have "escapeLike [c] = escape_char c"
    by (simp add: escapeLike_def replace_all_def escape_char_def)
  ultimately show ?case using Cons by simp
qed

lemma lower_fixed: "lower_char (CHR 0x5C) = CHR 0x5C" "lower_char (CHR ''%'') = CHR ''%''" "lower_char (CHR ''_'') = CHR ''_''"
  by code_simp+

lemma lower_special:
  "lower_char c = CHR 0x5C \<longleftrightarrow> c = CHR 0x5C" "lower_char c = CHR ''%'' \<longleftrightarrow> c = CHR ''%''"
  "lower_char c = CHR ''_'' \<longleftrightarrow> c = CHR ''_''"
proof -
  have fixed: "lower_char c \<noteq> c \<Longrightarrow> lower_char c \<notin> {CHR 0x5C, CHR ''%'', CHR ''_''}"
  proof
    assume c: "lower_char c \<noteq> c" "lower_char c \<in> {CHR 0x5C, CHR ''%'', CHR ''_''}"
    define n where "n = (of_char c :: nat)"
    have "lower_char c = char_of (n + 32)" "97 \<le> n + 32" "n + 32 < 256" "n \<noteq> 63"
      using c(1) by (auto simp: lower_char_def Let_def n_def [symmetric] split: if_splits)
    then have "of_char (lower_char c) = n + 32" by simp
    moreover have "of_char (lower_char c) \<in> {92, 37, 95 :: nat}" using c(2) by auto
    ultimately show False using \<open>97 \<le> n + 32\<close> by auto
  qed
  then show "lower_char c = CHR 0x5C \<longleftrightarrow> c = CHR 0x5C" "lower_char c = CHR ''%'' \<longleftrightarrow> c = CHR ''%''"
    "lower_char c = CHR ''_'' \<longleftrightarrow> c = CHR ''_''"
    using fixed lower_fixed by (metis insertCI)+
qed

lemma lower_escape: "to_lower (escapeLike s) = escapeLike (to_lower s)"
  by (induction s) (simp_all add: escapeLike_chars escape_char_def lower_special lower_fixed)

lemma like_escaped_prefix: "like_match (escapeLike n @ ''%'') s \<longleftrightarrow> prefix n s"
proof (induction n arbitrary: s)
  case Nil
  have "like_match ''%'' s" by (induction s) simp_all
  then show ?case by (simp add: escapeLike_chars)
next
  case (Cons c n)
  show ?case using Cons
    by (cases s) (auto simp: escapeLike_chars escape_char_def)
qed

lemma like_escaped: "like_match (''%'' @ escapeLike n @ ''%'') s \<longleftrightarrow> substring_of n s"
proof (induction s)
  case Nil
  then show ?case using like_escaped_prefix [of n "[]"] by simp
next
  case (Cons c s)
  then show ?case using like_escaped_prefix [of n "c # s"] by simp
qed

lemma like_contains:
  "like_match (to_lower (''%'' @ escapeLike n @ ''%'')) (to_lower s) \<longleftrightarrow> substring_of (to_lower n) (to_lower s)"
proof -
  have "to_lower (''%'' @ escapeLike n @ ''%'') = ''%'' @ escapeLike (to_lower n) @ ''%''"
    by (simp add: lower_escape lower_fixed)
  then show ?thesis by (simp only: like_escaped)
qed

end
