(* ===== verification/Compile_Correct.thy ===== *)
theory Compile_Correct
  imports Sql Tql_Roundtrip
begin

text \<open>
  What the compiler promises: no value reaches the SQL text, the placeholders are numbered one by one
  in the order of the parameters, and a valid tree compiles exactly when every symbolic value in it can
  be resolved.
\<close>

section \<open>The text depends on the shape of the tree only\<close>

text \<open>A tree with its values blanked out: what is left is the structure, the fields, the operators,
  whether a scalar is \<open>null\<close>, and the length of each list.\<close>

fun blank_value :: "node_value option \<Rightarrow> node_value option" where
  "blank_value (Some (Scalar v)) = Some (Scalar (if v = FNull then FNull else FBool True))"
| "blank_value (Some (ListOf vs)) = Some (ListOf (map (\<lambda>_. FNull) vs))"
| "blank_value None = None"

fun skeleton :: "FilterNode \<Rightarrow> FilterNode" where
  "skeleton (GroupNode c children) = GroupNode c (map skeleton children)"
| "skeleton (NotNode child) = NotNode (skeleton child)"
| "skeleton (ComparisonNode name operator v) = ComparisonNode name operator (blank_value v)"

fun blank :: "sql_expr \<Rightarrow> sql_expr" where
  "blank (SqlIn f vs) = SqlIn f (map (\<lambda>_. FNull) vs)"
| "blank (SqlOverlaps f vs) = SqlOverlaps f (map (\<lambda>_. FNull) vs)"
| "blank (SqlLike f pat) = SqlLike f []"
| "blank (SqlCompare oper f v) = SqlCompare oper f FNull"
| "blank (SqlParens e) = SqlParens (blank e)"
| "blank (SqlNot e) = SqlNot (blank e)"
| "blank (SqlJoin c es) = SqlJoin c (map blank es)"
| "blank e = e"

lemma blank_values: "length (sql_values (blank e)) = length (sql_values e)"
proof (induction e rule: blank.induct)
  case (7 c es)
  then show ?case by (simp add: length_concat comp_def cong: map_cong)
qed simp_all

lemma render_blank:
  "render n (blank e) = render n e"
  "render_list n (map blank es) = render_list n es"
  by (induction n e and n es rule: render_render_list.induct)
    (simp_all add: value_list_def blank_values)

lemma resolve_null: "resolve viewerId now field v = Return x \<Longrightarrow> x = FNull \<longleftrightarrow> v = FNull"
  by (auto simp: resolve_def split: if_splits FilterValue.splits sum.splits option.splits)

lemma blank_list_eq: "map (\<lambda>_. FNull) vs = map (\<lambda>_. FNull) ws \<longleftrightarrow> length vs = length ws"
  by (simp add: map_replicate_const)

lemma blank_value_eq:
  "blank_value v = blank_value w \<Longrightarrow>
   length (list_of v) = length (list_of w) \<and> (scalar_of v = FNull \<longleftrightarrow> scalar_of w = FNull)"
  by (cases v rule: blank_value.cases; cases w rule: blank_value.cases)
    (auto simp: blank_list_eq split: if_splits)

lemma comparison_shape:
  assumes "blank_value v = blank_value w"
    and "expr_of_comparison viewerId now field operator v = Return e"
    and "expr_of_comparison viewerId' now' field operator w = Return f"
  shows "blank e = blank f"
  using assms blank_value_eq [OF assms(1)]
  by (auto simp: expr_of_comparison_def expr_of_empty_def expr_of_list_def expr_of_scalar_def Let_def
      map_result_Inr_iff map_replicate_const list_all2_lengthD resolve_null split: if_splits)

lemma expr_shape:
  "skeleton node = skeleton node' \<Longrightarrow> expr_of viewerId now resource node = Return e \<Longrightarrow>
   expr_of viewerId' now' resource node' = Return f \<Longrightarrow> blank e = blank f"
proof (induction node arbitrary: node' e f rule: skeleton.induct)
  case (1 c children)
  then obtain children' where n: "node' = GroupNode c children'" "map skeleton children = map skeleton children'"
    by (cases node') auto
  show ?case
  proof (cases "children = []")
    case True
    then show ?thesis using 1 n by simp
  next
    case False
    then have "children' \<noteq> []" using n by auto
    then obtain es fs where e: "map_result (expr_of viewerId now resource) children = Return es" "e = SqlJoin c es"
      and f: "map_result (expr_of viewerId' now' resource) children' = Return fs" "f = SqlJoin c fs"
      using False 1(3,4) n(1) by auto
    have len: "length children = length es" "length children' = length fs" "length children = length children'"
      using e f n(2) by (auto simp: map_result_Inr_iff dest: map_eq_imp_length_eq)
    have "blank (es ! i) = blank (fs ! i)" if i: "i < length es" for i
    proof (rule 1(1))
      show "children ! i \<in> set children" using i len by simp
      show "skeleton (children ! i) = skeleton (children' ! i)"
        using n(2) i len by (metis nth_map)
      show "expr_of viewerId now resource (children ! i) = Return (es ! i)"
        using e(1) i by (auto simp: map_result_Inr_iff list_all2_conv_all_nth)
      show "expr_of viewerId' now' resource (children' ! i) = Return (fs ! i)"
        using f(1) i len by (auto simp: map_result_Inr_iff list_all2_conv_all_nth)
    qed
    then have "map blank es = map blank fs" using len by (intro nth_equalityI) auto
    then show ?thesis by (simp add: e f)
  qed
next
  case (2 child)
  then obtain child' where "node' = NotNode child'" "skeleton child = skeleton child'" by (cases node') auto
  with 2 show ?case by auto
next
  case (3 name operator v)
  then obtain w where "node' = ComparisonNode name operator w" "blank_value v = blank_value w"
    by (cases node') auto
  with 3 show ?case by (auto intro: comparison_shape split: option.splits)
qed

lemma compile_Return:
  "compile other clock resource node options = Return out \<longleftrightarrow>
     resource \<in> set COMPILABLE_RESOURCES \<and> res_ok (validate other resource node) \<and>
     (\<exists>e. expr_of (opt_viewerId options) (case opt_now options of None \<Rightarrow> clock | Some t \<Rightarrow> t) resource node = Return e \<and>
        out = \<lparr>out_sql = render (case opt_startIndex options of None \<Rightarrow> 1 | Some i \<Rightarrow> i) e,
               out_params = sql_values e\<rparr>)"
  by (auto simp: compile_def Let_def emit_refines)

text \<open>C14: no value reaches the SQL text. Two trees with the same structure, fields and operators, the
  same list lengths and the same \<open>null\<close>s compile to the same text, whatever their values, the viewer and
  the clock are; the values differ in the parameters only.\<close>

theorem compile_no_injection:
  assumes "skeleton node = skeleton node'"
    and "compile other clock resource node options = Return out"
    and "compile other' clock' resource node' options' = Return out'"
    and "opt_startIndex options = opt_startIndex options'"
  shows "out_sql out = out_sql out'"
proof -
  from assms obtain e f where
    e: "expr_of (opt_viewerId options) (case opt_now options of None \<Rightarrow> clock | Some t \<Rightarrow> t) resource node = Return e"
    and f: "expr_of (opt_viewerId options') (case opt_now options' of None \<Rightarrow> clock' | Some t \<Rightarrow> t) resource node' = Return f"
    and out: "out_sql out = render (case opt_startIndex options of None \<Rightarrow> 1 | Some i \<Rightarrow> i) e"
      "out_sql out' = render (case opt_startIndex options of None \<Rightarrow> 1 | Some i \<Rightarrow> i) f"
    by (auto simp: compile_Return)
  have "blank e = blank f" by (rule expr_shape [OF assms(1) e f])
  then show ?thesis unfolding out by (metis render_blank(1))
qed

section \<open>Placeholders\<close>

text \<open>The digits after each \<open>$\<close> of a text, from left to right.\<close>

fun dollars :: "string \<Rightarrow> string list" where
  "dollars [] = []"
| "dollars (c # s) = (if c = CHR ''$'' then takeWhile is_digit s # dollars s else dollars s)"

lemma dollars_append:
  "\<not> at_head is_digit b \<Longrightarrow> dollars (a @ b) = dollars a @ dollars b"
proof (induction a)
  case (Cons c a)
  have "takeWhile is_digit (a @ b) = takeWhile is_digit a"
    using Cons(2) by (induction a) (auto simp: at_head_def split: list.splits)
  with Cons show ?case by simp
qed simp

lemma dollars_free: "list_all (\<lambda>c. c \<noteq> CHR ''$'') a \<Longrightarrow> dollars (a @ b) = dollars b"
  by (induction a) auto

lemma dollars_digits: "list_all is_digit a \<Longrightarrow> dollars a = []"
  by (induction a) (auto simp: is_digit_def)

lemma dollars_dollar: "dollars (dollar n) = [decimal_of_nat n]"
  using decimal_of_nat_digits [of n]
  by (simp add: dollar_def dollars_digits takeWhile_eq_all_conv list_all_iff)

lemma dollars_join:
  assumes "sep = '', '' \<or> sep = '' AND '' \<or> sep = '' OR ''"
  shows "dollars (join sep ps) = concat (map dollars ps)"
  using assms
  by (induction sep ps rule: join.induct) (auto simp: dollars_append dollars_free at_head_def is_digit_def)

definition columns_clean :: "Resource \<Rightarrow> bool" where
  "columns_clean resource = list_all (\<lambda>f. list_all (\<lambda>c. c \<noteq> CHR ''$'') (column f)) (fieldsOf resource)"

lemma all_columns_clean: "columns_clean resource"
  by (cases resource; hypsubst; code_simp)

fun fields_in :: "sql_expr \<Rightarrow> FieldDefinition list" where
  "fields_in (SqlConst _) = []"
| "fields_in (SqlNull f) = [f]"
| "fields_in (SqlNotNull f) = [f]"
| "fields_in (SqlNoElements f) = [f]"
| "fields_in (SqlHasElements f) = [f]"
| "fields_in (SqlIn f _) = [f]"
| "fields_in (SqlOverlaps f _) = [f]"
| "fields_in (SqlLike f _) = [f]"
| "fields_in (SqlCompare _ f _) = [f]"
| "fields_in (SqlParens e) = fields_in e"
| "fields_in (SqlNot e) = fields_in e"
| "fields_in (SqlJoin _ es) = concat (map fields_in es)"

lemma comparison_fields:
  "expr_of_comparison viewerId now field operator v = Return e \<Longrightarrow> set (fields_in e) \<subseteq> {field}"
  by (auto simp: expr_of_comparison_def expr_of_empty_def expr_of_list_def expr_of_scalar_def Let_def
      split: if_splits)

lemma findField_in: "findField resource name = Some f \<Longrightarrow> f \<in> set (fieldsOf resource)"
  by (force simp: findField_def fieldsOf_def dest: map_of_SomeD)

lemma expr_fields:
  "expr_of viewerId now resource node = Return e \<Longrightarrow> set (fields_in e) \<subseteq> set (fieldsOf resource)"
proof (induction viewerId now resource node arbitrary: e rule: expr_of.induct)
  case (1 viewerId now resource c children)
  show ?case
  proof (cases "children = []")
    case True
    with 1 show ?thesis by auto
  next
    case False
    then obtain es where es: "list_all2 (\<lambda>n e. expr_of viewerId now resource n = Return e) children es" "e = SqlJoin c es"
      using 1(2) by (auto simp: map_result_Inr_iff)
    have "set (fields_in (es ! i)) \<subseteq> set (fieldsOf resource)" if "i < length es" for i
      by (rule 1(1) [OF False, of "children ! i"])
        (use es(1) that in \<open>auto simp: list_all2_conv_all_nth\<close>)
    then have "\<forall>e' \<in> set es. set (fields_in e') \<subseteq> set (fieldsOf resource)" by (metis in_set_conv_nth)
    then show ?thesis by (simp add: es(2) UN_subset_iff)
  qed
next
  case (3 viewerId now resource name operator v)
  then show ?case by (auto dest!: comparison_fields findField_in split: option.splits)
qed auto

definition clean_expr :: "sql_expr \<Rightarrow> bool" where
  "clean_expr e = list_all (\<lambda>f. list_all (\<lambda>c. c \<noteq> CHR ''$'') (column f)) (fields_in e)"

lemma expr_clean: "expr_of viewerId now resource node = Return e \<Longrightarrow> clean_expr e"
  using expr_fields [of viewerId now resource node e] all_columns_clean [of resource]
  by (auto simp: clean_expr_def columns_clean_def list_all_iff)

lemma dollars_value_list: "dollars (value_list n vs) = map decimal_of_nat [n..<n + length vs]"
  by (simp add: value_list_def dollars_join comp_def dollars_dollar concat_map_singleton)

lemma dollars_compare:
  "dollars (dollar n @ like_escape) = [decimal_of_nat n]"
  "dollars (dollar n @ cast_of ty) = [decimal_of_nat n]"
  "dollars (COMPARISON_TOKENS oper) = []"
proof -
  show "dollars (dollar n @ like_escape) = [decimal_of_nat n]"
    "dollars (dollar n @ cast_of ty) = [decimal_of_nat n]"
    by (subst dollars_append; simp add: dollars_dollar like_escape_def cast_of_def at_head_def is_digit_def)+
  show "dollars (COMPARISON_TOKENS oper) = []" by (cases oper) simp_all
qed

lemma clean_join: "clean_expr (SqlJoin c es) \<longleftrightarrow> list_all clean_expr es"
  by (auto simp: clean_expr_def list_all_iff)

lemma dollars_render:
  "clean_expr e \<Longrightarrow> dollars (render n e) = map decimal_of_nat [n..<n + length (sql_values e)]"
  "list_all clean_expr es \<Longrightarrow> concat (map dollars (render_list n es)) =
     map decimal_of_nat [n..<n + length (concat (map sql_values es))]"
proof (induction n e and n es rule: render_render_list.induct)
  case (12 n c es)
  then show ?case
    by (cases c) (simp_all add: clean_join dollars_join dollars_append at_head_def is_digit_def)
next
  case (14 n e es)
  let ?a = "length (sql_values e)" and ?b = "length (concat (map sql_values es))"
  have "[n..<n + (?a + ?b)] = [n..<n + ?a] @ [n + ?a..<n + ?a + ?b]"
    using upt_add_eq_append [of n "n + ?a" ?b] by (simp add: add.assoc)
  with 14 show ?case by simp
qed (auto simp: clean_expr_def dollars_free dollars_append at_head_def is_digit_def dollars_value_list
    dollars_compare)

text \<open>The placeholders of the text, read from left to right, are numbered one by one from the start
  index, one for each parameter.\<close>

theorem compile_placeholders:
  assumes "compile other clock resource node options = Return out"
  shows "dollars (out_sql out) = map decimal_of_nat
     [(case opt_startIndex options of None \<Rightarrow> 1 | Some i \<Rightarrow> i)..<
      (case opt_startIndex options of None \<Rightarrow> 1 | Some i \<Rightarrow> i) + length (out_params out)]"
  using assms by (auto simp: compile_Return dollars_render(1) expr_clean)

section \<open>When compilation succeeds\<close>

definition values_used :: "Operator \<Rightarrow> node_value option \<Rightarrow> FilterValue list" where
  "values_used operator v =
     (if operator \<in> set NULLARY_OPERATORS then []
      else if operator \<in> set LIST_OPERATORS then list_of v else [scalar_of v])"

definition resolvable_value :: "string option \<Rightarrow> int \<Rightarrow> FieldDefinition \<Rightarrow> FilterValue \<Rightarrow> bool" where
  "resolvable_value viewerId now field v =
     (case v of
        FString s \<Rightarrow>
          if s = ME then viewerId \<noteq> None
          else if fld_type field = TDate \<and> isSymbolicDate s then symbolic_instant s now \<noteq> None
          else True
      | _ \<Rightarrow> True)"

text \<open>Every \<open>@me\<close> of the tree has a viewer, every symbolic date lies in the range of a \<open>Date\<close>.\<close>

fun resolvable :: "string option \<Rightarrow> int \<Rightarrow> Resource \<Rightarrow> FilterNode \<Rightarrow> bool" where
  "resolvable viewerId now resource (GroupNode _ children) = list_all (resolvable viewerId now resource) children"
| "resolvable viewerId now resource (NotNode child) = resolvable viewerId now resource child"
| "resolvable viewerId now resource (ComparisonNode name operator v) =
     (case findField resource name of
        None \<Rightarrow> False
      | Some field \<Rightarrow> list_all (resolvable_value viewerId now field) (values_used operator v))"

fun tree_ok :: "(string \<Rightarrow> int option) \<Rightarrow> Resource \<Rightarrow> FilterNode \<Rightarrow> bool" where
  "tree_ok other resource (GroupNode _ children) = list_all (tree_ok other resource) children"
| "tree_ok other resource (NotNode child) = tree_ok other resource child"
| "tree_ok other resource (ComparisonNode name operator v) =
     (check_comparison other resource name operator v = [])"

lemma walk_Nil:
  "walk other resource node path = [] \<longleftrightarrow> tree_ok other resource node"
  "walk_children other resource index children path = [] \<longleftrightarrow> list_all (tree_ok other resource) children"
  by (induction other resource node path and other resource index children path
      rule: walk_walk_children.induct) simp_all

lemma res_ok_iff: "res_ok (validate other resource node) \<longleftrightarrow> tree_ok other resource node"
  by (simp add: validate_def walk_Nil Let_def)

lemma map_filter_Nil: "List.map_filter f xs = [] \<longleftrightarrow> (\<forall>x \<in> set xs. f x = None)"
  by (auto simp: List.map_filter_def filter_empty_conv)

lemma check_comparison_Nil:
  "check_comparison other resource name operator v = [] \<longleftrightarrow>
     (\<exists>field. findField resource name = Some field \<and> supportsOperator field operator \<and>
        (\<forall>x \<in> set (values_used operator v). checkValue other field x = None))"
  by (auto simp: check_comparison_def values_used_def map_filter_Nil split: option.splits)

lemma check_me: "checkValue other field (FString ME) = None \<Longrightarrow> fld_acceptsMe field = Some True"
  by (simp add: checkValue_def split: if_splits)

definition unresolved :: "compile_error \<Rightarrow> bool" where
  "unresolved e \<longleftrightarrow> e = FilterCompileError no_viewer \<or> e = RangeError InvalidTimeValue"

lemma resolve_outcome:
  assumes "\<bar>now\<bar> \<le> MAX_TIME" "checkValue other field v = None"
  shows "case resolve viewerId now field v of
     Inr _ \<Rightarrow> resolvable_value viewerId now field v
   | Inl e \<Rightarrow> \<not> resolvable_value viewerId now field v \<and> unresolved e"
proof (cases "v = FString ME")
  case True
  then show ?thesis using check_me assms(2)
    by (auto simp: resolve_def resolvable_value_def unresolved_def split: option.splits)
next
  case False
  have err: "e = InvalidTimeValue" for e by (cases e) simp
  show ?thesis
  proof (cases v)
    case (FString s)
    show ?thesis
    proof (cases "fld_type field = TDate")
      case True
      then show ?thesis using FString \<open>v \<noteq> FString ME\<close> symbolic_cases [OF assms(1), of s other] err
        by (auto simp: resolve_def resolvable_value_def unresolved_def resolves_to_def
            split: sum.splits option.splits if_splits)
    qed (use FString \<open>v \<noteq> FString ME\<close> in \<open>simp add: resolve_def resolvable_value_def\<close>)
  qed (simp_all add: resolve_def resolvable_value_def)
qed

lemma map_result_outcome:
  assumes "\<forall>x \<in> set xs. case f x of Inr _ \<Rightarrow> P x | Inl e \<Rightarrow> \<not> P x \<and> Q e"
  shows "case map_result f xs of Inr _ \<Rightarrow> list_all P xs | Inl e \<Rightarrow> \<not> list_all P xs \<and> Q e"
  using assms by (induction xs) (auto simp: bind_result_def split: sum.splits)

lemma all_columns: "resource \<in> set COMPILABLE_RESOURCES \<Longrightarrow>
    list_all (\<lambda>f. fld_sql f \<noteq> None) (fieldsOf resource)"
proof -
  have "list_all (\<lambda>r. list_all (\<lambda>f. fld_sql f \<noteq> None) (fieldsOf r)) COMPILABLE_RESOURCES" by code_simp
  then show "resource \<in> set COMPILABLE_RESOURCES \<Longrightarrow> ?thesis" by (simp add: list_all_iff)
qed

lemma comparison_outcome:
  assumes now: "\<bar>now\<bar> \<le> MAX_TIME" and col: "fld_sql field \<noteq> None"
    and ok: "\<forall>x \<in> set (values_used operator v). checkValue other field x = None"
  shows "case expr_of_comparison viewerId now field operator v of
     Inr _ \<Rightarrow> list_all (resolvable_value viewerId now field) (values_used operator v)
   | Inl e \<Rightarrow> \<not> list_all (resolvable_value viewerId now field) (values_used operator v) \<and> unresolved e"
proof -
  have r: "\<forall>x \<in> set (values_used operator v). case resolve viewerId now field x of
     Inr _ \<Rightarrow> resolvable_value viewerId now field x
   | Inl e \<Rightarrow> \<not> resolvable_value viewerId now field x \<and> unresolved e"
    using resolve_outcome [OF now] ok by blast
  note m = map_result_outcome [OF r]
  show ?thesis using m col
    by (auto simp: expr_of_comparison_def values_used_def bind_result_def split: sum.splits)
qed

lemma expr_outcome:
  assumes "\<bar>now\<bar> \<le> MAX_TIME" "resource \<in> set COMPILABLE_RESOURCES"
  shows "tree_ok other resource node \<Longrightarrow> case expr_of viewerId now resource node of
     Inr _ \<Rightarrow> resolvable viewerId now resource node
   | Inl e \<Rightarrow> \<not> resolvable viewerId now resource node \<and> unresolved e"
proof (induction node rule: skeleton.induct)
  case (1 c children)
  then have "\<forall>n \<in> set children. case expr_of viewerId now resource n of
     Inr _ \<Rightarrow> resolvable viewerId now resource n
   | Inl e \<Rightarrow> \<not> resolvable viewerId now resource n \<and> unresolved e"
    by (auto simp: list_all_iff)
  from map_result_outcome [OF this] show ?case
    by (auto simp: bind_result_def split: sum.splits)
next
  case (2 child)
  then show ?case by (auto simp: bind_result_def split: sum.splits)
next
  case (3 name operator v)
  then obtain field where f: "findField resource name = Some field"
    "\<forall>x \<in> set (values_used operator v). checkValue other field x = None"
    by (auto simp: check_comparison_Nil)
  then have "fld_sql field \<noteq> None"
    using all_columns [OF assms(2)] findField_in by (auto simp: list_all_iff)
  from comparison_outcome [OF assms(1) this f(2), of viewerId] show ?case
    by (auto simp: f split: sum.splits)
qed

definition refusal :: "(string \<Rightarrow> int option) \<Rightarrow> Resource \<Rightarrow> FilterNode \<Rightarrow> compile_error" where
  "refusal other resource node =
     FilterCompileError (''Refusing to compile an invalid filter: '' @
       join ''; '' (map ferr_message (res_errors (validate other resource node))))"

text \<open>C15: the outcome of \<open>compile\<close> on every branch. A resource without SQL form is refused before
  anything else, then an invalid tree with all its errors; a valid tree compiles exactly when every
  \<open>@me\<close> has a viewer and every symbolic date lies in the range of a \<open>Date\<close>, and otherwise fails with the
  missing viewer or the \<open>RangeError\<close>. The refusals of the emitting functions themselves (an unknown
  field, a field without column, a misplaced \<open>@me\<close>) are never reached.\<close>

theorem compile_outcome:
  assumes "opt_now options = Some now" and "\<bar>now\<bar> \<le> MAX_TIME"
  shows "case compile other clock resource node options of
     Inr out \<Rightarrow> resource \<in> set COMPILABLE_RESOURCES \<and> res_ok (validate other resource node) \<and>
       resolvable (opt_viewerId options) now resource node
   | Inl e \<Rightarrow>
       (if resource \<notin> set COMPILABLE_RESOURCES then e = FilterCompileError (no_sql_form resource)
        else if \<not> res_ok (validate other resource node) then e = refusal other resource node
        else \<not> resolvable (opt_viewerId options) now resource node \<and> unresolved e)"
proof (cases "resource \<in> set COMPILABLE_RESOURCES \<and> res_ok (validate other resource node)")
  case True
  then show ?thesis
    using expr_outcome [OF assms(2), of resource other node "opt_viewerId options"] assms(1)
    by (auto simp: compile_def Let_def emit_refines res_ok_iff bind_result_def split: sum.splits)
next
  case False
  then show ?thesis by (auto simp: compile_def Let_def refusal_def)
qed

section \<open>Witnesses\<close>

definition example_options :: "string option \<Rightarrow> CompileOptions" where
  "example_options viewer = \<lparr>opt_viewerId = viewer, opt_startIndex = Some 3, opt_now = Some 0\<rparr>"

definition title_tree :: "string \<Rightarrow> FilterNode" where
  "title_tree s = NotNode (ComparisonNode ''title'' Eq (Some (Scalar (FString s))))"

definition title_sql :: string where
  "title_sql = ''(NOT COALESCE(work.cards.title = $3, FALSE))''"

lemma compile_title:
  "compile (\<lambda>_. None) 0 Card (title_tree s) (example_options None) =
     Return \<lparr>out_sql = title_sql, out_params = [FString s]\<rparr>" if "s \<noteq> ME"
proof -
  have f: "findField Card ''title'' = Some (plain_field ''title'' TText (Some ''work.cards.title''))"
    by code_simp
  have d: "decimal_of_nat 3 = ''3''" by code_simp
  show ?thesis using that
    by (simp add: compile_Return res_ok_iff title_tree_def check_comparison_Nil f supportsOperator_def
        operatorsFor_def plain_field_def values_used_def operator_groups checkValue_def COMPILABLE_RESOURCES_def
        expr_of_comparison_def resolve_def expr_of_scalar_def example_options_def title_sql_def
        column_def dollar_def d cast_of_def)
qed

theorem compile_no_injection_witness:
  "out_sql \<lparr>out_sql = title_sql, out_params = [FString ''x'']\<rparr> =
   out_sql \<lparr>out_sql = title_sql, out_params = [FString '') OR TRUE; DROP TABLE work.cards'']\<rparr>"
proof (rule compile_no_injection)
  show "skeleton (title_tree ''x'') = skeleton (title_tree '') OR TRUE; DROP TABLE work.cards'')"
    by (simp add: title_tree_def)
qed (rule compile_title, simp add: ME_def, rule compile_title, simp add: ME_def, simp)

theorem compile_placeholders_witness:
  "dollars title_sql = map decimal_of_nat [3..<4]"
  using compile_placeholders [OF compile_title [of "''x''"]] by (simp add: ME_def example_options_def)

theorem compile_outcome_witness:
  "\<exists>e. compile (\<lambda>_. None) 0 Card (ComparisonNode ''due'' Lt (Some (Scalar (FString ''+999999999d''))))
      (example_options None) = Throw e \<and> unresolved e"
proof -
  let ?n = "ComparisonNode ''due'' Lt (Some (Scalar (FString ''+999999999d'')))"
  have f: "findField Card ''due'' = Some (plain_field ''due'' TDate (Some ''work.cards.due_date''))"
    by code_simp
  have sym: "isSymbolicDate ''+999999999d''" "''+999999999d'' \<noteq> ME" by code_simp+
  have far: "symbolic_instant ''+999999999d'' 0 = None" by code_simp
  have "res_ok (validate (\<lambda>_. None) Card ?n)"
    by (simp add: res_ok_iff check_comparison_Nil f supportsOperator_def operatorsFor_def plain_field_def
        values_used_def operator_groups checkValue_def sym)
  moreover have "\<not> resolvable None 0 Card ?n"
    by (simp add: f plain_field_def values_used_def operator_groups resolvable_value_def sym far)
  moreover have "opt_now (example_options None) = Some 0" "opt_viewerId (example_options None) = None"
    by (simp_all add: example_options_def)
  ultimately show ?thesis
    using compile_outcome [where options = "example_options None" and now = 0 and clock = 0
        and other = "\<lambda>_. None" and resource = Card and node = ?n]
    by (auto simp: MAX_TIME_def COMPILABLE_RESOURCES_def split: sum.splits)
qed

end
