(* ===== verification/Filter_Parity.thy ===== *)
theory Filter_Parity
  imports Sql_Semantics Compile_Correct
begin

text \<open>
  The evaluator agrees with the compiler: an automation rule and a board filter built from the same tree
  select the same rows. The theorem names what the agreement needs: a row as the database produces it,
  a cast to \<open>timestamptz\<close> that reads a date as \<open>Date.parse\<close> does, ids in lower case, and no \<open>null\<close> in the list of an
  \<open>in\<close> or \<open>not_in\<close> on a scalar field. The last two are not checked anywhere, and without them the two
  sides differ.
\<close>

section \<open>Numbers are totally ordered\<close>



section \<open>Facts of the whitelist\<close>


section \<open>Values\<close>







section \<open>One comparison\<close>





lemma row_of_iff: "RString s = row_of x \<longleftrightarrow> x = FString s" "RNull = row_of x \<longleftrightarrow> x = FNull"
    "RUndefined \<noteq> row_of x"
  by (cases x; auto)+

lemma includes_iff:
  "includes_value xs (RString s) \<longleftrightarrow> FString s \<in> set xs"
  "includes_value xs RNull \<longleftrightarrow> FNull \<in> set xs"
  "\<not> includes_value xs RUndefined"
  by (auto simp: includes_value_def image_iff row_of_iff)











section \<open>The tree\<close>







section \<open>A witness, and why the literals must be agreeable\<close>




definition priority_field :: FieldDefinition where
  "priority_field = (plain_field ''priority'' TEnum (Some ''work.cards.priority''))
     \<lparr>fld_options := Some [''urgent'', ''high'', ''normal'', ''low'']\<rparr>"

definition status_field :: FieldDefinition where
  "status_field = plain_field ''status'' TUuid (Some ''work.cards.status_id'')"

definition an_id :: string where "an_id = ''00000000-0000-4000-8000-00000000000a''"

definition null_tree :: FilterNode where
  "null_tree = ComparisonNode ''priority'' In (Some (ListOf [FNull]))"

definition id_tree :: FilterNode where
  "id_tree = ComparisonNode ''status'' Eq (Some (Scalar (FString (to_upper an_id))))"

definition plain_options :: EvaluateOptions where
  "plain_options = \<lparr>ev_viewerId = None, ev_now = Some 0\<rparr>"

lemma disagreement_fields:
  "findField Card ''priority'' = Some priority_field" "findField Card ''status'' = Some status_field"
  "pattern_match UUID (to_upper an_id)" "to_upper an_id \<noteq> ME" "to_upper an_id \<noteq> an_id"
  "to_lower (to_upper an_id) = an_id"
  by code_simp+

text \<open>C17: two kinds of valid trees on which compiler and evaluator differ. \<open>priority in (null)\<close> matches a
  card without priority in the evaluator and no card in SQL; an id in upper case passes validation and
  finds its card in SQL, where the comparison is on \<open>uuid\<close> values, and never in the evaluator, which
  compares texts.\<close>

theorem disagreement_on_valid_trees:
  "res_ok (validate other Card null_tree) \<and>
   evaluate other clock Card null_tree (\<lambda>_. RNull) plain_options = Return True \<and>
   expr_of None 0 Card null_tree = Return (SqlIn priority_field [FNull]) \<and>
   \<not> selects timestamptz other (\<lambda>_. RNull) (SqlIn priority_field [FNull]) \<and>
   res_ok (validate other Card id_tree) \<and>
   evaluate other clock Card id_tree (\<lambda>_. RString an_id) plain_options = Return False \<and>
   expr_of None 0 Card id_tree = Return (SqlCompare Eq status_field (FString (to_upper an_id))) \<and>
   selects timestamptz other (\<lambda>_. RString an_id) (SqlCompare Eq status_field (FString (to_upper an_id)))"
proof (intro conjI)
  note d = disagreement_fields plain_options_def null_tree_def id_tree_def
  note f = priority_field_def status_field_def plain_field_def
  note ops = operator_groups supportsOperator_def operatorsFor_def values_used_def
  show "res_ok (validate other Card null_tree)" "res_ok (validate other Card id_tree)"
    by (simp_all add: d ops f res_ok_iff check_comparison_Nil checkValue_def)
  show "evaluate other clock Card null_tree (\<lambda>_. RNull) plain_options = Return True"
    "evaluate other clock Card id_tree (\<lambda>_. RString an_id) plain_options = Return False"
    by (simp_all add: d f evaluate_def compare_row_def Let_def resolve_row_def includes_iff isNullish_def
        orderOf_def disagreement_fields(5) [symmetric])
  show "expr_of None 0 Card null_tree = Return (SqlIn priority_field [FNull])"
    "expr_of None 0 Card id_tree = Return (SqlCompare Eq status_field (FString (to_upper an_id)))"
    by (simp_all add: d f ops expr_of_comparison_def resolve_def expr_of_list_def expr_of_scalar_def)
  show "\<not> selects timestamptz other (\<lambda>_. RNull) (SqlIn priority_field [FNull])"
    by (simp add: selects_def column_of_def priority_field_def plain_field_def text_of_def)
  show "selects timestamptz other (\<lambda>_. RString an_id) (SqlCompare Eq status_field (FString (to_upper an_id)))"
    by (simp add: selects_def column_of_def param_value_def status_field_def plain_field_def text_of_def
        disagreement_fields(6) del: list.map_comp map_map)
qed

end
