(* ===== verification/Work_Data.thy ===== *)
theory Work_Data
  imports Rank Decide
begin

text \<open>
  The data of the Work module (\<open>apps/api/src/work\<close>): the rows of its tables as far as the services read
  and write them, the domain events, the errors its services throw, and the shared plumbing of
  \<open>shared.ts\<close> and \<open>richtext.ts\<close>.

  A \<open>database\<close> is the tables and the outbox. \<open>withOrgScope\<close> runs a callback in a transaction whose row
  level security shows the rows of one organization only; here a scoped operation takes the database,
  reads through \<open>in_org\<close>, and returns either its result with the changed database or an error. A thrown
  error rolls the transaction back, so an error carries no database. An error the driver raises is the
  list of the \<open>code\<close> members along its \<open>cause\<close> chain.
\<close>

section \<open>Rows\<close>

record CardRow =
  c_id :: string
  c_orgId :: string
  c_projectId :: string
  c_boardId :: string
  c_listId :: string
  c_number :: int
  c_title :: string
  c_description :: "json option"
  c_descriptionText :: "string option"
  c_rank :: string
  c_assigneeIds :: "string list"
  c_statusId :: "string option"
  c_sprintId :: "string option"
  c_priority :: "string option"
  c_dueDate :: "int option"
  c_startDate :: "int option"
  c_version :: int
  c_createdBy :: string
  c_archivedAt :: "int option"
  c_deletedAt :: "int option"
  c_updatedAt :: int

record ListRow =
  l_id :: string
  l_orgId :: string
  l_projectId :: string
  l_boardId :: string
  l_name :: string
  l_rank :: string
  l_wipLimit :: "int option"
  l_archivedAt :: "int option"
  l_deletedAt :: "int option"
  l_updatedAt :: int

record BoardRow =
  b_id :: string
  b_orgId :: string
  b_projectId :: string
  b_deletedAt :: "int option"

record ProjectRow =
  p_id :: string
  p_orgId :: string
  p_key :: string
  p_nextCardNumber :: int

record StatusRow =
  s_id :: string
  s_orgId :: string
  s_projectId :: string
  s_isDefault :: bool

record MembershipRow =
  m_orgId :: string
  m_userId :: string
  m_status :: string

section \<open>Events\<close>

text \<open>The payloads of \<open>events.ts\<close> the modelled services emit; a \<open>before\<close> and an \<open>after\<close> object are tuples.\<close>

datatype work_event =
    ListCreated string string string
  | ListUpdated string string "string \<times> int option" "string \<times> int option"
  | ListReordered string string string string
  | ListArchived string string string bool
  | ListRebalanced string string nat
  | CardCreated string string string string string string
  | CardUpdated string string "string list"
      "string \<times> int option \<times> int option \<times> string option"
      "string \<times> int option \<times> int option \<times> string option"
  | CardMoved string string string string string string
  | CardStatusChanged string string "string option" "string option"
  | CardAssigned string string "string list" "string list"
  | CardArchived string string string string bool
  | CardsBulkReassigned "string list" string string

record envelope =
  env_orgId :: string
  env_actorId :: string
  env_requestId :: string
  env_causationDepth :: "nat option"

record DomainEvent =
  ev_envelope :: envelope
  ev_payload :: work_event

record database =
  cards :: "CardRow list"
  lists :: "ListRow list"
  boards :: "BoardRow list"
  projects :: "ProjectRow list"
  statuses :: "StatusRow list"
  memberships :: "MembershipRow list"
  outbox :: "DomainEvent list"

definition append_events :: "DomainEvent list \<Rightarrow> database \<Rightarrow> database" where
  "append_events events db = db\<lparr>outbox := outbox db @ events\<rparr>"

section \<open>Errors\<close>

datatype work_error =
    App AppError
  | InvalidRankError rank_error
  | Driver "string option list"

text \<open>The \<open>code\<close> members along the \<open>cause\<close> chain. The cause of an \<open>AppError\<close> thrown here is always absent.\<close>

fun error_chain :: "work_error \<Rightarrow> string option list" where
  "error_chain (App e) = [Some (code_name (err_code e))]"
| "error_chain (InvalidRankError _) = [None]"
| "error_chain (Driver codes) = codes"

definition UNIQUE_VIOLATION :: string where "UNIQUE_VIOLATION = ''23505''"
definition FOREIGN_KEY_VIOLATION :: string where "FOREIGN_KEY_VIOLATION = ''23503''"

text \<open>The loop looks at most five errors deep.\<close>

fun state_within :: "nat \<Rightarrow> string option list \<Rightarrow> string \<Rightarrow> bool" where
  "state_within 0 chain state = False"
| "state_within (Suc depth) [] state = False"
| "state_within (Suc depth) (c # chain) state = (c = Some state \<or> state_within depth chain state)"

definition hasSqlState :: "work_error \<Rightarrow> string \<Rightarrow> bool" where
  "hasSqlState error state = state_within 5 (error_chain error) state"

definition isUniqueViolation :: "work_error \<Rightarrow> bool" where
  "isUniqueViolation error = hasSqlState error UNIQUE_VIOLATION"

definition isForeignKeyViolation :: "work_error \<Rightarrow> bool" where
  "isForeignKeyViolation error = hasSqlState error FOREIGN_KEY_VIOLATION"

definition translatingConstraints ::
  "(work_error, 'a) result \<Rightarrow> AppError \<Rightarrow> (work_error, 'a) result" where
  "translatingConstraints operation onUnique =
     (case operation of
        Inr x \<Rightarrow> Return x
      | Inl error \<Rightarrow>
          if isUniqueViolation error then Throw (App onUnique)
          else if isForeignKeyViolation error then Throw (App (notFound None))
          else Throw error)"

section \<open>The actor\<close>

record WorkActor =
  subject :: Subject
  requestId :: string
  causationDepth :: "nat option"

definition orgOf :: "WorkActor \<Rightarrow> string" where "orgOf actor = sub_orgId (subject actor)"
definition userOf :: "WorkActor \<Rightarrow> string" where "userOf actor = sub_userId (subject actor)"

definition envelopeOf :: "WorkActor \<Rightarrow> envelope" where
  "envelopeOf actor =
     \<lparr>env_orgId = sub_orgId (subject actor), env_actorId = sub_userId (subject actor),
      env_requestId = requestId actor, env_causationDepth = causationDepth actor\<rparr>"

definition createEvent :: "work_event \<Rightarrow> envelope \<Rightarrow> DomainEvent" where
  "createEvent payload context = \<lparr>ev_envelope = context, ev_payload = payload\<rparr>"

definition ref_to :: "string \<Rightarrow> string \<Rightarrow> ResourceRef" where
  "ref_to ty rid = \<lparr>ref_type = ty, ref_id = rid\<rparr>"

definition ancestorsOfCard :: "string \<Rightarrow> string \<Rightarrow> ResourceRef list" where
  "ancestorsOfCard boardId projectId = [ref_to ''board'' boardId, ref_to ''project'' projectId]"

definition ancestorsOfBoard :: "string \<Rightarrow> ResourceRef list" where
  "ancestorsOfBoard projectId = [ref_to ''project'' projectId]"

definition target_of :: "ResourceRef \<Rightarrow> string \<Rightarrow> ResourceRef list \<Rightarrow> Target" where
  "target_of res orgId ancestors =
     \<lparr>tgt_orgId = orgId, tgt_resource = res, tgt_ancestors = Some ancestors, tgt_closed = None\<rparr>"

text \<open>\<open>row_org\<close> is the organization of the loaded row.\<close>

definition enforceOn ::
  "WorkActor \<Rightarrow> string \<Rightarrow> ResourceRef \<Rightarrow> string \<Rightarrow> ResourceRef list \<Rightarrow> (work_error, unit) result" where
  "enforceOn actor permission res row_org ancestors =
     (case enforce (subject actor) permission (Some (target_of res row_org ancestors)) of
        Inl e \<Rightarrow> Throw (App e) | Inr _ \<Rightarrow> Return ())"

definition manageCapabilitiesFor ::
  "Subject \<Rightarrow> string \<Rightarrow> string \<Rightarrow> ResourceRef \<Rightarrow> string \<Rightarrow> ResourceRef list \<Rightarrow> bool \<times> bool" where
  "manageCapabilitiesFor subj upd del res row_org ancestors =
     (let target = Some (target_of res row_org ancestors) in
      (dec_allowed (can subj upd target), dec_allowed (can subj del target)))"

section \<open>Rich text\<close>

text \<open>A node as far as the flattener reads it: \<open>attrs.label\<close> where it is a string.\<close>

datatype RichTextNode =
  RichText (rt_type: string) (rt_text: "string option") (rt_label: "string option")
    (rt_content: "RichTextNode list") (rt_json: json)

definition BLOCK_NODES :: "string list" where
  "BLOCK_NODES =
    [''paragraph'', ''heading'', ''blockquote'', ''codeBlock'', ''listItem'', ''taskItem'',
     ''horizontalRule'']"

definition MAX_TEXT_LENGTH :: nat where "MAX_TEXT_LENGTH = 100000"

fun text_parts :: "RichTextNode \<Rightarrow> string list" where
  "text_parts (RichText ty txt label content raw) =
     (case txt of Some s \<Rightarrow> [s] | None \<Rightarrow> []) @
     (if ty = ''mention'' then (case label of Some l \<Rightarrow> [CHR ''@'' # l] | None \<Rightarrow> []) else []) @
     concat (map text_parts content) @
     (if ty \<in> set BLOCK_NODES then [[CHR 0x0A]] else [])"

text \<open>\<open>replace(/[ \t]+/g, ' ')\<close> and \<open>replace(/\n{2,}/g, '\n')\<close>: a run of matching characters becomes one.\<close>

function squeeze :: "(char \<Rightarrow> bool) \<Rightarrow> char \<Rightarrow> string \<Rightarrow> string" where
  "squeeze P c [] = []"
| "squeeze P c (x # s) =
     (if P x then c # squeeze P c (dropWhile P s) else x # squeeze P c s)"
  by pat_completeness auto
termination
  by (relation "measure (\<lambda>(P, c, s). length s)") (auto simp: less_Suc_eq_le length_dropWhile_le)

text \<open>The white space \<open>trim\<close> removes, as far as it lies in Latin-1.\<close>

definition js_space :: "char \<Rightarrow> bool" where
  "js_space c = (c \<in> {CHR '' '', CHR 0x09, CHR 0x0A, CHR 0x0B, CHR 0x0C, CHR 0x0D, CHR 0xA0})"

definition trim :: "string \<Rightarrow> string" where
  "trim s = rev (dropWhile js_space (rev (dropWhile js_space s)))"

definition flattenToText :: "RichTextNode \<Rightarrow> string" where
  "flattenToText node =
     (let joined = concat (text_parts node);
          blanks = squeeze (\<lambda>c. c = CHR '' '' \<or> c = CHR 0x09) (CHR '' '') joined;
          lines = squeeze (\<lambda>c. c = CHR 0x0A) (CHR 0x0A) blanks
      in take MAX_TEXT_LENGTH (trim lines))"

lemma translating_Inr [simp]:
  "translatingConstraints r e = Inr x \<longleftrightarrow> r = Inr x"
  by (cases r) (auto simp: translatingConstraints_def)

end
