(* ===== verification/Work_Lists.thy ===== *)
theory Work_Lists
  imports Work_Data Rank_Correct
begin

text \<open>
  The lists of a board, \<open>apps/api/src/work/list.service.ts\<close>, and \<open>loadBoard\<close> of \<open>board.service.ts\<close>. Each service
  takes the actor, its input, the ids and the time it would draw, and the database.
\<close>

section \<open>Loading\<close>

definition live_list :: "string \<Rightarrow> ListRow \<Rightarrow> bool" where
  "live_list orgId l = (l_orgId l = orgId \<and> l_deletedAt l = None)"

definition lists_in :: "string \<Rightarrow> database \<Rightarrow> ListRow list" where
  "lists_in orgId db = filter (live_list orgId) (lists db)"

definition loadList :: "string \<Rightarrow> string \<Rightarrow> database \<Rightarrow> (work_error, ListRow) result" where
  "loadList orgId listId db =
     (case filter (\<lambda>l. l_id l = listId) (lists_in orgId db) of
        [] \<Rightarrow> Throw (App (notFound None)) | l # _ \<Rightarrow> Return l)"

definition loadBoard :: "string \<Rightarrow> string \<Rightarrow> database \<Rightarrow> (work_error, BoardRow) result" where
  "loadBoard orgId boardId db =
     (case filter (\<lambda>b. b_orgId b = orgId \<and> b_id b = boardId \<and> b_deletedAt b = None) (boards db) of
        [] \<Rightarrow> Throw (App (notFound None)) | b # _ \<Rightarrow> Return b)"

text \<open>\<open>ORDER BY rank, id\<close>\<close>

definition by_rank :: "('r \<Rightarrow> string) \<Rightarrow> ('r \<Rightarrow> string) \<Rightarrow> 'r list \<Rightarrow> 'r list" where
  "by_rank rank_col id_col rows = sort_key (\<lambda>r. Ranked (rank_col r) (id_col r)) rows"

text \<open>\<open>UPDATE work.lists SET \<dots> WHERE id = listId\<close> under row level security.\<close>

definition update_list :: "string \<Rightarrow> string \<Rightarrow> (ListRow \<Rightarrow> ListRow) \<Rightarrow> database \<Rightarrow> database" where
  "update_list orgId listId change db =
     db\<lparr>lists := map (\<lambda>l. if l_orgId l = orgId \<and> l_id l = listId then change l else l) (lists db)\<rparr>"

definition rank_between :: "string option \<Rightarrow> string option \<Rightarrow> (work_error, string) result" where
  "rank_between before after =
     (case between before after of Inl e \<Rightarrow> Throw (InvalidRankError e) | Inr r \<Rightarrow> Return r)"

definition last_rank :: "string list \<Rightarrow> string option" where
  "last_rank ranks = (if ranks = [] then None else Some (last ranks))"

section \<open>The services\<close>

definition createList ::
  "WorkActor \<Rightarrow> string \<Rightarrow> string \<Rightarrow> int option \<Rightarrow> string \<Rightarrow> int \<Rightarrow> database \<Rightarrow>
   (work_error, string \<times> database) result" where
  "createList actor boardId name wipLimit listId now db =
     translatingConstraints
       (let orgId = orgOf actor in
        bind_result (loadBoard orgId boardId db) (\<lambda>board.
        bind_result (enforceOn actor ''board:update'' (ref_to ''board'' boardId) (b_orgId board)
                       [ref_to ''project'' (b_projectId board)]) (\<lambda>_.
        let existing = by_rank l_rank l_id
              (filter (\<lambda>l. l_boardId l = boardId) (lists_in orgId db)) in
        bind_result (rank_between (last_rank (map l_rank existing)) None) (\<lambda>rank.
        if list_ex (\<lambda>l. l_id l = listId) (lists db) then Throw (Driver [None, Some UNIQUE_VIOLATION])
        else
          Return (listId, append_events
            [createEvent (ListCreated listId boardId name) (envelopeOf actor)]
            (db\<lparr>lists := lists db @
              [\<lparr>l_id = listId, l_orgId = orgId, l_projectId = b_projectId board, l_boardId = boardId,
                l_name = name, l_rank = rank, l_wipLimit = wipLimit, l_archivedAt = None,
                l_deletedAt = None, l_updatedAt = now\<rparr>]\<rparr>))))))
       (conflict (Some ''That list already exists.''))"

definition updateList ::
  "WorkActor \<Rightarrow> string \<Rightarrow> string \<Rightarrow> int option \<Rightarrow> int \<Rightarrow> database \<Rightarrow>
   (work_error, string \<times> database) result" where
  "updateList actor listId name wipLimit now db =
     bind_result (loadList (orgOf actor) listId db) (\<lambda>l.
     bind_result (enforceOn actor ''board:update'' (ref_to ''board'' (l_boardId l)) (l_orgId l)
                    (ancestorsOfBoard (l_projectId l))) (\<lambda>_.
       Return (name, append_events
         [createEvent (ListUpdated listId (l_boardId l) (l_name l, l_wipLimit l) (name, wipLimit))
            (envelopeOf actor)]
         (update_list (orgOf actor) listId
            (\<lambda>r. r\<lparr>l_name := name, l_wipLimit := wipLimit, l_updatedAt := now\<rparr>) db))))"

text \<open>\<open>rankOf\<close>: the rank of a named sibling; a name outside the board is a 404.\<close>

definition rank_of_list :: "ListRow list \<Rightarrow> string option \<Rightarrow> (work_error, string option) result" where
  "rank_of_list siblings lid =
     (case lid of
        None \<Rightarrow> Return None
      | Some i \<Rightarrow>
          (case find (\<lambda>l. l_id l = i) siblings of
             None \<Rightarrow> Throw (App (notFound None)) | Some l \<Rightarrow> Return (Some (l_rank l))))"

definition reorderList ::
  "WorkActor \<Rightarrow> string \<Rightarrow> string option \<Rightarrow> string option \<Rightarrow> int \<Rightarrow> database \<Rightarrow>
   (work_error, string \<times> database) result" where
  "reorderList actor listId beforeListId afterListId now db =
     bind_result (loadList (orgOf actor) listId db) (\<lambda>l.
     bind_result (enforceOn actor ''board:update'' (ref_to ''board'' (l_boardId l)) (l_orgId l)
                    (ancestorsOfBoard (l_projectId l))) (\<lambda>_.
     let siblings = filter (\<lambda>r. l_boardId r = l_boardId l \<and> l_id r \<noteq> listId)
           (lists_in (orgOf actor) db) in
     bind_result (rank_of_list siblings beforeListId) (\<lambda>before.
     bind_result (rank_of_list siblings afterListId) (\<lambda>after.
     bind_result (rank_between before after) (\<lambda>rank.
       Return (rank, append_events
         [createEvent (ListReordered listId (l_boardId l) (l_rank l) rank) (envelopeOf actor)]
         (update_list (orgOf actor) listId (\<lambda>r. r\<lparr>l_rank := rank, l_updatedAt := now\<rparr>) db)))))))"

text \<open>A card that is neither deleted nor archived.\<close>

definition live_card :: "string \<Rightarrow> CardRow \<Rightarrow> bool" where
  "live_card orgId c = (c_orgId c = orgId \<and> c_deletedAt c = None)"

definition cards_in :: "string \<Rightarrow> database \<Rightarrow> CardRow list" where
  "cards_in orgId db = filter (live_card orgId) (cards db)"

definition archiveList ::
  "WorkActor \<Rightarrow> string \<Rightarrow> bool \<Rightarrow> int \<Rightarrow> database \<Rightarrow> (work_error, bool \<times> database) result" where
  "archiveList actor listId archived now db =
     bind_result (loadList (orgOf actor) listId db) (\<lambda>l.
     bind_result (enforceOn actor ''board:update'' (ref_to ''board'' (l_boardId l)) (l_orgId l)
                    (ancestorsOfBoard (l_projectId l))) (\<lambda>_.
       if archived \<and> list_ex (\<lambda>c. c_listId c = listId \<and> c_archivedAt c = None) (cards_in (orgOf actor) db)
       then Throw (App (conflict (Some
              ''Move or archive the cards in this list before archiving it.'')))
       else
         Return (archived, append_events
           [createEvent (ListArchived listId (l_boardId l) (l_name l) (\<not> archived)) (envelopeOf actor)]
           (update_list (orgOf actor) listId
              (\<lambda>r. r\<lparr>l_archivedAt := (if archived then Some now else None), l_updatedAt := now\<rparr>) db))))"

end
