(* ===== verification/Work_Cards.thy ===== *)
theory Work_Cards
  imports Work_Lists
begin

text \<open>
  The cards of a board, \<open>apps/api/src/work/card.service.ts\<close>, and the renormalization of a list,
  \<open>rebalance.ts\<close>. Reads other than the ones below (\<open>listCards\<close>, \<open>getCard\<close>, \<dots>) are not modelled.
\<close>

section \<open>Loading and writing rows\<close>

definition loadCard :: "string \<Rightarrow> string \<Rightarrow> database \<Rightarrow> (work_error, CardRow) result" where
  "loadCard orgId cardId db =
     (case filter (\<lambda>c. c_id c = cardId) (cards_in orgId db) of
        [] \<Rightarrow> Throw (App (notFound None)) | c # _ \<Rightarrow> Return c)"

definition update_card :: "string \<Rightarrow> string \<Rightarrow> (CardRow \<Rightarrow> CardRow) \<Rightarrow> database \<Rightarrow> database" where
  "update_card orgId cardId change db =
     db\<lparr>cards := map (\<lambda>c. if c_orgId c = orgId \<and> c_id c = cardId then change c else c) (cards db)\<rparr>"

text \<open>
  The constraints of the table a write can violate: the primary key, the number within a project, the
  composite keys to the list and to the status (migrations 0008 and 0011). \<open>others\<close> are the other cards.
\<close>

definition list_key_ok :: "database \<Rightarrow> CardRow \<Rightarrow> bool" where
  "list_key_ok db c =
     list_ex (\<lambda>l. l_orgId l = c_orgId c \<and> l_projectId l = c_projectId c \<and>
       l_boardId l = c_boardId c \<and> l_id l = c_listId c) (lists db)"

definition status_key_ok :: "database \<Rightarrow> CardRow \<Rightarrow> bool" where
  "status_key_ok db c =
     (case c_statusId c of
        None \<Rightarrow> True
      | Some s \<Rightarrow> list_ex (\<lambda>r. s_orgId r = c_orgId c \<and> s_projectId r = c_projectId c \<and> s_id r = s)
                    (statuses db))"

definition unique_keys_ok :: "CardRow list \<Rightarrow> CardRow \<Rightarrow> bool" where
  "unique_keys_ok others c =
     list_all (\<lambda>d. c_id d \<noteq> c_id c \<and>
       (c_orgId d, c_projectId d, c_number d) \<noteq> (c_orgId c, c_projectId c, c_number c)) others"

definition key_error :: "string \<Rightarrow> work_error" where
  "key_error state = Driver [None, Some state]"

definition insert_card :: "CardRow \<Rightarrow> database \<Rightarrow> (work_error, database) result" where
  "insert_card c db =
     (if \<not> unique_keys_ok (cards db) c then Throw (key_error UNIQUE_VIOLATION)
      else if \<not> (list_key_ok db c \<and> status_key_ok db c) then Throw (key_error FOREIGN_KEY_VIOLATION)
      else Return (db\<lparr>cards := cards db @ [c]\<rparr>))"

text \<open>An update that touches a foreign key column of the loaded card \<open>c\<close>.\<close>

definition update_card_keys ::
  "CardRow \<Rightarrow> (CardRow \<Rightarrow> CardRow) \<Rightarrow> database \<Rightarrow> (work_error, database) result" where
  "update_card_keys c change db =
     (if \<not> (list_key_ok db (change c) \<and> status_key_ok db (change c))
      then Throw (key_error FOREIGN_KEY_VIOLATION)
      else Return (update_card (c_orgId c) (c_id c) change db))"

definition enforce_card :: "WorkActor \<Rightarrow> string \<Rightarrow> CardRow \<Rightarrow> (work_error, unit) result" where
  "enforce_card actor permission c =
     enforceOn actor permission (ref_to ''card'' (c_id c)) (c_orgId c)
       (ancestorsOfCard (c_boardId c) (c_projectId c))"

definition referenceOf :: "string \<Rightarrow> int \<Rightarrow> string" where
  "referenceOf key number = key @ ''-'' @ (if number < 0 then ''-'' else []) @ decimal_of_nat (nat \<bar>number\<bar>)"

section \<open>Renormalizing a list\<close>

definition cards_of_list :: "string \<Rightarrow> string \<Rightarrow> database \<Rightarrow> CardRow list" where
  "cards_of_list orgId listId db =
     by_rank c_rank c_id (filter (\<lambda>c. c_listId c = listId) (cards_in orgId db))"

fun assign_ranks :: "string \<Rightarrow> CardRow list \<Rightarrow> string list \<Rightarrow> database \<Rightarrow> database" where
  "assign_ranks orgId (row # rows) (next # ranks) db =
     assign_ranks orgId rows ranks (update_card orgId (c_id row) (\<lambda>c. c\<lparr>c_rank := next\<rparr>) db)"
| "assign_ranks orgId _ _ db = db"

definition rebalanceList :: "string \<Rightarrow> string \<Rightarrow> database \<Rightarrow> (work_error, nat \<times> database) result" where
  "rebalanceList orgId listId db =
     (let rows = cards_of_list orgId listId db in
      case rankSequence (int (length rows)) of
        Inl e \<Rightarrow> Throw (InvalidRankError e)
      | Inr ranks \<Rightarrow> Return (length rows, assign_ranks orgId rows ranks db))"

definition listNeedsRebalance :: "string \<Rightarrow> string \<Rightarrow> database \<Rightarrow> bool" where
  "listNeedsRebalance orgId listId db =
     needsRebalance (map c_rank (filter (\<lambda>c. c_listId c = listId) (cards_in orgId db)))"

section \<open>Moving a card\<close>

definition loadSiblings :: "string \<Rightarrow> string \<Rightarrow> string \<Rightarrow> database \<Rightarrow> CardRow list" where
  "loadSiblings orgId listId excluding db =
     by_rank c_rank c_id
       (filter (\<lambda>c. c_listId c = listId \<and> c_id c \<noteq> excluding \<and> c_archivedAt c = None)
         (cards_in orgId db))"

definition rankOfNeighbour :: "CardRow list \<Rightarrow> string option \<Rightarrow> (work_error, string option) result" where
  "rankOfNeighbour siblings cardId =
     (case cardId of
        None \<Rightarrow> Return None
      | Some i \<Rightarrow>
          (case find (\<lambda>c. c_id c = i) siblings of
             None \<Rightarrow> Throw (App (notFound None)) | Some c \<Rightarrow> Return (Some (c_rank c))))"

definition neighbour_rank ::
  "CardRow list \<Rightarrow> string option \<Rightarrow> string option \<Rightarrow> (work_error, string) result" where
  "neighbour_rank siblings beforeCardId afterCardId =
     bind_result (rankOfNeighbour siblings beforeCardId) (\<lambda>before.
     bind_result (rankOfNeighbour siblings afterCardId) (\<lambda>after. rank_between before after))"

text \<open>The \<open>try\<close>: the new rank, how many cards were renormalized to get it, and the database.\<close>

definition place ::
  "string \<Rightarrow> string \<Rightarrow> string \<Rightarrow> string option \<Rightarrow> string option \<Rightarrow> database \<Rightarrow>
   (work_error, string \<times> nat option \<times> database) result" where
  "place orgId listId cardId beforeCardId afterCardId db =
     (case neighbour_rank (loadSiblings orgId listId cardId db) beforeCardId afterCardId of
        Inr rank \<Rightarrow> Return (rank, None, db)
      | Inl (InvalidRankError _) \<Rightarrow>
          bind_result (rebalanceList orgId listId db) (\<lambda>(count, db1).
          bind_result (neighbour_rank (loadSiblings orgId listId cardId db1) beforeCardId afterCardId)
            (\<lambda>rank. Return (rank, Some count, db1)))
      | Inl e \<Rightarrow> Throw e)"

record MoveResult =
  mv_rank :: string
  mv_listId :: string
  mv_wipExceeded :: bool
  mv_rebalanced :: bool

definition cross_project :: AppError where
  "cross_project =
     validation [(''targetListId'', JStr ''That list belongs to a different project.'')]
       (Some ''A card cannot be moved to another project.'')"

definition moveCard ::
  "WorkActor \<Rightarrow> string \<Rightarrow> string \<Rightarrow> string option \<Rightarrow> string option \<Rightarrow> int \<Rightarrow> database \<Rightarrow>
   (work_error, MoveResult \<times> database) result" where
  "moveCard actor cardId targetListId beforeCardId afterCardId now db =
     (let orgId = orgOf actor in
      bind_result (loadCard orgId cardId db) (\<lambda>card.
      bind_result (enforce_card actor ''card:move'' card) (\<lambda>_.
      bind_result (loadList orgId targetListId db) (\<lambda>target.
      bind_result (enforceOn actor ''card:move'' (ref_to ''board'' (l_boardId target)) (l_orgId target)
                     [ref_to ''project'' (l_projectId target)]) (\<lambda>_.
      if l_projectId target \<noteq> c_projectId card then Throw (App cross_project)
      else
        bind_result (place orgId targetListId cardId beforeCardId afterCardId db)
          (\<lambda>(rank, rebalancedCount, db1).
        bind_result (update_card_keys card
            (\<lambda>c. c\<lparr>c_listId := targetListId, c_boardId := l_boardId target,
                   c_projectId := l_projectId target, c_rank := rank, c_updatedAt := now\<rparr>) db1)
          (\<lambda>db2.
        let occupants = int (length (loadSiblings orgId targetListId cardId db)) + 1;
            wipExceeded = (case l_wipLimit target of None \<Rightarrow> False | Some w \<Rightarrow> occupants > w);
            events =
              [createEvent (CardMoved cardId (l_boardId target) (c_listId card) targetListId
                 (c_rank card) rank) (envelopeOf actor)] @
              (case rebalancedCount of
                 None \<Rightarrow> []
               | Some n \<Rightarrow> [createEvent (ListRebalanced targetListId (l_boardId target) n)
                              (envelopeOf actor)])
        in Return (\<lparr>mv_rank = rank, mv_listId = targetListId, mv_wipExceeded = wipExceeded,
                     mv_rebalanced = (rebalancedCount \<noteq> None)\<rparr>, append_events events db2))))))))"

section \<open>Creating, editing and archiving\<close>

definition next_number :: "string \<Rightarrow> string \<Rightarrow> database \<Rightarrow> (ProjectRow \<times> database) option" where
  "next_number orgId projectId db =
     (let bump = (\<lambda>p. p\<lparr>p_nextCardNumber := p_nextCardNumber p + 1\<rparr>);
          hit = (\<lambda>p. p_orgId p = orgId \<and> p_id p = projectId) in
      case filter hit (projects db) of
        [] \<Rightarrow> None
      | p # _ \<Rightarrow> Some (bump p, db\<lparr>projects := map (\<lambda>p. if hit p then bump p else p) (projects db)\<rparr>))"

definition defaultStatus :: "string \<Rightarrow> string \<Rightarrow> database \<Rightarrow> string option" where
  "defaultStatus orgId projectId db =
     (case filter (\<lambda>s. s_orgId s = orgId \<and> s_projectId s = projectId \<and> s_isDefault s) (statuses db) of
        [] \<Rightarrow> None | s # _ \<Rightarrow> Some (s_id s))"

definition createCard ::
  "WorkActor \<Rightarrow> string \<Rightarrow> string \<Rightarrow> RichTextNode option \<Rightarrow> string \<Rightarrow> int \<Rightarrow> database \<Rightarrow>
   (work_error, (string \<times> string) \<times> database) result" where
  "createCard actor listId title description cardId now db =
     translatingConstraints
       (let orgId = orgOf actor in
        bind_result (loadList orgId listId db) (\<lambda>l.
        bind_result (enforceOn actor ''card:create'' (ref_to ''board'' (l_boardId l)) (l_orgId l)
                       [ref_to ''project'' (l_projectId l)]) (\<lambda>_.
        case next_number orgId (l_projectId l) db of
          None \<Rightarrow> Throw (App (notFound None))
        | Some (counter, db1) \<Rightarrow>
            (let number = p_nextCardNumber counter - 1;
                 siblings = cards_of_list orgId listId db1 in
             bind_result (rank_between (last_rank (map c_rank siblings)) None) (\<lambda>rank.
             bind_result (insert_card
                 \<lparr>c_id = cardId, c_orgId = orgId, c_projectId = l_projectId l, c_boardId = l_boardId l,
                  c_listId = listId, c_number = number, c_title = title,
                  c_description = map_option rt_json description,
                  c_descriptionText = map_option flattenToText description, c_rank = rank,
                  c_assigneeIds = [], c_statusId = defaultStatus orgId (l_projectId l) db1,
                  c_sprintId = None, c_priority = None, c_dueDate = None, c_startDate = None,
                  c_version = 1, c_createdBy = userOf actor, c_archivedAt = None,
                  c_deletedAt = None, c_updatedAt = now\<rparr> db1) (\<lambda>db2.
             let reference = referenceOf (p_key counter) number in
             Return ((cardId, reference), append_events
               [createEvent (CardCreated cardId (l_boardId l) listId (l_projectId l) reference title)
                  (envelopeOf actor)] db2)))))))
       (conflict (Some ''That card already exists.''))"

definition stale_card :: AppError where
  "stale_card = conflict (Some ''This card was changed by someone else. Reload and try again.'')"

text \<open>\<open>JSON.stringify\<close> of two descriptions is equal when they are the same JSON, entries in order.\<close>

definition changed_fields ::
  "CardRow \<Rightarrow> string \<Rightarrow> json option \<Rightarrow> int option \<Rightarrow> int option \<Rightarrow> string option \<Rightarrow> string list" where
  "changed_fields c title description dueDate startDate priority =
     (if c_title c \<noteq> title then [''title''] else []) @
     (if c_dueDate c \<noteq> dueDate then [''dueDate''] else []) @
     (if c_startDate c \<noteq> startDate then [''startDate''] else []) @
     (if c_priority c \<noteq> priority then [''priority''] else []) @
     (if c_description c \<noteq> description then [''description''] else [])"

definition updateCard ::
  "WorkActor \<Rightarrow> string \<Rightarrow> int \<Rightarrow> string \<Rightarrow> RichTextNode option \<Rightarrow> int option \<Rightarrow> int option \<Rightarrow>
   string option \<Rightarrow> int \<Rightarrow> database \<Rightarrow> (work_error, int \<times> database) result" where
  "updateCard actor cardId version title description dueDate startDate priority now db =
     bind_result (loadCard (orgOf actor) cardId db) (\<lambda>card.
     bind_result (enforce_card actor ''card:update'' card) (\<lambda>_.
       let json = map_option rt_json description;
           changed = changed_fields card title json dueDate startDate priority;
           nextVersion = c_version card + 1 in
       if \<not> list_ex (\<lambda>c. c_orgId c = orgOf actor \<and> c_id c = cardId \<and> c_version c = version) (cards db)
       then Throw (App stale_card)
       else
         Return (nextVersion, append_events
           [createEvent (CardUpdated cardId (c_boardId card) changed
              (c_title card, c_dueDate card, c_startDate card, c_priority card)
              (title, dueDate, startDate, priority)) (envelopeOf actor)]
           (update_card (orgOf actor) cardId
              (\<lambda>c. if c_version c = version then
                 c\<lparr>c_title := title, c_description := json,
                   c_descriptionText := map_option flattenToText description, c_dueDate := dueDate,
                   c_startDate := startDate, c_priority := priority, c_version := nextVersion,
                   c_updatedAt := now\<rparr> else c) db))))"

definition setCardStatus ::
  "WorkActor \<Rightarrow> string \<Rightarrow> string option \<Rightarrow> int \<Rightarrow> database \<Rightarrow>
   (work_error, string option \<times> database) result" where
  "setCardStatus actor cardId statusId now db =
     translatingConstraints
       (bind_result (loadCard (orgOf actor) cardId db) (\<lambda>card.
        bind_result (enforce_card actor ''card:update'' card) (\<lambda>_.
          if c_statusId card = statusId then Return (c_statusId card, db)
          else
            bind_result (update_card_keys card
                (\<lambda>c. c\<lparr>c_statusId := statusId, c_updatedAt := now\<rparr>) db) (\<lambda>db1.
            Return (statusId, append_events
              [createEvent (CardStatusChanged cardId (c_boardId card) (c_statusId card) statusId)
                 (envelopeOf actor)] db1)))))
       (notFound None)"

definition active_members :: "string \<Rightarrow> database \<Rightarrow> string list" where
  "active_members orgId db =
     map m_userId (filter (\<lambda>m. m_orgId m = orgId \<and> m_status m = ''active'') (memberships db))"

definition not_a_member :: "string \<Rightarrow> AppError" where
  "not_a_member field = validation [(field, JStr ''Not a member of this organization.'')] None"

text \<open>\<open>[...new Set(ids)]\<close>: the first occurrence of each, in order.\<close>

definition unique_ids :: "string list \<Rightarrow> string list" where
  "unique_ids ids = rev (remdups (rev ids))"

definition assignCard ::
  "WorkActor \<Rightarrow> string \<Rightarrow> string list \<Rightarrow> int \<Rightarrow> database \<Rightarrow>
   (work_error, string list \<times> database) result" where
  "assignCard actor cardId ids now db =
     bind_result (loadCard (orgOf actor) cardId db) (\<lambda>card.
     bind_result (enforce_card actor ''card:update'' card) (\<lambda>_.
       if list_ex (\<lambda>i. i \<notin> set (active_members (orgOf actor) db)) ids
       then Throw (App (not_a_member ''assigneeIds''))
       else
         (let assigneeIds = unique_ids ids in
          Return (assigneeIds, append_events
            [createEvent (CardAssigned cardId (c_boardId card) (c_assigneeIds card) assigneeIds)
               (envelopeOf actor)]
            (update_card (orgOf actor) cardId
               (\<lambda>c. c\<lparr>c_assigneeIds := assigneeIds, c_updatedAt := now\<rparr>) db)))))"

text \<open>\<open>loadCard\<close> and \<open>enforceOn\<close> throw an \<open>AppError\<close> only, which has a message.\<close>

fun error_message :: "work_error \<Rightarrow> string" where
  "error_message (App e) = err_message e"
| "error_message _ = ''unknown error''"

text \<open>One card of \<open>bulkReassignCards\<close>: its new database, or why it failed.\<close>

definition reassign_one ::
  "WorkActor \<Rightarrow> string \<Rightarrow> string \<Rightarrow> int \<Rightarrow> string \<Rightarrow> database \<Rightarrow> (work_error, database) result" where
  "reassign_one actor fromUserId toUserId now cardId db =
     bind_result (loadCard (orgOf actor) cardId db) (\<lambda>card.
     bind_result (enforce_card actor ''card:update'' card) (\<lambda>_.
       let kept = filter (\<lambda>i. i \<noteq> fromUserId) (c_assigneeIds card);
           next = (if toUserId \<in> set kept then kept else kept @ [toUserId])
       in Return (update_card (orgOf actor) cardId
            (\<lambda>c. c\<lparr>c_assigneeIds := next, c_updatedAt := now\<rparr>) db)))"

fun reassign_loop ::
  "WorkActor \<Rightarrow> string \<Rightarrow> string \<Rightarrow> int \<Rightarrow> string list \<Rightarrow> database \<Rightarrow>
   string list \<times> (string \<times> string) list \<times> database" where
  "reassign_loop actor fromUserId toUserId now [] db = ([], [], db)"
| "reassign_loop actor fromUserId toUserId now (i # ids) db =
     (case reassign_one actor fromUserId toUserId now i db of
        Inr db1 \<Rightarrow>
          (let (done, failed, db2) = reassign_loop actor fromUserId toUserId now ids db1
           in (i # done, failed, db2))
      | Inl e \<Rightarrow>
          (let (done, failed, db2) = reassign_loop actor fromUserId toUserId now ids db
           in (done, (i, error_message e) # failed, db2)))"

text \<open>The rows are those of the organization that are not archived; deleted ones fail in \<open>loadCard\<close>.\<close>

definition bulkReassignCards ::
  "WorkActor \<Rightarrow> string \<Rightarrow> string \<Rightarrow> int \<Rightarrow> database \<Rightarrow>
   (work_error, (string list \<times> (string \<times> string) list) \<times> database) result" where
  "bulkReassignCards actor fromUserId toUserId now db =
     (if toUserId \<notin> set (active_members (orgOf actor) db)
      then Throw (App (not_a_member ''toUserId''))
      else
        (let rows = filter (\<lambda>c. c_orgId c = orgOf actor \<and> fromUserId \<in> set (c_assigneeIds c) \<and>
                              c_archivedAt c = None) (cards db);
             (done, failed, db1) = reassign_loop actor fromUserId toUserId now (map c_id rows) db
         in Return ((done, failed),
              if done = [] then db1
              else append_events
                [createEvent (CardsBulkReassigned done fromUserId toUserId) (envelopeOf actor)] db1)))"

definition archiveCard ::
  "WorkActor \<Rightarrow> string \<Rightarrow> bool \<Rightarrow> int \<Rightarrow> database \<Rightarrow> (work_error, bool \<times> database) result" where
  "archiveCard actor cardId archived now db =
     bind_result (loadCard (orgOf actor) cardId db) (\<lambda>card.
     bind_result (enforce_card actor ''card:delete'' card) (\<lambda>_.
       case filter (\<lambda>p. p_orgId p = orgOf actor \<and> p_id p = c_projectId card) (projects db) of
         [] \<Rightarrow> Throw (App (notFound None))
       | project # _ \<Rightarrow>
           Return (archived, append_events
             [createEvent (CardArchived cardId (c_boardId card) (c_listId card)
                (referenceOf (p_key project) (c_number card)) (\<not> archived)) (envelopeOf actor)]
             (update_card (orgOf actor) cardId
                (\<lambda>c. c\<lparr>c_archivedAt := (if archived then Some now else None), c_updatedAt := now\<rparr>) db))))"

end
