(* ===== verification/Work_Invariant.thy ===== *)
theory Work_Invariant
  imports Work_Cards
begin

text \<open>
  The invariant of the Work tables and its preservation by every service: ids and card numbers are
  unique, every rank is valid, every card lies under the ancestors its list has, its status belongs to
  its project, and the project counter is ahead of every number handed out. A step of the module is a
  successful run of one of its services.
\<close>

section \<open>Successful results\<close>

lemma case_list_Inr [simp]:
  "(case xs of [] \<Rightarrow> Inl e | x # ys \<Rightarrow> f x ys) = Inr y \<longleftrightarrow> (\<exists>x ys. xs = x # ys \<and> f x ys = Inr y)"
  by (cases xs) simp_all

lemma case_option_Inr [simp]:
  "(case v of None \<Rightarrow> Inl e | Some x \<Rightarrow> f x) = Inr y \<longleftrightarrow> (\<exists>x. v = Some x \<and> f x = Inr y)"
  by (cases v) simp_all

lemma loadCard_Inr:
  "loadCard orgId i db = Inr c \<Longrightarrow> c \<in> set (cards db) \<and> c_id c = i \<and> c_orgId c = orgId \<and> c_deletedAt c = None"
  by (auto simp: loadCard_def cards_in_def live_card_def filter_eq_Cons_iff split: list.splits)

lemma loadList_Inr:
  "loadList orgId i db = Inr l \<Longrightarrow> l \<in> set (lists db) \<and> l_id l = i \<and> l_orgId l = orgId \<and> l_deletedAt l = None"
  by (auto simp: loadList_def lists_in_def live_list_def filter_eq_Cons_iff split: list.splits)

lemma loadBoard_Inr: "loadBoard orgId i db = Inr b \<Longrightarrow> b_orgId b = orgId \<and> b_id b = i"
  by (auto simp: loadBoard_def filter_eq_Cons_iff split: list.splits)

lemma outbox_simps [simp]:
  "cards (append_events es db) = cards db" "lists (append_events es db) = lists db"
  "boards (append_events es db) = boards db" "projects (append_events es db) = projects db"
  "statuses (append_events es db) = statuses db" "outbox (append_events es db) = outbox db @ es"
  by (simp_all add: append_events_def)

lemma update_card_simps [simp]:
  "lists (update_card orgId i f db) = lists db" "projects (update_card orgId i f db) = projects db"
  "statuses (update_card orgId i f db) = statuses db" "outbox (update_card orgId i f db) = outbox db"
  by (simp_all add: update_card_def)

lemma update_list_simps [simp]:
  "cards (update_list orgId i f db) = cards db" "projects (update_list orgId i f db) = projects db"
  "statuses (update_list orgId i f db) = statuses db" "outbox (update_list orgId i f db) = outbox db"
  by (simp_all add: update_list_def)

lemma rank_between_Inr: "rank_between b a = Inr r \<longleftrightarrow> between b a = Inr r"
  by (auto simp: rank_between_def split: sum.splits)

lemma between_isRank: "between b a = Inr r \<Longrightarrow> isRank r"
proof (cases b; cases a)
  fix y x assume "between b a = Inr r" "b = Some y" "a = Some x"
  then show "isRank r" using between_both_spec [of y x]
    by (auto simp: between_def requireRank_def split: if_splits)
next
  fix x assume "between b a = Inr r" "b = None" "a = Some x"
  then show "isRank r" using between_prepend_spec [of x]
    by (cases "isRank x") (auto simp: between_def requireRank_def)
next
  fix y assume "between b a = Inr r" "b = Some y" "a = None"
  then show "isRank r" using between_append_spec [of y]
    by (cases "isRank y") (auto simp: between_def requireRank_def)
next
  assume "between b a = Inr r" "b = None" "a = None"
  then show "isRank r" by (simp add: between_empty isRank_ZERO_INTEGER)
qed

section \<open>The invariant\<close>

definition number_key :: "CardRow \<Rightarrow> string \<times> string \<times> int" where
  "number_key c = (c_orgId c, c_projectId c, c_number c)"

definition counter_ahead :: "ProjectRow list \<Rightarrow> CardRow \<Rightarrow> bool" where
  "counter_ahead ps c \<longleftrightarrow>
     (\<forall>p \<in> set ps. p_orgId p = c_orgId c \<and> p_id p = c_projectId c \<longrightarrow> c_number c < p_nextCardNumber p)"

definition card_ok :: "database \<Rightarrow> CardRow \<Rightarrow> bool" where
  "card_ok db c \<longleftrightarrow> isRank (c_rank c) \<and> list_key_ok db c \<and> status_key_ok db c \<and> counter_ahead (projects db) c"

definition well_formed :: "database \<Rightarrow> bool" where
  "well_formed db \<longleftrightarrow>
     distinct (map c_id (cards db)) \<and> distinct (map number_key (cards db)) \<and>
     list_all (card_ok db) (cards db) \<and>
     distinct (map l_id (lists db)) \<and> list_all (\<lambda>l. isRank (l_rank l)) (lists db) \<and>
     distinct (map (\<lambda>p. (p_orgId p, p_id p)) (projects db))"

text \<open>A card is fine in another database with the same lists, statuses and counters.\<close>

lemma card_ok_cong:
  "lists db' = lists db \<Longrightarrow> statuses db' = statuses db \<Longrightarrow> projects db' = projects db \<Longrightarrow>
   card_ok db' c = card_ok db c"
  by (simp add: card_ok_def list_key_ok_def status_key_ok_def cong: option.case_cong)

lemma well_formed_append_events [simp]: "well_formed (append_events es db) = well_formed db"
  using card_ok_cong [of "append_events es db" db] by (auto simp: well_formed_def list_all_iff)

lemma list_ex_map_same: "(\<And>x. P (g x) = P x) \<Longrightarrow> list_ex P (map g xs) = list_ex P xs"
  by (simp add: list_ex_iff)

lemma map_same: "(\<And>x. x \<in> set xs \<Longrightarrow> f (g x) = f x) \<Longrightarrow> map f (map g xs) = map f xs"
  by simp

text \<open>Changing one card, in a way that keeps its keys and leaves it fine.\<close>

lemma update_card_wf:
  assumes wf: "well_formed db"
    and keys: "\<And>c. c \<in> set (cards db) \<Longrightarrow> c_orgId c = orgId \<Longrightarrow> c_id c = i \<Longrightarrow>
      c_id (f c) = c_id c \<and> number_key (f c) = number_key c \<and> card_ok db (f c)"
  shows "well_formed (update_card orgId i f db)"
proof -
  let ?g = "\<lambda>c. if c_orgId c = orgId \<and> c_id c = i then f c else c"
  have ids: "map c_id (map ?g (cards db)) = map c_id (cards db)"
    and nums: "map number_key (map ?g (cards db)) = map number_key (cards db)"
    by (rule map_same; use keys in auto)+
  have "card_ok (update_card orgId i f db) c = card_ok db c" for c by (rule card_ok_cong) simp_all
  then have "list_all (card_ok (update_card orgId i f db)) (map ?g (cards db))"
    using wf keys by (auto simp: well_formed_def list_all_iff)
  then show ?thesis using wf ids nums
    by (simp add: well_formed_def update_card_def del: map_map)
qed

text \<open>Changes that touch none of the columns the invariant reads.\<close>

definition inessential :: "(CardRow \<Rightarrow> CardRow) \<Rightarrow> bool" where
  "inessential f \<longleftrightarrow> (\<forall>c. c_id (f c) = c_id c \<and> c_orgId (f c) = c_orgId c \<and> c_projectId (f c) = c_projectId c \<and>
     c_boardId (f c) = c_boardId c \<and> c_listId (f c) = c_listId c \<and> c_number (f c) = c_number c \<and>
     c_rank (f c) = c_rank c \<and> c_statusId (f c) = c_statusId c)"

lemma inessential_wf: "well_formed db \<Longrightarrow> inessential f \<Longrightarrow> well_formed (update_card orgId i f db)"
  by (rule update_card_wf)
    (auto simp: inessential_def number_key_def card_ok_def list_key_ok_def status_key_ok_def counter_ahead_def
      well_formed_def list_all_iff cong: option.case_cong)

lemma rank_change_wf:
  "well_formed db \<Longrightarrow> isRank r \<Longrightarrow> well_formed (update_card orgId i (\<lambda>c. c\<lparr>c_rank := r\<rparr>) db)"
  by (rule update_card_wf)
    (auto simp: number_key_def card_ok_def list_key_ok_def status_key_ok_def counter_ahead_def
      well_formed_def list_all_iff cong: option.case_cong)

lemma update_list_wf:
  assumes wf: "well_formed db"
    and f: "\<And>l. l_id (f l) = l_id l \<and> l_orgId (f l) = l_orgId l \<and> l_projectId (f l) = l_projectId l \<and>
      l_boardId (f l) = l_boardId l \<and> (isRank (l_rank l) \<longrightarrow> isRank (l_rank (f l)))"
  shows "well_formed (update_list orgId i f db)"
proof -
  let ?g = "\<lambda>l. if l_orgId l = orgId \<and> l_id l = i then f l else l"
  have ids: "map l_id (map ?g (lists db)) = map l_id (lists db)" using f by simp
  have "list_key_ok (update_list orgId i f db) c = list_key_ok db c" for c
    unfolding list_key_ok_def update_list_def using f by (simp add: list_ex_map_same)
  then have "card_ok (update_list orgId i f db) = card_ok db"
    by (intro ext) (simp add: card_ok_def status_key_ok_def cong: option.case_cong)
  moreover have "list_all (\<lambda>l. isRank (l_rank l)) (map ?g (lists db))"
    using wf f by (auto simp: well_formed_def list_all_iff)
  moreover have "lists (update_list orgId i f db) = map ?g (lists db)" by (simp add: update_list_def)
  ultimately show ?thesis using wf ids by (simp add: well_formed_def del: map_map)
qed

section \<open>The steps\<close>

text \<open>A service of the module run by somebody of \<open>orgId\<close> turns one database into another.\<close>

inductive work_step :: "string \<Rightarrow> database \<Rightarrow> database \<Rightarrow> bool" where
  createList: "createList actor b name wip i now db = Inr (r, db') \<Longrightarrow> work_step (orgOf actor) db db'"
| updateList: "updateList actor i name wip now db = Inr (s, db') \<Longrightarrow> work_step (orgOf actor) db db'"
| reorderList: "reorderList actor i before after now db = Inr (s, db') \<Longrightarrow> work_step (orgOf actor) db db'"
| archiveList: "archiveList actor i archived now db = Inr (a, db') \<Longrightarrow> work_step (orgOf actor) db db'"
| createCard: "createCard actor l title desc i now db = Inr (x, db') \<Longrightarrow> work_step (orgOf actor) db db'"
| updateCard: "updateCard actor i v title desc due start prio now db = Inr (n, db') \<Longrightarrow>
    work_step (orgOf actor) db db'"
| setCardStatus: "setCardStatus actor i st now db = Inr (o', db') \<Longrightarrow> work_step (orgOf actor) db db'"
| moveCard: "moveCard actor i l before after now db = Inr (m, db') \<Longrightarrow> work_step (orgOf actor) db db'"
| assignCard: "assignCard actor i ids now db = Inr (as, db') \<Longrightarrow> work_step (orgOf actor) db db'"
| bulkReassign: "bulkReassignCards actor from to now db = Inr (x', db') \<Longrightarrow> work_step (orgOf actor) db db'"
| archiveCard: "archiveCard actor i archived now db = Inr (a, db') \<Longrightarrow> work_step (orgOf actor) db db'"

inductive work_steps :: "database \<Rightarrow> database \<Rightarrow> bool" where
  none: "work_steps db db"
| step: "work_steps db db' \<Longrightarrow> work_step orgId db' db'' \<Longrightarrow> work_steps db db''"

section \<open>Preservation\<close>

lemma append_list_wf:
  assumes "well_formed db" "isRank (l_rank l)" "\<not> list_ex (\<lambda>x. l_id x = l_id l) (lists db)"
  shows "well_formed (db\<lparr>lists := lists db @ [l]\<rparr>)"
proof -
  have "card_ok db c \<Longrightarrow> card_ok (db\<lparr>lists := lists db @ [l]\<rparr>) c" for c
    by (auto simp: card_ok_def list_key_ok_def status_key_ok_def cong: option.case_cong)
  then show ?thesis using assms
    by (auto simp: well_formed_def list_all_iff list_ex_iff)
qed

lemma createList_wf:
  "createList actor b name wip i now db = Inr (r, db') \<Longrightarrow> well_formed db \<Longrightarrow> well_formed db'"
  by (auto simp: createList_def Let_def rank_between_Inr dest!: between_isRank split: if_splits
      intro!: append_list_wf)

lemma updateList_wf:
  "updateList actor i name wip now db = Inr (s, db') \<Longrightarrow> well_formed db \<Longrightarrow> well_formed db'"
  by (auto simp: updateList_def intro!: update_list_wf)

lemma reorderList_wf:
  "reorderList actor i before after now db = Inr (s, db') \<Longrightarrow> well_formed db \<Longrightarrow> well_formed db'"
  by (auto simp: reorderList_def Let_def rank_between_Inr dest!: between_isRank intro!: update_list_wf)

lemma archiveList_wf:
  "archiveList actor i archived now db = Inr (a, db') \<Longrightarrow> well_formed db \<Longrightarrow> well_formed db'"
  by (auto simp: archiveList_def split: if_splits intro!: update_list_wf)

lemma counter_ahead_bump:
  "counter_ahead ps c \<Longrightarrow>
   counter_ahead (map (\<lambda>p. if hit p then p\<lparr>p_nextCardNumber := p_nextCardNumber p + 1\<rparr> else p) ps) c"
  by (auto simp: counter_ahead_def)

lemma insert_card_Inr:
  "insert_card c db = Inr db' \<longleftrightarrow> unique_keys_ok (cards db) c \<and> list_key_ok db c \<and> status_key_ok db c \<and>
     db' = db\<lparr>cards := cards db @ [c]\<rparr>"
  by (auto simp: insert_card_def)

lemma insert_card_wf:
  assumes "insert_card c db = Inr db'" "well_formed db" "isRank (c_rank c)" "counter_ahead (projects db) c"
  shows "well_formed db'"
proof -
  have db': "db' = db\<lparr>cards := cards db @ [c]\<rparr>" and keys: "unique_keys_ok (cards db) c"
    "list_key_ok db c" "status_key_ok db c"
    using assms(1) by (simp_all add: insert_card_Inr)
  have "card_ok db' = card_ok db" by (intro ext card_ok_cong) (simp_all add: db')
  moreover have "card_ok db c" using assms(3,4) keys by (simp add: card_ok_def)
  moreover have "c_id c \<notin> set (map c_id (cards db))" "number_key c \<notin> set (map number_key (cards db))"
    using keys(1) by (auto simp: unique_keys_ok_def list_all_iff number_key_def)
  moreover have "cards db' = cards db @ [c]" "lists db' = lists db" "projects db' = projects db"
    by (simp_all add: db')
  ultimately show ?thesis using assms(2) by (simp add: well_formed_def)
qed

lemma next_number_wf:
  assumes "next_number orgId pid db = Some (p, db')" "well_formed db"
  shows "well_formed db' \<and> lists db' = lists db \<and> cards db' = cards db \<and> statuses db' = statuses db \<and>
    outbox db' = outbox db \<and>
    (\<forall>c. c_orgId c = orgId \<and> c_projectId c = pid \<and> c_number c = p_nextCardNumber p - 1 \<longrightarrow>
       counter_ahead (projects db') c)"
proof -
  let ?hit = "\<lambda>p. p_orgId p = orgId \<and> p_id p = pid"
  let ?bump = "\<lambda>p. p\<lparr>p_nextCardNumber := p_nextCardNumber p + 1\<rparr>"
  from assms(1) obtain q where q: "q \<in> set (projects db)" "?hit q" "p = ?bump q"
    and db': "db' = db\<lparr>projects := map (\<lambda>p. if ?hit p then ?bump p else p) (projects db)\<rparr>"
  proof (cases "filter ?hit (projects db)")
    case Nil
    then show ?thesis using assms(1) by (simp add: next_number_def)
  next
    case (Cons q qs)
    then have q: "q \<in> set (projects db)" "?hit q" by (auto simp: filter_eq_Cons_iff)
    show ?thesis using q that [of q] assms(1) Cons by (auto simp: next_number_def Let_def)
  qed
  have dist: "distinct (map (\<lambda>p. (p_orgId p, p_id p)) (projects db))"
    using assms(2) by (simp add: well_formed_def)
  have one: "r = q" if "r \<in> set (projects db)" "?hit r" for r
    using dist that q by (auto simp: distinct_map inj_on_def)
  have "card_ok db c \<Longrightarrow> card_ok db' c" for c
    using counter_ahead_bump [of "projects db" c ?hit]
    by (auto simp: card_ok_def db' list_key_ok_def status_key_ok_def cong: option.case_cong)
  moreover have "distinct (map (\<lambda>p. (p_orgId p, p_id p)) (projects db'))"
  proof -
    have "map (\<lambda>p. (p_orgId p, p_id p)) (projects db') = map (\<lambda>p. (p_orgId p, p_id p)) (projects db)"
      by (auto simp: db')
    then show ?thesis using dist by simp
  qed
  ultimately have "well_formed db'" using assms(2)
    by (auto simp: well_formed_def list_all_iff db')
  moreover have "\<forall>c. c_orgId c = orgId \<and> c_projectId c = pid \<and> c_number c = p_nextCardNumber p - 1 \<longrightarrow>
       counter_ahead (projects db') c"
    unfolding counter_ahead_def db' q(3) by (auto dest!: one)
  ultimately show ?thesis by (simp add: db')
qed

lemma numbered_insert_wf:
  assumes "next_number orgId pid db = Some (p, db1)" "insert_card c db1 = Inr db2" "well_formed db"
    and "c_orgId c = orgId" "c_projectId c = pid" "c_number c = p_nextCardNumber p - 1" "isRank (c_rank c)"
  shows "well_formed db2"
  using next_number_wf [OF assms(1,3)] insert_card_wf [OF assms(2)] assms(4-7) by blast

lemma createCard_wf:
  "createCard actor l title desc i now db = Inr (x, db') \<Longrightarrow> well_formed db \<Longrightarrow> well_formed db'"
  by (auto simp: createCard_def Let_def rank_between_Inr dest!: between_isRank)
    (erule (1) numbered_insert_wf; simp)

lemma archiveCard_wf:
  "archiveCard actor i archived now db = Inr (a, db') \<Longrightarrow> well_formed db \<Longrightarrow> well_formed db'"
  by (auto simp: archiveCard_def intro!: inessential_wf) (auto simp: inessential_def)

lemma assignCard_wf:
  "assignCard actor i ids now db = Inr (a, db') \<Longrightarrow> well_formed db \<Longrightarrow> well_formed db'"
  by (auto simp: assignCard_def Let_def split: if_splits intro!: inessential_wf) (auto simp: inessential_def)

lemma updateCard_wf:
  "updateCard actor i v title desc due start prio now db = Inr (n, db') \<Longrightarrow> well_formed db \<Longrightarrow> well_formed db'"
  by (auto simp: updateCard_def Let_def split: if_splits intro!: inessential_wf) (auto simp: inessential_def)

lemma reassign_one_wf:
  "reassign_one actor from to now i db = Inr db' \<Longrightarrow> well_formed db \<Longrightarrow> well_formed db'"
  by (auto simp: reassign_one_def Let_def intro!: inessential_wf) (auto simp: inessential_def)

lemma reassign_loop_wf:
  "reassign_loop actor from to now ids db = (done, failed, db') \<Longrightarrow> well_formed db \<Longrightarrow> well_formed db'"
  by (induction ids arbitrary: db "done" failed db')
    (auto split: sum.splits prod.splits dest: reassign_one_wf)

lemma bulkReassign_wf:
  "bulkReassignCards actor from to now db = Inr (x, db') \<Longrightarrow> well_formed db \<Longrightarrow> well_formed db'"
  by (auto simp: bulkReassignCards_def Let_def split: if_splits prod.splits dest: reassign_loop_wf)

text \<open>The columns the keys and the invariant read, the rank aside.\<close>

definition keys_of :: "CardRow \<Rightarrow> string \<times> string \<times> string \<times> string \<times> string \<times> int \<times> string option" where
  "keys_of c = (c_id c, c_orgId c, c_projectId c, c_boardId c, c_listId c, c_number c, c_statusId c)"

lemma keys_of_same:
  "keys_of d = keys_of c \<Longrightarrow> list_key_ok db d = list_key_ok db c \<and> status_key_ok db d = status_key_ok db c \<and>
     counter_ahead ps d = counter_ahead ps c \<and> number_key d = number_key c \<and> c_id d = c_id c"
  by (simp add: keys_of_def list_key_ok_def status_key_ok_def counter_ahead_def number_key_def
      cong: option.case_cong)

lemma update_card_keys_wf:
  assumes "update_card_keys c f db = Inr db'" "well_formed db"
    and f: "\<And>d. d \<in> set (cards db) \<Longrightarrow> c_id d = c_id c \<Longrightarrow>
      keys_of (f d) = keys_of (f c) \<and> number_key (f d) = number_key d \<and> c_id (f d) = c_id d \<and> isRank (c_rank (f d))"
  shows "well_formed db'"
proof -
  have db': "db' = update_card (c_orgId c) (c_id c) f db" and keys: "list_key_ok db (f c)" "status_key_ok db (f c)"
    using assms(1) by (auto simp: update_card_keys_def split: if_splits)
  have ahead: "counter_ahead (projects db) (f d)" if "d \<in> set (cards db)" "c_id d = c_id c" for d
  proof -
    have "counter_ahead (projects db) d"
      using assms(2) that by (simp add: well_formed_def list_all_iff card_ok_def)
    then show ?thesis using f [OF that] by (simp add: counter_ahead_def number_key_def)
  qed
  have "list_key_ok db (f d)" "status_key_ok db (f d)" if "d \<in> set (cards db)" "c_id d = c_id c" for d
    using keys_of_same [of "f d" "f c" db] f [OF that] keys by simp_all
  then show ?thesis unfolding db' using assms(2) f ahead
    by (intro update_card_wf) (auto simp: card_ok_def)
qed

lemma card_rank_ok: "well_formed db \<Longrightarrow> c \<in> set (cards db) \<Longrightarrow> isRank (c_rank c)"
  by (simp add: well_formed_def list_all_iff card_ok_def)

lemma same_id: "well_formed db \<Longrightarrow> c \<in> set (cards db) \<Longrightarrow> d \<in> set (cards db) \<Longrightarrow> c_id d = c_id c \<Longrightarrow> d = c"
  by (auto simp: well_formed_def distinct_map inj_on_def)

lemma setCardStatus_wf:
  assumes "setCardStatus actor i st now db = Inr (s, db')" "well_formed db"
  shows "well_formed db'"
proof -
  obtain c where c: "loadCard (orgOf actor) i db = Inr c"
    using assms(1) by (auto simp: setCardStatus_def)
  have same: "d = c" if "d \<in> set (cards db)" "c_id d = c_id c" for d
    using same_id [OF assms(2)] loadCard_Inr [OF c] that by blast
  show ?thesis using assms c loadCard_Inr [OF c]
    by (auto simp: setCardStatus_def split: if_splits)
      (erule update_card_keys_wf; auto simp: keys_of_def number_key_def card_rank_ok dest!: same)
qed

lemma assign_ranks_wf:
  "well_formed db \<Longrightarrow> list_all isRank ranks \<Longrightarrow> well_formed (assign_ranks orgId rows ranks db)"
  by (induction orgId rows ranks db rule: assign_ranks.induct) (auto intro: rank_change_wf)

lemma rankSequence_spec:
  "\<exists>rs. rankSequence (int n) = Inr rs \<and> length rs = n \<and> sorted_wrt (<) rs \<and> list_all isRank rs"
  using ranks_above.rank_loop_ok [of None n] by (auto simp: rankSequence_def list_all_iff)

lemma rebalance_wf:
  assumes "rebalanceList orgId l db = Inr (n, db')" "well_formed db"
  shows "well_formed db'"
  using assms rankSequence_spec [of "length (cards_of_list orgId l db)"]
  by (auto simp: rebalanceList_def Let_def intro: assign_ranks_wf)

lemma place_Inr:
  assumes "place orgId l i before after db = Inr (r, n, db')"
  shows "(n = None \<and> db' = db \<and>
        neighbour_rank (loadSiblings orgId l i db) before after = Inr r) \<or>
     (\<exists>e count. n = Some count \<and> neighbour_rank (loadSiblings orgId l i db) before after = Inl (InvalidRankError e) \<and>
        rebalanceList orgId l db = Inr (count, db') \<and>
        neighbour_rank (loadSiblings orgId l i db') before after = Inr r)"
  using assms by (auto simp: place_def split: sum.splits work_error.splits prod.splits)

lemma neighbour_rank_isRank: "neighbour_rank siblings before after = Inr r \<Longrightarrow> isRank r"
  by (auto simp: neighbour_rank_def rank_between_Inr dest: between_isRank)

lemma place_wf:
  "place orgId l i before after db = Inr (r, n, db') \<Longrightarrow> well_formed db \<Longrightarrow> well_formed db' \<and> isRank r"
  by (auto dest!: place_Inr dest: rebalance_wf neighbour_rank_isRank)

lemma update_card_keys_of:
  "(\<And>c. keys_of (f c) = keys_of c) \<Longrightarrow> map keys_of (cards (update_card orgId i f db)) = map keys_of (cards db)"
  by (simp add: update_card_def)

lemma assign_ranks_keys_of:
  "map keys_of (cards (assign_ranks orgId rows ranks db)) = map keys_of (cards db)"
proof (induction orgId rows ranks db rule: assign_ranks.induct)
  case (1 orgId row rows r ranks db)
  have "map keys_of (cards (update_card orgId (c_id row) (\<lambda>c. c\<lparr>c_rank := r\<rparr>) db)) = map keys_of (cards db)"
    by (rule update_card_keys_of) (simp add: keys_of_def)
  then show ?case using 1 by simp
qed simp_all

lemma place_keys_of:
  "place orgId l i before after db = Inr (r, n, db') \<Longrightarrow> map keys_of (cards db') = map keys_of (cards db)"
  by (auto dest!: place_Inr simp: rebalanceList_def Let_def assign_ranks_keys_of split: sum.splits)

definition moved_events :: "WorkActor \<Rightarrow> CardRow \<Rightarrow> ListRow \<Rightarrow> string \<Rightarrow> nat option \<Rightarrow> DomainEvent list" where
  "moved_events actor c target r n =
     createEvent (CardMoved (c_id c) (l_boardId target) (c_listId c) (l_id target) (c_rank c) r) (envelopeOf actor) #
     (case n of None \<Rightarrow> []
      | Some k \<Rightarrow> [createEvent (ListRebalanced (l_id target) (l_boardId target) k) (envelopeOf actor)])"

text \<open>What a successful move did, step by step.\<close>

lemma moveCard_Inr:
  assumes "moveCard actor i l before after now db = Inr (m, db')"
  shows "\<exists>c target n db1 db2.
    loadCard (orgOf actor) i db = Inr c \<and> enforce_card actor ''card:move'' c = Inr () \<and>
    loadList (orgOf actor) l db = Inr target \<and>
    enforceOn actor ''card:move'' (ref_to ''board'' (l_boardId target)) (l_orgId target)
      [ref_to ''project'' (l_projectId target)] = Inr () \<and>
    l_projectId target = c_projectId c \<and>
    place (orgOf actor) l i before after db = Inr (mv_rank m, n, db1) \<and>
    update_card_keys c (\<lambda>d. d\<lparr>c_listId := l, c_boardId := l_boardId target,
        c_projectId := c_projectId c, c_rank := mv_rank m, c_updatedAt := now\<rparr>) db1 = Inr db2 \<and>
    mv_listId m = l \<and> (mv_rebalanced m \<longleftrightarrow> n \<noteq> None) \<and>
    db' = append_events (moved_events actor c target (mv_rank m) n) db2"
proof -
  obtain c where c: "loadCard (orgOf actor) i db = Inr c"
    using assms by (auto simp: moveCard_def Let_def)
  obtain target where t: "loadList (orgOf actor) l db = Inr target"
    using assms by (auto simp: moveCard_def Let_def)
  have "c_id c = i" "l_id target = l" using loadCard_Inr [OF c] loadList_Inr [OF t] by simp_all
  then show ?thesis using assms c t
    by (auto simp: moveCard_def Let_def moved_events_def split: if_splits)
qed

lemma moveCard_wf:
  assumes "moveCard actor i l before after now db = Inr (m, db')" "well_formed db"
  shows "well_formed db'"
proof -
  from moveCard_Inr [OF assms(1)] obtain c target n db1 db2 where
    c: "loadCard (orgOf actor) i db = Inr c" and
    project: "l_projectId target = c_projectId c" and
    place: "place (orgOf actor) l i before after db = Inr (mv_rank m, n, db1)" and
    up: "update_card_keys c (\<lambda>d. d\<lparr>c_listId := l, c_boardId := l_boardId target,
        c_projectId := c_projectId c, c_rank := mv_rank m, c_updatedAt := now\<rparr>) db1 = Inr db2" and
    db': "db' = append_events (moved_events actor c target (mv_rank m) n) db2"
    by blast
  have keys: "keys_of d = keys_of c" if d: "d \<in> set (cards db1)" "c_id d = c_id c" for d
  proof -
    have "keys_of d \<in> set (map keys_of (cards db))" using d(1) place_keys_of [OF place] by (metis imageI set_map)
    then obtain d' where "d' \<in> set (cards db)" "keys_of d' = keys_of d" by auto
    then show ?thesis using same_id [OF assms(2)] loadCard_Inr [OF c] d(2) by (metis keys_of_same)
  qed
  have "well_formed db2"
    using up place_wf [OF place assms(2)] project
    by (elim update_card_keys_wf) (auto dest!: keys simp: keys_of_def number_key_def)
  then show ?thesis by (simp add: db')
qed

text \<open>Every service keeps the invariant, so every database reached from a fine one is fine.\<close>

lemma work_step_wf: "work_step orgId db db' \<Longrightarrow> well_formed db \<Longrightarrow> well_formed db'"
  by (induction rule: work_step.induct)
    (blast intro: createList_wf updateList_wf reorderList_wf archiveList_wf createCard_wf updateCard_wf
      setCardStatus_wf moveCard_wf assignCard_wf bulkReassign_wf archiveCard_wf)+

lemma work_steps_wf: "work_steps db db' \<Longrightarrow> well_formed db \<Longrightarrow> well_formed db'"
  by (induction rule: work_steps.induct) (blast intro: work_step_wf)+

end
