(* ===== verification/Work_Moves.thy ===== *)
theory Work_Moves
  imports Work_Invariant
begin

text \<open>
  What \<open>moveCard\<close> promises: \<open>neighbour_ranks\<close> is the interface the services rely on, the rank between two
  neighbours and a fresh sequence of ranks; a renormalization of a list is a renumbering that keeps its
  order; hence a move succeeds exactly when its neighbours are siblings in order, and puts the card
  between them.
\<close>

section \<open>The interface to the ranks\<close>

locale neighbour_ranks =
  fixes gen :: "'r::linorder option \<Rightarrow> 'r option \<Rightarrow> 'e + 'r"
    and spread :: "nat \<Rightarrow> 'f + 'r list"
    and valid :: "'r \<Rightarrow> bool"
  assumes gap: "valid b \<Longrightarrow> valid a \<Longrightarrow> b < a \<Longrightarrow> \<exists>r. gen (Some b) (Some a) = Inr r \<and> b < r \<and> r < a"
    and no_gap: "valid b \<Longrightarrow> valid a \<Longrightarrow> \<not> b < a \<Longrightarrow> \<exists>e. gen (Some b) (Some a) = Inl e"
    and above: "valid b \<Longrightarrow> \<exists>r. gen (Some b) None = Inr r \<and> b < r"
    and spread: "\<exists>rs. spread n = Inr rs \<and> length rs = n \<and> sorted_wrt (<) rs \<and> list_all valid rs"
begin

lemma gen_iff: "valid b \<Longrightarrow> valid a \<Longrightarrow> (\<exists>r. gen (Some b) (Some a) = Inr r) \<longleftrightarrow> b < a"
  using gap no_gap by (metis sum.distinct(1))

lemma gen_between: "valid b \<Longrightarrow> valid a \<Longrightarrow> gen (Some b) (Some a) = Inr r \<Longrightarrow> b < r \<and> r < a"
  using gap [of b a] no_gap [of b a] by (cases "b < a") auto

text \<open>After a fresh numbering there is room wherever two places are in order.\<close>

lemma spread_gap:
  assumes "spread n = Inr rs" "i < n" "j < n"
  shows "(\<exists>r. gen (Some (rs ! i)) (Some (rs ! j)) = Inr r) \<longleftrightarrow> i < j"
proof -
  have rs: "length rs = n" "sorted_wrt (<) rs" "list_all valid rs" using spread [of n] assms(1) by auto
  then have "rs ! i < rs ! j \<longleftrightarrow> i < j"
    using assms(2,3) sorted_wrt_nth_less [of "(<)" rs] by (metis linorder_neqE_nat order_less_asym)
  then show ?thesis using rs assms(2,3) by (simp add: gen_iff list_all_length)
qed

end

interpretation work_ranks: neighbour_ranks rank_between "\<lambda>n. rankSequence (int n)" isRank
proof (unfold_locales, goal_cases)
  case (1 b a)
  then show ?case
    using between_both_spec [of b a] by (auto simp: rank_between_def between_def requireRank_def)
next
  case (2 b a)
  then show ?case by (simp add: rank_between_def between_def requireRank_def not_less)
next
  case (3 b)
  then show ?case using between_append_spec [of b] by (auto simp: rank_between_def)
next
  case (4 n)
  then show ?case by (rule rankSequence_spec)
qed

lemma rank_between_error: "rank_between b a = Inl e \<Longrightarrow> \<exists>x. e = InvalidRankError x"
  by (auto simp: rank_between_def split: sum.splits)

lemma rank_between_open:
  "isRank a \<Longrightarrow> \<exists>r. rank_between None (Some a) = Inr r \<and> (r < a \<longleftrightarrow> a \<noteq> SMALLEST_INTEGER)"
  using between_prepend_spec [of a] by (auto simp: rank_between_def)

lemma rank_between_empty: "\<exists>r. rank_between None None = Inr r"
  by (simp add: rank_between_def between_empty)

section \<open>Renumbering\<close>

definition renumber :: "string \<Rightarrow> (string \<Rightarrow> string option) \<Rightarrow> CardRow \<Rightarrow> CardRow" where
  "renumber orgId new c =
     (if c_orgId c = orgId then (case new (c_id c) of None \<Rightarrow> c | Some r \<Rightarrow> c\<lparr>c_rank := r\<rparr>) else c)"

lemma renumber_simps [simp]:
  "c_id (renumber orgId new c) = c_id c" "c_orgId (renumber orgId new c) = c_orgId c"
  "c_listId (renumber orgId new c) = c_listId c" "c_deletedAt (renumber orgId new c) = c_deletedAt c"
  "c_archivedAt (renumber orgId new c) = c_archivedAt c"
  by (simp_all add: renumber_def split: option.splits)

lemma renumber_none: "new (c_id c) = None \<Longrightarrow> renumber orgId new c = c"
  by (simp add: renumber_def)

text \<open>The updates of a renormalization, one row after the other, are one renumbering.\<close>

lemma assign_ranks_renumber:
  assumes "length rows = length ranks" "distinct (map c_id rows)"
  shows "assign_ranks orgId rows ranks db =
    db\<lparr>cards := map (renumber orgId (map_of (zip (map c_id rows) ranks))) (cards db)\<rparr>"
  using assms
proof (induction rows ranks arbitrary: db rule: list_induct2)
  case Nil
  then show ?case by (simp add: renumber_def cong: if_cong)
next
  case (Cons row rows r ranks)
  let ?new = "map_of (zip (map c_id rows) ranks)"
  have fresh: "?new (c_id row) = None" using Cons.prems Cons.hyps
    by (auto simp: map_of_eq_None_iff dest!: set_zip_leftD)
  have "renumber orgId ?new (if c_orgId c = orgId \<and> c_id c = c_id row then c\<lparr>c_rank := r\<rparr> else c) =
      renumber orgId (?new(c_id row \<mapsto> r)) c" for c
    using fresh by (auto simp: renumber_def)
  then show ?case using Cons by (simp add: update_card_def comp_def fun_upd_def)
qed

lemma insort_key_cong:
  "(\<And>y. y \<in> set ys \<Longrightarrow> f x \<le> f y \<longleftrightarrow> g x \<le> g y) \<Longrightarrow> insort_key f x ys = insort_key g x ys"
  by (induction ys) auto

lemma sort_key_order_cong:
  "(\<And>x y. x \<in> set xs \<Longrightarrow> y \<in> set xs \<Longrightarrow> f x \<le> f y \<longleftrightarrow> g x \<le> g y) \<Longrightarrow> sort_key f xs = sort_key g xs"
proof (induction xs)
  case (Cons x xs)
  then show ?case using insort_key_cong [of "sort_key g xs" f x g] by simp
qed simp

lemma insort_key_map: "insort_key f (h x) (map h ys) = map h (insort_key (\<lambda>x. f (h x)) x ys)"
  by (induction ys) auto

lemma sort_key_map: "sort_key f (map h xs) = map h (sort_key (\<lambda>x. f (h x)) xs)"
  by (induction xs) (simp_all add: insort_key_map)

lemma sort_key_map_mono:
  assumes "\<And>x y. x \<in> set xs \<Longrightarrow> y \<in> set xs \<Longrightarrow> f (h x) \<le> f (h y) \<longleftrightarrow> f x \<le> f y"
  shows "sort_key f (map h xs) = map h (sort_key f xs)"
  unfolding sort_key_map using assms by (intro arg_cong [where f = "map h"] sort_key_order_cong) simp

abbreviation card_key :: "CardRow \<Rightarrow> ranked" where "card_key c \<equiv> Ranked (c_rank c) (c_id c)"

lemma by_rank_cards: "by_rank c_rank c_id = sort_key card_key"
  by (intro ext) (simp add: by_rank_def)

text \<open>A fresh numbering of a sorted list in place of its ranks.\<close>

lemma renumber_order:
  assumes sorted: "sorted_wrt (\<lambda>c d. card_key c < card_key d) rows" and ids: "distinct (map c_id rows)"
    and rs: "length rs = length rows" "sorted_wrt (<) rs"
    and org: "\<And>c. c \<in> set rows \<Longrightarrow> c_orgId c = orgId" and x: "x \<in> set rows" "y \<in> set rows"
  defines "g \<equiv> renumber orgId (map_of (zip (map c_id rows) rs))"
  shows "(c_rank (g x) < c_rank (g y)) = (card_key x < card_key y)" and "c_rank (g x) \<in> set rs"
proof -
  have g: "c_rank (g (rows ! i)) = rs ! i" if "i < length rows" for i
    using that rs ids org [of "rows ! i"] map_of_zip_nth [of "map c_id rows" rs i]
    by (simp add: g_def renumber_def)
  obtain i j where i: "x = rows ! i" "i < length rows" and j: "y = rows ! j" "j < length rows"
    using x by (metis in_set_conv_nth)
  have "card_key x < card_key y \<longleftrightarrow> i < j"
    using sorted_wrt_nth_less [OF sorted] i j by (metis linorder_neqE_nat order_less_asym order_less_irrefl)
  moreover have "rs ! i < rs ! j \<longleftrightarrow> i < j"
    using sorted_wrt_nth_less [OF rs(2)] rs(1) i(2) j(2)
    by (metis linorder_neqE_nat order_less_asym order_less_irrefl)
  ultimately show "(c_rank (g x) < c_rank (g y)) = (card_key x < card_key y)"
    using g [OF i(2)] g [OF j(2)] i j by simp
  show "c_rank (g x) \<in> set rs" using g [OF i(2)] i rs(1) by simp
qed

section \<open>Finding the neighbours\<close>

definition sibling :: "CardRow list \<Rightarrow> string option \<Rightarrow> CardRow option" where
  "sibling S i = (case i of None \<Rightarrow> None | Some i \<Rightarrow> find (\<lambda>c. c_id c = i) S)"

text \<open>The neighbours named are siblings, and the first comes before the second on the board.\<close>

definition neighbours_ok :: "CardRow list \<Rightarrow> string option \<Rightarrow> string option \<Rightarrow> bool" where
  "neighbours_ok S before after =
     ((before \<noteq> None \<longrightarrow> sibling S before \<noteq> None) \<and> (after \<noteq> None \<longrightarrow> sibling S after \<noteq> None) \<and>
      (case (sibling S before, sibling S after) of
         (Some b, Some a) \<Rightarrow> card_key b < card_key a | _ \<Rightarrow> True))"

text \<open>
  Where a card put between two neighbours has to end: above the first, below the second (the one
  exception is the start of a list whose first card has the smallest rank there is).
\<close>

definition lies_between :: "CardRow list \<Rightarrow> string option \<Rightarrow> string option \<Rightarrow> string \<Rightarrow> bool" where
  "lies_between S before after r =
     ((case sibling S before of None \<Rightarrow> True | Some b \<Rightarrow> c_rank b < r) \<and>
      (case sibling S after of None \<Rightarrow> True
       | Some a \<Rightarrow> r < c_rank a \<or> before = None \<and> c_rank a = SMALLEST_INTEGER))"

lemma sibling_None [simp]: "sibling S None = None" by (simp add: sibling_def)

lemma sibling_in: "sibling S i = Some c \<Longrightarrow> c \<in> set S"
  by (auto simp: sibling_def find_Some_iff split: option.splits)

lemma rankOfNeighbour_sibling:
  "rankOfNeighbour S i = (if i \<noteq> None \<and> sibling S i = None then Inl (App (notFound None))
     else Inr (map_option c_rank (sibling S i)))"
  by (cases i) (auto simp: rankOfNeighbour_def sibling_def split: option.splits)

lemma neighbour_rank_cases:
  "neighbour_rank S before after =
     (if before \<noteq> None \<and> sibling S before = None \<or> after \<noteq> None \<and> sibling S after = None
      then Inl (App (notFound None))
      else rank_between (map_option c_rank (sibling S before)) (map_option c_rank (sibling S after)))"
  by (auto simp: neighbour_rank_def rankOfNeighbour_sibling)

lemma neighbour_rank_lies:
  assumes "neighbour_rank S before after = Inr r" "\<And>c. c \<in> set S \<Longrightarrow> isRank (c_rank c)"
  shows "lies_between S before after r"
proof -
  have r: "rank_between (map_option c_rank (sibling S before)) (map_option c_rank (sibling S after)) = Inr r"
    and named: "before \<noteq> None \<longrightarrow> sibling S before \<noteq> None"
    using assms(1) by (auto simp: neighbour_rank_cases split: if_splits)
  have ok: "isRank (c_rank c)" if "sibling S i = Some c" for i c using assms(2) sibling_in [OF that] .
  show ?thesis
  proof (cases "sibling S before"; cases "sibling S after")
    fix b a assume *: "sibling S before = Some b" "sibling S after = Some a"
    then show ?thesis using r work_ranks.gen_between [OF ok [OF *(1)] ok [OF *(2)], of r]
      by (simp add: lies_between_def)
  next
    fix b assume *: "sibling S before = Some b" "sibling S after = None"
    then show ?thesis using r work_ranks.above [OF ok [OF *(1)]] by (auto simp: lies_between_def)
  next
    fix a assume *: "sibling S before = None" "sibling S after = Some a"
    then show ?thesis using r named rank_between_open [OF ok [OF *(2)]] by (auto simp: lies_between_def)
  qed (simp add: lies_between_def)
qed

text \<open>Whether a rank is found depends on the ranks of the two neighbours alone.\<close>

lemma neighbour_rank_ok_iff:
  assumes "\<And>c. c \<in> set S \<Longrightarrow> isRank (c_rank c)"
  shows "(\<exists>r. neighbour_rank S before after = Inr r) \<longleftrightarrow>
     (before \<noteq> None \<longrightarrow> sibling S before \<noteq> None) \<and> (after \<noteq> None \<longrightarrow> sibling S after \<noteq> None) \<and>
     (case (sibling S before, sibling S after) of (Some b, Some a) \<Rightarrow> c_rank b < c_rank a | _ \<Rightarrow> True)"
proof -
  have ok: "isRank (c_rank c)" if "sibling S i = Some c" for i c using assms sibling_in [OF that] .
  have "(\<exists>r. rank_between (map_option c_rank (sibling S before)) (map_option c_rank (sibling S after)) = Inr r) \<longleftrightarrow>
    (case (sibling S before, sibling S after) of (Some b, Some a) \<Rightarrow> c_rank b < c_rank a | _ \<Rightarrow> True)"
  proof (cases "sibling S before"; cases "sibling S after")
    fix b a assume "sibling S before = Some b" "sibling S after = Some a"
    then show ?thesis using ok work_ranks.gen_iff by simp
  next
    fix b assume *: "sibling S before = Some b" "sibling S after = None"
    then show ?thesis using work_ranks.above [OF ok [OF *(1)]] by auto
  next
    fix a assume *: "sibling S before = None" "sibling S after = Some a"
    then show ?thesis using rank_between_open [OF ok [OF *(2)]] by auto
  qed (simp add: rank_between_empty)
  then show ?thesis by (auto simp: neighbour_rank_cases)
qed

lemma sibling_map:
  "(\<And>c. c_id (g c) = c_id c) \<Longrightarrow> sibling (map g S) i = map_option g (sibling S i)"
proof (cases i)
  case (Some j)
  assume "\<And>c. c_id (g c) = c_id c"
  then have "find (\<lambda>c. c_id c = j) (map g S) = map_option g (find (\<lambda>c. c_id c = j) S)" by (induction S) auto
  then show ?thesis by (simp add: sibling_def Some)
qed simp

section \<open>A renormalization\<close>

lemma cards_of_list_facts:
  fixes orgId l
  assumes "well_formed db"
  defines "rows \<equiv> cards_of_list orgId l db"
  shows "distinct (map c_id rows)" "sorted_wrt (\<lambda>c d. card_key c < card_key d) rows"
    "c \<in> set rows \<longleftrightarrow> c \<in> set (cards db) \<and> c_orgId c = orgId \<and> c_deletedAt c = None \<and> c_listId c = l"
proof -
  have "mset rows = mset (filter (\<lambda>c. c_listId c = l) (cards_in orgId db))"
    by (simp add: rows_def cards_of_list_def by_rank_cards)
  moreover have "distinct (map c_id (filter (\<lambda>c. c_listId c = l) (cards_in orgId db)))"
    using assms(1) by (simp add: well_formed_def cards_in_def distinct_map_filter)
  ultimately show ids: "distinct (map c_id rows)" by (metis mset_map mset_eq_imp_distinct_iff)
  have "sorted (map card_key rows)" by (simp add: rows_def cards_of_list_def by_rank_cards)
  moreover have "distinct (map card_key rows)"
    using ids by (auto simp: distinct_map inj_on_def)
  ultimately have "sorted_wrt (<) (map card_key rows)" by (simp add: strict_sorted_iff)
  then show "sorted_wrt (\<lambda>c d. card_key c < card_key d) rows" by (simp add: sorted_wrt_map)
  show "c \<in> set rows \<longleftrightarrow> c \<in> set (cards db) \<and> c_orgId c = orgId \<and> c_deletedAt c = None \<and> c_listId c = l"
    by (auto simp: rows_def cards_of_list_def by_rank_cards cards_in_def live_card_def)
qed

text \<open>It renumbers the cards of the list, and the order of any two of them by the new ranks is their old order.\<close>

lemma rebalance_renumbers:
  assumes "rebalanceList orgId l db = Inr (n, db1)" "well_formed db"
  shows "\<exists>g. db1 = db\<lparr>cards := map g (cards db)\<rparr> \<and> (\<exists>new. g = renumber orgId new) \<and>
    (\<forall>x \<in> set (cards_of_list orgId l db). \<forall>y \<in> set (cards_of_list orgId l db).
       c_rank (g x) < c_rank (g y) \<longleftrightarrow> card_key x < card_key y)"
proof -
  let ?rows = "cards_of_list orgId l db"
  obtain rs where rs: "rankSequence (int (length ?rows)) = Inr rs" "length rs = length ?rows" "sorted_wrt (<) rs"
    using rankSequence_spec by blast
  let ?g = "renumber orgId (map_of (zip (map c_id ?rows) rs))"
  note facts = cards_of_list_facts [OF assms(2), where orgId = orgId and l = l]
  have "db1 = db\<lparr>cards := map ?g (cards db)\<rparr>"
    using assms(1) rs assign_ranks_renumber [OF rs(2) [symmetric] facts(1)] by (simp add: rebalanceList_def Let_def)
  moreover have "c_rank (?g x) < c_rank (?g y) \<longleftrightarrow> card_key x < card_key y"
    if "x \<in> set ?rows" "y \<in> set ?rows" for x y
    by (rule renumber_order(1) [OF facts(2,1) rs(2,3) _ that]) (simp add: facts(3))
  ultimately show ?thesis by blast
qed

lemma loadSiblings_in:
  "c \<in> set (loadSiblings orgId l i db) \<longleftrightarrow>
     c \<in> set (cards db) \<and> c_orgId c = orgId \<and> c_deletedAt c = None \<and> c_listId c = l \<and> c_id c \<noteq> i \<and> c_archivedAt c = None"
  by (auto simp: loadSiblings_def by_rank_cards cards_in_def live_card_def)

text \<open>The siblings read again after a renormalization are the same cards in the same order.\<close>

lemma rebalance_siblings:
  assumes "rebalanceList orgId l db = Inr (n, db1)" "well_formed db"
  shows "\<exists>g. loadSiblings orgId l i db1 = map g (loadSiblings orgId l i db) \<and> (\<forall>c. c_id (g c) = c_id c) \<and>
    (\<forall>x \<in> set (loadSiblings orgId l i db). \<forall>y \<in> set (loadSiblings orgId l i db).
       c_rank (g x) < c_rank (g y) \<longleftrightarrow> card_key x < card_key y)"
proof -
  obtain g new where db1: "db1 = db\<lparr>cards := map g (cards db)\<rparr>" and g: "g = renumber orgId new" and
    ord: "\<And>x y. x \<in> set (cards_of_list orgId l db) \<Longrightarrow> y \<in> set (cards_of_list orgId l db) \<Longrightarrow>
       c_rank (g x) < c_rank (g y) \<longleftrightarrow> card_key x < card_key y"
    using rebalance_renumbers [OF assms] by blast
  let ?P = "\<lambda>c. c_listId c = l \<and> c_id c \<noteq> i \<and> c_archivedAt c = None"
  let ?S = "filter ?P (cards_in orgId db)"
  have ordS: "c_rank (g x) < c_rank (g y) \<longleftrightarrow> card_key x < card_key y" if "x \<in> set ?S" "y \<in> set ?S" for x y
    using that by (intro ord) (auto simp: cards_of_list_facts(3) [OF assms(2)] cards_in_def live_card_def)
  have "filter ?P (cards_in orgId db1) = map g ?S"
    by (simp add: db1 cards_in_def live_card_def filter_map comp_def g)
  moreover have "sort_key card_key (map g ?S) = map g (sort_key card_key ?S)"
  proof (rule sort_key_map_mono)
    fix x y assume xy: "x \<in> set ?S" "y \<in> set ?S"
    show "card_key (g x) \<le> card_key (g y) \<longleftrightarrow> card_key x \<le> card_key y"
    proof (cases rule: linorder_cases [of "card_key x" "card_key y"])
      case equal
      then have "\<not> c_rank (g x) < c_rank (g y)" "\<not> c_rank (g y) < c_rank (g x)" "c_id x = c_id y"
        using ordS [OF xy] ordS [OF xy(2,1)] by auto
      then show ?thesis using equal by (simp add: ranked_order g)
    qed (use ordS [OF xy] ordS [OF xy(2,1)] in \<open>auto simp: ranked_order g\<close>)
  qed
  ultimately have "loadSiblings orgId l i db1 = map g (loadSiblings orgId l i db)"
    by (simp add: loadSiblings_def by_rank_cards)
  moreover have "set (loadSiblings orgId l i db) = set ?S" by (simp add: loadSiblings_def by_rank_cards)
  ultimately show ?thesis using ordS by (intro exI [of _ g]) (simp add: g)
qed

section \<open>Placing a card\<close>

lemma siblings_ranked: "well_formed db \<Longrightarrow> c \<in> set (loadSiblings orgId l i db) \<Longrightarrow> isRank (c_rank c)"
  by (simp add: loadSiblings_in card_rank_ok)

lemma place_lies:
  assumes "place orgId l i before after db = Inr (r, n, db1)" "well_formed db"
  shows "lies_between (loadSiblings orgId l i db1) before after r \<and>
    map c_id (loadSiblings orgId l i db1) = map c_id (loadSiblings orgId l i db)"
proof -
  have wf1: "well_formed db1" using place_wf [OF assms] by simp
  have "neighbour_rank (loadSiblings orgId l i db1) before after = Inr r" using place_Inr [OF assms(1)] by auto
  then have "lies_between (loadSiblings orgId l i db1) before after r"
    by (rule neighbour_rank_lies) (rule siblings_ranked [OF wf1])
  moreover have "map c_id (loadSiblings orgId l i db1) = map c_id (loadSiblings orgId l i db)"
    using place_Inr [OF assms(1)]
  proof (elim disjE exE conjE)
    fix k assume "rebalanceList orgId l db = Inr (k, db1)"
    from rebalance_siblings [OF this assms(2), of i] show ?thesis by (auto simp: comp_def)
  qed simp
  ultimately show ?thesis by simp
qed

lemma rebalance_succeeds: "\<exists>n db1. rebalanceList orgId l db = Inr (n, db1)"
  using rankSequence_spec [of "length (cards_of_list orgId l db)"] by (auto simp: rebalanceList_def Let_def)

lemma sibling_key: "sibling S i = Some c \<Longrightarrow> i = Some (c_id c)"
  by (auto simp: sibling_def find_Some_iff split: option.splits)

text \<open>The second attempt of a move, after the renormalization, looks at the order of the board alone.\<close>

lemma neighbour_rank_renumbered:
  assumes "well_formed db" "rebalanceList orgId l db = Inr (n, db1)"
  shows "(\<exists>r. neighbour_rank (loadSiblings orgId l i db1) before after = Inr r) \<longleftrightarrow>
    neighbours_ok (loadSiblings orgId l i db) before after"
proof -
  let ?S = "loadSiblings orgId l i db"
  obtain g where S1: "loadSiblings orgId l i db1 = map g ?S" and ids: "\<And>c. c_id (g c) = c_id c"
    and ord: "\<And>x y. x \<in> set ?S \<Longrightarrow> y \<in> set ?S \<Longrightarrow> c_rank (g x) < c_rank (g y) \<longleftrightarrow> card_key x < card_key y"
    using rebalance_siblings [OF assms(2,1)] by blast
  have wf1: "well_formed db1" using rebalance_wf assms by blast
  show ?thesis
    unfolding neighbour_rank_ok_iff [of "loadSiblings orgId l i db1", OF siblings_ranked [OF wf1, of _ orgId l i], simplified]
    unfolding S1 sibling_map [OF ids] neighbours_ok_def
    using ord [OF sibling_in sibling_in] by (auto split: option.splits)
qed

lemma place_ok_iff:
  assumes "well_formed db"
  shows "(\<exists>r n db1. place orgId l i before after db = Inr (r, n, db1)) \<longleftrightarrow>
    neighbours_ok (loadSiblings orgId l i db) before after"
proof -
  let ?S = "loadSiblings orgId l i db"
  obtain n db1 where reb: "rebalanceList orgId l db = Inr (n, db1)" using rebalance_succeeds by blast
  note second = neighbour_rank_renumbered [OF assms reb]
  note first = neighbour_rank_ok_iff [of ?S before after, OF siblings_ranked [OF assms, of _ orgId l i]]
  show ?thesis
  proof (cases "neighbour_rank ?S before after")
    case (Inr r)
    then have "neighbours_ok ?S before after"
      using first by (auto simp: neighbours_ok_def ranked_order split: option.splits)
    then show ?thesis using Inr by (simp add: place_def)
  next
    case (Inl e)
    show ?thesis
    proof (cases "before \<noteq> None \<and> sibling ?S before = None \<or> after \<noteq> None \<and> sibling ?S after = None")
      case True
      then show ?thesis by (auto simp: place_def neighbour_rank_cases neighbours_ok_def)
    next
      case False
      then obtain x where "e = InvalidRankError x"
        using Inl rank_between_error by (auto simp: neighbour_rank_cases split: if_splits)
      then show ?thesis using second by (auto simp: place_def Inl reb)
    qed
  qed
qed

section \<open>A move\<close>

lemma enforceOn_Inr:
  "enforceOn actor permission res row_org ancestors = Inr () \<longleftrightarrow>
     dec_allowed (can (subject actor) permission (Some (target_of res row_org ancestors)))"
  by (auto simp: enforceOn_def enforce_def Let_def split: sum.splits)

text \<open>The actor may move the card, and may move cards on the board of the target list.\<close>

definition may_move :: "WorkActor \<Rightarrow> CardRow \<Rightarrow> ListRow \<Rightarrow> bool" where
  "may_move actor c target =
     (dec_allowed (can (subject actor) ''card:move'' (Some (target_of (ref_to ''card'' (c_id c)) (c_orgId c)
        (ancestorsOfCard (c_boardId c) (c_projectId c))))) \<and>
      dec_allowed (can (subject actor) ''card:move'' (Some (target_of (ref_to ''board'' (l_boardId target))
        (l_orgId target) [ref_to ''project'' (l_projectId target)]))))"

lemma place_same_tables:
  "place orgId l i before after db = Inr (r, n, db1) \<Longrightarrow> lists db1 = lists db \<and> statuses db1 = statuses db"
proof -
  have "lists (assign_ranks orgId rows ranks db) = lists db \<and>
      statuses (assign_ranks orgId rows ranks db) = statuses db" for rows ranks db
    by (induction orgId rows ranks db rule: assign_ranks.induct) simp_all
  then show "place orgId l i before after db = Inr (r, n, db1) \<Longrightarrow> ?thesis"
    by (auto dest!: place_Inr simp: rebalanceList_def Let_def split: sum.splits)
qed

lemma move_keys_ok:
  assumes "well_formed db" "c \<in> set (cards db)" "target \<in> set (lists db)"
    and "l_id target = l" "l_orgId target = c_orgId c" "l_projectId target = c_projectId c"
    and "place orgId l i before after db = Inr (r, n, db1)"
  shows "\<exists>db2. update_card_keys c (\<lambda>d. d\<lparr>c_listId := l, c_boardId := l_boardId target,
        c_projectId := c_projectId c, c_rank := r, c_updatedAt := now\<rparr>) db1 = Inr db2"
proof -
  have "status_key_ok db c" using assms(1,2) by (simp add: well_formed_def list_all_iff card_ok_def)
  moreover have "\<exists>l' \<in> set (lists db). l_orgId l' = c_orgId c \<and> l_projectId l' = c_projectId c \<and>
      l_boardId l' = l_boardId target \<and> l_id l' = l"
    using assms(3-6) by blast
  ultimately show ?thesis using place_same_tables [OF assms(7)]
    by (simp add: update_card_keys_def list_key_ok_def status_key_ok_def list_ex_iff cong: option.case_cong)
qed

lemma moveCard_ok_iff:
  assumes wf: "well_formed db"
  shows "(\<exists>m db'. moveCard actor i l before after now db = Inr (m, db')) \<longleftrightarrow>
    (\<exists>c target. loadCard (orgOf actor) i db = Inr c \<and> loadList (orgOf actor) l db = Inr target \<and>
       may_move actor c target \<and> l_projectId target = c_projectId c \<and>
       neighbours_ok (loadSiblings (orgOf actor) l i db) before after)" (is "?ok \<longleftrightarrow> ?conds")
proof
  assume ?ok
  then obtain m db' where "moveCard actor i l before after now db = Inr (m, db')" by blast
  from moveCard_Inr [OF this] obtain c target n db1 where
    "loadCard (orgOf actor) i db = Inr c" "enforce_card actor ''card:move'' c = Inr ()"
    "loadList (orgOf actor) l db = Inr target"
    "enforceOn actor ''card:move'' (ref_to ''board'' (l_boardId target)) (l_orgId target)
      [ref_to ''project'' (l_projectId target)] = Inr ()"
    "l_projectId target = c_projectId c" and
    pl: "place (orgOf actor) l i before after db = Inr (mv_rank m, n, db1)"
    by blast
  moreover have "neighbours_ok (loadSiblings (orgOf actor) l i db) before after"
    using place_ok_iff [OF wf] pl by blast
  ultimately show ?conds by (auto simp: may_move_def enforce_card_def enforceOn_Inr)
next
  assume ?conds
  then obtain c target where c: "loadCard (orgOf actor) i db = Inr c" and
    t: "loadList (orgOf actor) l db = Inr target" and may: "may_move actor c target" and
    p: "l_projectId target = c_projectId c" and
    ok: "neighbours_ok (loadSiblings (orgOf actor) l i db) before after" by blast
  obtain r n db1 where pl: "place (orgOf actor) l i before after db = Inr (r, n, db1)"
    using place_ok_iff [OF wf] ok by blast
  obtain db2 where "update_card_keys c (\<lambda>d. d\<lparr>c_listId := l, c_boardId := l_boardId target,
        c_projectId := c_projectId c, c_rank := r, c_updatedAt := now\<rparr>) db1 = Inr db2"
    using move_keys_ok [OF wf _ _ _ _ p pl] loadCard_Inr [OF c] loadList_Inr [OF t] by fastforce
  then show ?ok using c t may p pl
    by (simp add: moveCard_def Let_def may_move_def enforce_card_def enforceOn_Inr)
qed

text \<open>Where the card is after a successful move, and where the others are.\<close>

lemma moveCard_places:
  assumes "moveCard actor i l before after now db = Inr (m, db')" "well_formed db"
  shows "\<exists>c \<in> set (cards db'). c_id c = i \<and> c_orgId c = orgOf actor \<and> c_listId c = l \<and> c_rank c = mv_rank m"
    and "lies_between (loadSiblings (orgOf actor) l i db') before after (mv_rank m)"
    and "map c_id (loadSiblings (orgOf actor) l i db') = map c_id (loadSiblings (orgOf actor) l i db)"
proof -
  from moveCard_Inr [OF assms(1)] obtain c target n db1 db2 where
    c: "loadCard (orgOf actor) i db = Inr c" and
    pl: "place (orgOf actor) l i before after db = Inr (mv_rank m, n, db1)" and
    up: "update_card_keys c (\<lambda>d. d\<lparr>c_listId := l, c_boardId := l_boardId target,
        c_projectId := c_projectId c, c_rank := mv_rank m, c_updatedAt := now\<rparr>) db1 = Inr db2" and
    db': "db' = append_events (moved_events actor c target (mv_rank m) n) db2"
    by blast
  let ?f = "\<lambda>d. d\<lparr>c_listId := l, c_boardId := l_boardId target,
        c_projectId := c_projectId c, c_rank := mv_rank m, c_updatedAt := now\<rparr>"
  have cards: "cards db' = map (\<lambda>d. if c_orgId d = orgOf actor \<and> c_id d = i then ?f d else d) (cards db1)"
    using up loadCard_Inr [OF c] by (auto simp: db' update_card_keys_def update_card_def split: if_splits)
  have "keys_of c \<in> set (map keys_of (cards db1))"
    using place_keys_of [OF pl] loadCard_Inr [OF c] by (metis imageI set_map)
  then obtain d where d: "d \<in> set (cards db1)" "c_id d = i" "c_orgId d = orgOf actor"
    using loadCard_Inr [OF c] by (auto simp: keys_of_def)
  then show "\<exists>c \<in> set (cards db'). c_id c = i \<and> c_orgId c = orgOf actor \<and> c_listId c = l \<and> c_rank c = mv_rank m"
    by (intro bexI [of _ "?f d"]) (auto simp: cards)
  have "loadSiblings (orgOf actor) l i db' = loadSiblings (orgOf actor) l i db1"
  proof -
    have "filter P (map g xs) = filter P xs" if "\<And>x. g x = x \<or> \<not> P x \<and> \<not> P (g x)"
      for P and g :: "CardRow \<Rightarrow> CardRow" and xs
      using that by (induction xs) (simp, metis filter.simps(2) list.simps(9))
    then show ?thesis by (simp add: loadSiblings_def cards_in_def cards live_card_def)
  qed
  then show "lies_between (loadSiblings (orgOf actor) l i db') before after (mv_rank m)"
    "map c_id (loadSiblings (orgOf actor) l i db') = map c_id (loadSiblings (orgOf actor) l i db)"
    using place_lies [OF pl assms(2)] by simp_all
qed

end
