(* ===== verification/Work_Correct.thy ===== *)
theory Work_Correct
  imports Work_Moves Policy_Correct
begin

text \<open>
  The properties of the Work module, and a small organization to apply them to: one project with one
  board and an owner.
\<close>

section \<open>An organization\<close>

definition alice :: WorkActor where
  "alice = \<lparr>subject = person ''owner'' [], requestId = ''r1'', causationDepth = None\<rparr>"

definition demo :: database where
  "demo = \<lparr>cards = [], lists = [],
     boards = [\<lparr>b_id = ''b1'', b_orgId = ''acme'', b_projectId = ''p1'', b_deletedAt = None\<rparr>],
     projects = [\<lparr>p_id = ''p1'', p_orgId = ''acme'', p_key = ''TF'', p_nextCardNumber = 1\<rparr>],
     statuses = [\<lparr>s_id = ''s1'', s_orgId = ''acme'', s_projectId = ''p1'', s_isDefault = True\<rparr>],
     memberships = [], outbox = []\<rparr>"

lemma demo_wf: "well_formed demo"
  by (simp add: demo_def well_formed_def)

text \<open>The database after a service, whatever its result.\<close>

definition db_after :: "(work_error, 'a \<times> database) result \<Rightarrow> database" where
  "db_after r = (case r of Inr (x, db) \<Rightarrow> db | Inl e \<Rightarrow> demo)"

definition add_list :: "string \<Rightarrow> database \<Rightarrow> database" where
  "add_list i db = db_after (createList alice ''b1'' i None i 0 db)"




text \<open>The same with cards on one list: \<open>k3\<close> and \<open>k4\<close> are both dropped between \<open>k1\<close> and \<open>k2\<close>.\<close>

definition add_card :: "string \<Rightarrow> database \<Rightarrow> database" where
  "add_card i db = db_after (createCard alice ''l1'' i None i 0 db)"

definition move_card :: "string \<Rightarrow> string \<Rightarrow> string \<Rightarrow> database \<Rightarrow> database" where
  "move_card i before after db = db_after (moveCard alice i ''l1'' (Some before) (Some after) 0 db)"

definition four_cards :: database where
  "four_cards = add_card ''k4'' (add_card ''k3'' (add_card ''k2'' (add_card ''k1'' (add_list ''l1'' demo))))"

definition equal_ranks :: database where
  "equal_ranks = move_card ''k4'' ''k1'' ''k2'' (move_card ''k3'' ''k1'' ''k2'' four_cards)"

lemma orgOf_alice: "orgOf alice = ''acme''"
  by (simp add: orgOf_def alice_def person_def)

lemma db_after_step:
  "\<not> isl r \<Longrightarrow> \<exists>x. r = Inr (x, db_after r)"
  by (cases r) (auto simp: db_after_def)

lemma add_list_step:
  assumes "work_steps demo db" "\<not> isl (createList alice ''b1'' i None i 0 db)"
  shows "work_steps demo (add_list i db)"
  using db_after_step [OF assms(2)] work_steps.step [OF assms(1)] work_step.createList
  unfolding add_list_def by metis


lemma add_card_step:
  assumes "work_steps demo db" "\<not> isl (createCard alice ''l1'' i None i 0 db)"
  shows "work_steps demo (add_card i db)"
proof -
  obtain x where "createCard alice ''l1'' i None i 0 db = Inr (x, add_card i db)"
    using db_after_step [OF assms(2)] unfolding add_card_def by blast
  then show ?thesis using work_steps.step [OF assms(1)] work_step.createCard by (cases x) blast
qed

lemma move_card_step:
  assumes "work_steps demo db" "\<not> isl (moveCard alice i ''l1'' (Some before) (Some after) 0 db)"
  shows "work_steps demo (move_card i before after db)"
  using db_after_step [OF assms(2)] work_steps.step [OF assms(1)] work_step.moveCard
  unfolding move_card_def by metis


lemma equal_ranks_reached: "work_steps demo equal_ranks"
  unfolding equal_ranks_def four_cards_def
  by (intro move_card_step add_card_step add_list_step work_steps.none; code_simp)

section \<open>The tables of the other organizations\<close>

definition foreign :: "string \<Rightarrow> database \<Rightarrow>
    CardRow list \<times> ListRow list \<times> ProjectRow list \<times> BoardRow list \<times> StatusRow list \<times> MembershipRow list" where
  "foreign orgId db =
     (filter (\<lambda>c. c_orgId c \<noteq> orgId) (cards db), filter (\<lambda>l. l_orgId l \<noteq> orgId) (lists db),
      filter (\<lambda>p. p_orgId p \<noteq> orgId) (projects db), boards db, statuses db, memberships db)"

text \<open>
  What a service may do: its own organization's rows, events in its organization's name, and no change
  without an event.
\<close>

definition confined :: "string \<Rightarrow> database \<Rightarrow> database \<Rightarrow> bool" where
  "confined orgId db db' \<longleftrightarrow> foreign orgId db' = foreign orgId db \<and>
     (\<exists>es. outbox db' = outbox db @ es \<and> (\<forall>e \<in> set es. env_orgId (ev_envelope e) = orgId) \<and>
        (es = [] \<longrightarrow> db' = db))"

lemma confined_refl: "confined orgId db db"
  by (simp add: confined_def)

lemma confinedI:
  assumes "foreign orgId db1 = foreign orgId db" "outbox db1 = outbox db"
    and "es \<noteq> []" "\<And>e. e \<in> set es \<Longrightarrow> env_orgId (ev_envelope e) = orgId"
  shows "confined orgId db (append_events es db1)"
  using assms by (auto simp: confined_def foreign_def append_events_def)

lemma foreign_append_events [simp]: "foreign orgId (append_events es db) = foreign orgId db"
  by (simp add: foreign_def append_events_def)

lemma filter_map_same:
  "(\<And>x. x \<in> set xs \<Longrightarrow> g x = x \<or> \<not> P x \<and> \<not> P (g x)) \<Longrightarrow> filter P (map g xs) = filter P xs"
proof (induction xs)
  case (Cons x xs)
  have "g x = x \<or> \<not> P x \<and> \<not> P (g x)" using Cons.prems by simp
  moreover have "filter P (map g xs) = filter P xs" using Cons by simp
  ultimately show ?case by auto
qed simp

lemma foreign_update_card [simp]:
  "(\<And>c. c_orgId (f c) = c_orgId c) \<Longrightarrow> foreign orgId (update_card orgId i f db) = foreign orgId db"
  by (auto simp: foreign_def update_card_def intro!: filter_map_same split: if_splits)

lemma foreign_update_list [simp]:
  "(\<And>l. l_orgId (f l) = l_orgId l) \<Longrightarrow> foreign orgId (update_list orgId i f db) = foreign orgId db"
  by (auto simp: foreign_def update_list_def intro!: filter_map_same split: if_splits)

lemma foreign_assign_ranks [simp]: "foreign orgId (assign_ranks orgId rows ranks db) = foreign orgId db"
  by (induction orgId rows ranks db rule: assign_ranks.induct) simp_all

lemma outbox_assign_ranks [simp]: "outbox (assign_ranks orgId rows ranks db) = outbox db"
  by (induction orgId rows ranks db rule: assign_ranks.induct) simp_all

lemma env_of_event [simp]: "env_orgId (ev_envelope (createEvent p (envelopeOf actor))) = orgOf actor"
  by (simp add: createEvent_def envelopeOf_def orgOf_def)

lemma place_confined:
  "place orgId l i before after db = Inr (r, n, db1) \<Longrightarrow>
   foreign orgId db1 = foreign orgId db \<and> outbox db1 = outbox db"
  by (auto dest!: place_Inr simp: rebalanceList_def Let_def split: sum.splits)

lemma next_number_confined:
  "next_number orgId pid db = Some (p, db1) \<Longrightarrow> foreign orgId db1 = foreign orgId db \<and> outbox db1 = outbox db"
  by (auto simp: next_number_def Let_def foreign_def split: list.splits if_splits intro!: filter_map_same)

lemma moveCard_confined:
  assumes "moveCard actor i l before after now db = Inr (m, db')"
  shows "confined (orgOf actor) db db'"
proof -
  from moveCard_Inr [OF assms] obtain c target n db1 db2 where
    c: "loadCard (orgOf actor) i db = Inr c" and
    pl: "place (orgOf actor) l i before after db = Inr (mv_rank m, n, db1)" and
    up: "update_card_keys c (\<lambda>d. d\<lparr>c_listId := l, c_boardId := l_boardId target,
        c_projectId := c_projectId c, c_rank := mv_rank m, c_updatedAt := now\<rparr>) db1 = Inr db2" and
    db': "db' = append_events (moved_events actor c target (mv_rank m) n) db2"
    by blast
  have "foreign (orgOf actor) db2 = foreign (orgOf actor) db" "outbox db2 = outbox db"
    using up place_confined [OF pl] loadCard_Inr [OF c] by (auto simp: update_card_keys_def split: if_splits)
  then show ?thesis unfolding db'
    by (rule confinedI) (auto simp: moved_events_def split: option.splits)
qed

lemma numbered_insert_confined:
  "next_number orgId pid db = Some (p, db1) \<Longrightarrow> insert_card c db1 = Inr db2 \<Longrightarrow> c_orgId c = orgId \<Longrightarrow>
   e \<noteq> [] \<Longrightarrow> (\<And>x. x \<in> set e \<Longrightarrow> env_orgId (ev_envelope x) = orgId) \<Longrightarrow> confined orgId db (append_events e db2)"
  by (drule next_number_confined, rule confinedI) (auto simp: insert_card_Inr foreign_def)

lemma createCard_confined:
  "createCard actor l title desc i now db = Inr (x, db') \<Longrightarrow> confined (orgOf actor) db db'"
  by (auto simp: createCard_def Let_def) (erule (1) numbered_insert_confined; simp)

lemma reassign_loop_confined:
  "reassign_loop actor from to now ids db = (done, failed, db') \<Longrightarrow>
   foreign (orgOf actor) db' = foreign (orgOf actor) db \<and> outbox db' = outbox db \<and> (done = [] \<longrightarrow> db' = db)"
proof (induction ids arbitrary: db "done" failed db')
  case (Cons i ids)
  then show ?case
    by (cases "reassign_one actor from to now i db")
      (auto simp: reassign_one_def Let_def split: prod.splits)
qed simp

lemma bulk_confined:
  "bulkReassignCards actor from to now db = Inr (x, db') \<Longrightarrow> confined (orgOf actor) db db'"
  by (auto simp: bulkReassignCards_def Let_def confined_refl split: if_splits prod.splits
      dest!: reassign_loop_confined intro!: confinedI)

lemma work_step_confined: "work_step orgId db db' \<Longrightarrow> confined orgId db db'"
proof (induction rule: work_step.induct)
  case (createList actor b name wip i now db r db')
  then show ?case
    by (auto simp: createList_def Let_def foreign_def split: if_splits intro!: confinedI)
next
  case (updateList actor i name wip now db s db')
  then show ?case by (auto simp: updateList_def intro!: confinedI)
next
  case (reorderList actor i before after now db s db')
  then show ?case by (auto simp: reorderList_def Let_def intro!: confinedI)
next
  case (archiveList actor i archived now db a db')
  then show ?case by (auto simp: archiveList_def split: if_splits intro!: confinedI)
next
  case (createCard actor l title desc i now db x db')
  then show ?case by (rule createCard_confined)
next
  case (updateCard actor i v title desc due start prio now db n db')
  then show ?case by (auto simp: updateCard_def Let_def split: if_splits intro!: confinedI)
next
  case (setCardStatus actor i st now db s db')
  then show ?case
    by (auto simp: setCardStatus_def update_card_keys_def confined_refl split: if_splits
        dest!: loadCard_Inr intro!: confinedI)
next
  case (moveCard actor i l before after now db m db')
  then show ?case by (rule moveCard_confined)
next
  case (assignCard actor i ids now db as db')
  then show ?case by (auto simp: assignCard_def Let_def split: if_splits intro!: confinedI)
next
  case (bulkReassign actor "from" to now db x db')
  then show ?case by (rule bulk_confined)
next
  case (archiveCard actor i archived now db a db')
  then show ?case by (auto simp: archiveCard_def intro!: confinedI)
qed

section \<open>The order of the lists\<close>



section \<open>Properties\<close>

text \<open>C20: whatever the services of the module do, in any order and for any actor, the tables stay
  well formed: ids and card numbers are unique, every rank is a rank, every card lies under its list's
  board and project, has a status of its project, and a number the project counter has passed.\<close>

theorem work_invariant:
  assumes "work_steps db db'" "well_formed db"
  shows "well_formed db'"
  using assms by (rule work_steps_wf)

theorem work_invariant_witness: "work_steps demo equal_ranks \<and> well_formed equal_ranks"
  using equal_ranks_reached work_invariant [OF equal_ranks_reached demo_wf] by blast

text \<open>C19: after a successful \<open>moveCard\<close> the card is in the target list with the rank it reports, that
  rank lies between the ranks of the two neighbours named, and the other cards of the list keep their
  order, also when the list had to be renormalized.\<close>

theorem moveCard_between:
  assumes "moveCard actor i l before after now db = Inr (m, db')" "well_formed db"
  shows "(\<exists>c \<in> set (cards db'). c_id c = i \<and> c_orgId c = orgOf actor \<and> c_listId c = l \<and> c_rank c = mv_rank m) \<and>
    lies_between (loadSiblings (orgOf actor) l i db') before after (mv_rank m) \<and>
    map c_id (loadSiblings (orgOf actor) l i db') = map c_id (loadSiblings (orgOf actor) l i db)"
  using moveCard_places [OF assms] by blast

text \<open>\<open>k2\<close> moves between the two cards of equal rank, after a renormalization.\<close>

theorem moveCard_between_witness:
  "\<exists>m db'. moveCard alice ''k2'' ''l1'' (Some ''k3'') (Some ''k4'') 0 equal_ranks = Inr (m, db') \<and> mv_rebalanced m \<and>
     map c_id (loadSiblings ''acme'' ''l1'' ''k2'' db') = map c_id (loadSiblings ''acme'' ''l1'' ''k2'' equal_ranks)"
proof -
  have "case moveCard alice ''k2'' ''l1'' (Some ''k3'') (Some ''k4'') 0 equal_ranks of
      Inl _ \<Rightarrow> False | Inr (m, db') \<Rightarrow> mv_rebalanced m" by code_simp
  then obtain m db' where "moveCard alice ''k2'' ''l1'' (Some ''k3'') (Some ''k4'') 0 equal_ranks = Inr (m, db')"
    "mv_rebalanced m" by (auto split: sum.splits)
  then show ?thesis
    using moveCard_between [OF _ work_steps_wf [OF equal_ranks_reached demo_wf]] orgOf_alice by metis
qed

text \<open>C18: in a well-formed database a move succeeds exactly when the card and the list exist for the
  actor, who may move the card and may move cards on the target board, both lie in one project, and
  the neighbours named are live cards of the list in board order; ranks that leave no gap between them
  never stop it.\<close>

theorem moveCard_succeeds_iff:
  assumes "well_formed db"
  shows "(\<exists>m db'. moveCard actor i l before after now db = Inr (m, db')) \<longleftrightarrow>
    (\<exists>c target. loadCard (orgOf actor) i db = Inr c \<and> loadList (orgOf actor) l db = Inr target \<and>
       may_move actor c target \<and> l_projectId target = c_projectId c \<and>
       neighbours_ok (loadSiblings (orgOf actor) l i db) before after)"
  using assms by (rule moveCard_ok_iff)

theorem moveCard_succeeds_iff_witness:
  "\<exists>c target. loadCard ''acme'' ''k2'' equal_ranks = Inr c \<and> loadList ''acme'' ''l1'' equal_ranks = Inr target \<and>
     may_move alice c target \<and>
     neighbours_ok (loadSiblings ''acme'' ''l1'' ''k2'' equal_ranks) (Some ''k3'') (Some ''k4'')"
proof -
  have "\<not> isl (moveCard alice ''k2'' ''l1'' (Some ''k3'') (Some ''k4'') 0 equal_ranks)" by code_simp
  then obtain m db' where "moveCard alice ''k2'' ''l1'' (Some ''k3'') (Some ''k4'') 0 equal_ranks = Inr (m, db')"
    using db_after_step by blast
  then show ?thesis
    using moveCard_succeeds_iff [OF work_steps_wf [OF equal_ranks_reached demo_wf],
      of alice "''k2''" "''l1''" "Some ''k3''" "Some ''k4''" 0] orgOf_alice by metis
qed

text \<open>C21: a service run by a member of one organization changes no row of another one, appends only
  events in its own organization's name, and changes nothing without an event.\<close>

theorem work_confined:
  assumes "work_step orgId db db'"
  shows "foreign orgId db' = foreign orgId db \<and>
    (\<exists>es. outbox db' = outbox db @ es \<and> (\<forall>e \<in> set es. env_orgId (ev_envelope e) = orgId) \<and>
       (es = [] \<longrightarrow> db' = db))"
  using work_step_confined [OF assms] by (simp add: confined_def)

theorem work_confined_witness:
  "\<exists>r db'. createList alice ''b1'' ''Doing'' None ''l1'' 0 demo = Inr (r, db') \<and> foreign ''acme'' db' = foreign ''acme'' demo"
proof -
  have "\<not> isl (createList alice ''b1'' ''Doing'' None ''l1'' 0 demo)" by code_simp
  then obtain r db' where *: "createList alice ''b1'' ''Doing'' None ''l1'' 0 demo = Inr (r, db')"
    using db_after_step by blast
  show ?thesis using * work_confined [OF work_step.createList [OF *]] unfolding orgOf_alice by blast
qed


end
