(* ===== verification/Tenancy_Data.thy ===== *)
theory Tenancy_Data
  imports Work_Lists Validate
begin

text \<open>
  The tables that decide who may do what: organizations, memberships, teams, relationship tuples and
  member grants (\<open>packages/db/src/schema/tenancy.ts\<close>), the channels and calls the realtime gateway opens
  rooms for, and the outbox as its consumers read it; and the ids of \<open>packages/contracts/src/ids.ts\<close>.
  The boards are those of the Work database.
\<close>

section \<open>Ids\<close>

definition isValidId :: "string \<Rightarrow> bool" where
  "isValidId value = pattern_match UUID value"

text \<open>\<open>safeParse\<close> of an id schema: the pattern ignores case, the id is in lower case.\<close>

definition idSchema :: "string \<Rightarrow> string option" where
  "idSchema value = (if isValidId value then Some (to_lower value) else None)"

section \<open>Rows\<close>

record UserRow =
  u_id :: string
  u_email :: string
  u_emailNormalized :: string

record OrgRow =
  o_id :: string
  o_status :: string

record MemberRow =
  mb_id :: string
  mb_orgId :: string
  mb_userId :: string
  mb_role :: string
  mb_status :: string
  mb_updatedAt :: int

record TeamRow =
  t_id :: string
  t_orgId :: string
  t_name :: string
  t_slug :: string

record TeamMemberRow =
  tm_orgId :: string
  tm_teamId :: string
  tm_userId :: string

record TupleRow =
  tp_id :: string
  tp_orgId :: string
  tp_subjectType :: string
  tp_subjectId :: string
  tp_relation :: string
  tp_objectType :: string
  tp_objectId :: string
  tp_grantedBy :: string
  tp_expiresAt :: "int option"
  tp_isGuest :: bool

record MemberGrantRow =
  mg_id :: string
  mg_orgId :: string
  mg_membershipId :: string
  mg_permission :: string
  mg_revokedAt :: "int option"

record ChannelRow =
  ch_id :: string
  ch_orgId :: string
  ch_type :: string

text \<open>A phone call, as far as its room needs it.\<close>

record CallRow =
  call_id :: string
  call_orgId :: string

record SessionRow =
  rs_id :: string
  rs_orgId :: string
  rs_channelId :: string
  rs_status :: string
  rs_joinedCount :: int
  rs_startedAt :: "int option"
  rs_endedAt :: "int option"
  rs_endReason :: "string option"

record ParticipantRow =
  rp_sessionId :: string
  rp_orgId :: string
  rp_userId :: string
  rp_state :: string
  rp_leftAt :: "int option"

text \<open>An outbox row as its consumers read it; the columns no consumer here looks at are left out.\<close>

record OutboxRow =
  ob_id :: string
  ob_orgId :: string
  ob_name :: string
  ob_version :: int
  ob_actorId :: "string option"
  ob_requestId :: "string option"
  ob_occurredAt :: int
  ob_causationDepth :: nat
  ob_payload :: json

record tenancy =
  users :: "UserRow list"
  orgs :: "OrgRow list"
  members :: "MemberRow list"
  teams :: "TeamRow list"
  teamMembers :: "TeamMemberRow list"
  tuples :: "TupleRow list"
  memberGrants :: "MemberGrantRow list"
  channels :: "ChannelRow list"
  calls :: "CallRow list"
  sessions :: "SessionRow list"
  participants :: "ParticipantRow list"
  events :: "OutboxRow list"
  work :: database

record Actor =
  act_userId :: string
  act_requestId :: string

text \<open>
  \<open>createEvent\<close> in the context of an organization and an actor. \<open>drawn\<close> is what a service draws: the ids of
  its events, in order, and the time. The context of the tenancy services has no causation depth, for which
  the writer stores 0.
\<close>

type_synonym drawn = "(nat \<Rightarrow> string) \<times> int"

definition event_row :: "string \<Rightarrow> Actor \<Rightarrow> drawn \<Rightarrow> string \<Rightarrow> (string \<times> json) list \<Rightarrow> OutboxRow" where
  "event_row orgId actor drawn name payload =
     \<lparr>ob_id = [], ob_orgId = orgId, ob_name = name, ob_version = 1,
      ob_actorId = Some (act_userId actor), ob_requestId = Some (act_requestId actor),
      ob_occurredAt = snd drawn, ob_causationDepth = 0, ob_payload = JObj payload\<rparr>"

definition append_rows :: "drawn \<Rightarrow> OutboxRow list \<Rightarrow> tenancy \<Rightarrow> tenancy" where
  "append_rows drawn rows t =
     t\<lparr>events := events t @ map2 (\<lambda>k row. row\<lparr>ob_id := fst drawn k\<rparr>) [0..<length rows] rows\<rparr>"

section \<open>Resolving a membership\<close>

text \<open>\<open>apps/api/src/tenancy/resolve.ts\<close>.\<close>

record OrgMembership =
  om_orgId :: string
  om_role :: string
  om_tuples :: "RelationshipTuple list"
  om_memberGrants :: "string list"

definition relation_of_name :: "string \<Rightarrow> relation option" where
  "relation_of_name name = find (\<lambda>r. relation_name r = name) RELATIONS"

definition team_ids :: "string \<Rightarrow> string \<Rightarrow> tenancy \<Rightarrow> string list" where
  "team_ids orgId userId t =
     map tm_teamId (filter (\<lambda>m. tm_orgId m = orgId \<and> tm_userId m = userId) (teamMembers t))"

definition subject_match :: "string \<Rightarrow> string list \<Rightarrow> TupleRow \<Rightarrow> bool" where
  "subject_match userId teamIds p =
     (tp_subjectType p = ''user'' \<and> tp_subjectId p = userId \<or>
      tp_subjectType p = ''team'' \<and> tp_subjectId p \<in> set teamIds)"

definition unexpired :: "int \<Rightarrow> TupleRow \<Rightarrow> bool" where
  "unexpired now p = (case tp_expiresAt p of None \<Rightarrow> True | Some e \<Rightarrow> e > now)"

definition loadTuples :: "string \<Rightarrow> string \<Rightarrow> int \<Rightarrow> tenancy \<Rightarrow> RelationshipTuple list" where
  "loadTuples orgId userId now t =
     (let rows = filter (\<lambda>p. tp_orgId p = orgId \<and> subject_match userId (team_ids orgId userId t) p \<and>
                          unexpired now p) (tuples t)
      in List.map_filter (\<lambda>p. map_option (\<lambda>r. \<lparr>tup_subject = userId, tup_relation = r,
             tup_object = ref_to (tp_objectType p) (tp_objectId p)\<rparr>) (relation_of_name (tp_relation p))) rows)"

definition loadMemberGrants :: "string \<Rightarrow> string \<Rightarrow> tenancy \<Rightarrow> string list" where
  "loadMemberGrants orgId membershipId t =
     filter isPermission (map mg_permission
       (filter (\<lambda>g. mg_orgId g = orgId \<and> mg_membershipId g = membershipId \<and> mg_revokedAt g = None)
         (memberGrants t)))"

definition resolveOrgMembership ::
  "string \<Rightarrow> string \<Rightarrow> int \<Rightarrow> tenancy \<Rightarrow> (AppError, OrgMembership option) result" where
  "resolveOrgMembership userId requestedOrgId now t =
     (case idSchema requestedOrgId of
        None \<Rightarrow> Return None
      | Some orgId \<Rightarrow>
          (case filter (\<lambda>m. mb_orgId m = orgId \<and> mb_userId m = userId) (members t) of
             [] \<Rightarrow> Return None
           | membership # _ \<Rightarrow>
               if mb_status membership \<noteq> ''active'' then Throw (membershipSuspended None)
               else if \<not> isRole (mb_role membership) then Return None
               else
                 (let status = map_option o_status (find (\<lambda>o'. o_id o' = orgId) (orgs t)) in
                  if status = Some ''suspended'' then Throw (orgSuspended None)
                  else if status = Some ''deleted'' then Return None
                  else Return (Some
                    \<lparr>om_orgId = orgId, om_role = mb_role membership, om_tuples = loadTuples orgId userId now t,
                     om_memberGrants = loadMemberGrants orgId (mb_id membership) t\<rparr>))))"

section \<open>Channels and calls\<close>

text \<open>\<open>loadChannel\<close>, \<open>isClosedChannel\<close>, \<open>channelTarget\<close> of \<open>chat/shared.ts\<close>, \<open>loadSession\<close> of \<open>rtc/shared.ts\<close>.\<close>

definition loadChannel :: "string \<Rightarrow> string \<Rightarrow> tenancy \<Rightarrow> (AppError, ChannelRow) result" where
  "loadChannel orgId channelId t =
     (case filter (\<lambda>c. ch_orgId c = orgId \<and> ch_id c = channelId) (channels t) of
        [] \<Rightarrow> Throw (notFound None) | c # _ \<Rightarrow> Return c)"

definition isClosedChannel :: "ChannelRow \<Rightarrow> bool" where
  "isClosedChannel channel = (ch_type channel \<noteq> ''public'')"

definition channelTarget :: "ChannelRow \<Rightarrow> Target" where
  "channelTarget channel =
     \<lparr>tgt_orgId = ch_orgId channel, tgt_resource = ref_to ''channel'' (ch_id channel),
      tgt_ancestors = Some [], tgt_closed = Some (isClosedChannel channel)\<rparr>"

text \<open>The column is a uuid, so the comparison ignores the case of the id it is given.\<close>

definition loadSession :: "string \<Rightarrow> string \<Rightarrow> tenancy \<Rightarrow> (AppError, SessionRow) result" where
  "loadSession orgId sessionId t =
     (case filter (\<lambda>s. rs_orgId s = orgId \<and> rs_id s = to_lower sessionId) (sessions t) of
        [] \<Rightarrow> Throw (notFound (Some ''No such call.'')) | s # _ \<Rightarrow> Return s)"

end
