(* ===== verification/Tenancy.thy ===== *)
theory Tenancy
  imports Tenancy_Data
begin

text \<open>
  The services that change who is in an organization and what they may reach: members, teams, grants on
  resources and individual grants
  (\<open>apps/api/src/tenancy\<close>), with the part of \<open>rtc/participants.ts\<close> a removal runs. A service takes the
  organization it is scoped to, its input, the actor, the ids and the time it would draw.
\<close>

section \<open>Leaving calls\<close>

definition durationSecondsOf :: "int option \<Rightarrow> int option \<Rightarrow> int" where
  "durationSecondsOf startedAt endedAt =
     (case (startedAt, endedAt) of
        (Some s, Some e) \<Rightarrow> (if e - s > 0 then (e - s) div 1000 else 0) | _ \<Rightarrow> 0)"

record EndedCall =
  ec_sessionId :: string
  ec_reason :: string
  ec_durationSeconds :: int
  ec_notifyUserIds :: "string list"
  ec_missedUserIds :: "string list"

definition update_session :: "string \<Rightarrow> string \<Rightarrow> (SessionRow \<Rightarrow> SessionRow) \<Rightarrow> tenancy \<Rightarrow> tenancy" where
  "update_session orgId i change t =
     t\<lparr>sessions := map (\<lambda>s. if rs_orgId s = orgId \<and> rs_id s = i then change s else s) (sessions t)\<rparr>"

definition update_participants :: "(ParticipantRow \<Rightarrow> bool) \<Rightarrow> (ParticipantRow \<Rightarrow> ParticipantRow) \<Rightarrow> tenancy \<Rightarrow> tenancy" where
  "update_participants hit change t =
     t\<lparr>participants := map (\<lambda>p. if hit p then change p else p) (participants t)\<rparr>"

definition participants_of :: "string \<Rightarrow> string \<Rightarrow> tenancy \<Rightarrow> ParticipantRow list" where
  "participants_of orgId i t = filter (\<lambda>p. rp_orgId p = orgId \<and> rp_sessionId p = i) (participants t)"

definition endSessionRow ::
  "string \<Rightarrow> SessionRow \<Rightarrow> string \<Rightarrow> int \<Rightarrow> tenancy \<Rightarrow> EndedCall \<times> tenancy" where
  "endSessionRow orgId session reason now t =
     (let audience = participants_of orgId (rs_id session) t;
          missed = map rp_userId (filter (\<lambda>p. rp_state p = ''invited'') audience);
          here = (\<lambda>p. rp_orgId p = orgId \<and> rp_sessionId p = rs_id session);
          t1 = update_session orgId (rs_id session)
                 (\<lambda>s. s\<lparr>rs_status := ''ended'', rs_endedAt := Some now, rs_endReason := Some reason,
                        rs_joinedCount := 0\<rparr>) t;
          t2 = update_participants (\<lambda>p. here p \<and> rp_state p = ''invited'') (\<lambda>p. p\<lparr>rp_state := ''missed''\<rparr>) t1;
          t3 = update_participants (\<lambda>p. here p \<and> rp_state p = ''joined'')
                 (\<lambda>p. p\<lparr>rp_state := ''left'', rp_leftAt := Some now\<rparr>) t2
      in (\<lparr>ec_sessionId = rs_id session, ec_reason = reason,
           ec_durationSeconds = durationSecondsOf (rs_startedAt session) (Some now),
           ec_notifyUserIds = map rp_userId audience, ec_missedUserIds = missed\<rparr>, t3))"

definition isLastLegOut :: "string \<Rightarrow> string \<Rightarrow> int \<Rightarrow> tenancy \<Rightarrow> bool" where
  "isLastLegOut orgId i joinedCount t =
     (if joinedCount \<le> 0 then True
      else if joinedCount \<noteq> 1 then False
      else length (participants_of orgId i t) = 2)"

text \<open>One turn of the loop of \<open>leaveAllActiveSessionsFor\<close>: nothing, or a call left and perhaps ended.\<close>

definition leave_one ::
  "string \<Rightarrow> string \<Rightarrow> int \<Rightarrow> string \<Rightarrow> tenancy \<Rightarrow>
   (AppError, (SessionRow \<times> EndedCall option) option \<times> tenancy) result" where
  "leave_one orgId userId now i t =
     bind_result (loadSession orgId i t) (\<lambda>session.
       let mine = (\<lambda>p. rp_orgId p = orgId \<and> rp_sessionId p = rs_id session \<and> rp_userId p = userId \<and>
                        rp_state p = ''joined'') in
       if rs_status session = ''ended'' then Return (None, t)
       else if filter mine (participants t) = [] then Return (None, t)
       else
         (let t1 = update_participants mine (\<lambda>p. p\<lparr>rp_state := ''left'', rp_leftAt := Some now\<rparr>) t;
              t2 = update_session orgId (rs_id session) (\<lambda>s. s\<lparr>rs_joinedCount := rs_joinedCount s - 1\<rparr>) t1
          in if isLastLegOut orgId (rs_id session) (rs_joinedCount session - 1) t2
             then (let (ended, t3) = endSessionRow orgId session ''empty'' now t2
                   in Return (Some (session, Some ended), t3))
             else Return (Some (session, None), t2)))"

fun leave_loop ::
  "string \<Rightarrow> string \<Rightarrow> int \<Rightarrow> string list \<Rightarrow> tenancy \<Rightarrow>
   (AppError, (SessionRow \<times> EndedCall option) list \<times> tenancy) result" where
  "leave_loop orgId userId now [] t = Return ([], t)"
| "leave_loop orgId userId now (i # is) t =
     bind_result (leave_one orgId userId now i t) (\<lambda>(left, t1).
     bind_result (leave_loop orgId userId now is t1) (\<lambda>(lefts, t2).
       Return ((case left of None \<Rightarrow> lefts | Some l \<Rightarrow> l # lefts), t2)))"

definition leaveAllActiveSessionsFor ::
  "string \<Rightarrow> string \<Rightarrow> int \<Rightarrow> tenancy \<Rightarrow> (AppError, (SessionRow \<times> EndedCall option) list \<times> tenancy) result" where
  "leaveAllActiveSessionsFor orgId userId now t =
     (let joined = filter (\<lambda>p. rp_orgId p = orgId \<and> rp_userId p = userId \<and> rp_state p = ''joined'' \<and>
            list_ex (\<lambda>s. rs_orgId s = orgId \<and> rs_id s = rp_sessionId p \<and> rs_status s \<noteq> ''ended'') (sessions t))
          (participants t)
      in leave_loop orgId userId now (map rp_sessionId joined) t)"

section \<open>Members\<close>

definition member_of :: "string \<Rightarrow> string \<Rightarrow> tenancy \<Rightarrow> MemberRow option" where
  "member_of orgId userId t = find (\<lambda>m. mb_orgId m = orgId \<and> mb_userId m = userId) (members t)"

definition set_member :: "(MemberRow \<Rightarrow> bool) \<Rightarrow> (MemberRow \<Rightarrow> MemberRow) \<Rightarrow> tenancy \<Rightarrow> tenancy" where
  "set_member hit change t = t\<lparr>members := map (\<lambda>m. if hit m then change m else m) (members t)\<rparr>"

definition unknown_role :: AppError where
  "unknown_role = conflict (Some
     ''This membership holds a role this version does not recognize. Try again after the deploy completes.'')"

definition knownRole :: "string \<Rightarrow> (AppError, string) result" where
  "knownRole value = (if isRole value then Return value else Throw unknown_role)"

definition last_owner :: AppError where
  "last_owner = conflict (Some ''An organization must always have an owner. Promote someone else first.'')"

definition assertAnotherOwnerRemains :: "string \<Rightarrow> string \<Rightarrow> tenancy \<Rightarrow> (AppError, unit) result" where
  "assertAnotherOwnerRemains orgId excludingUserId t =
     (if list_ex (\<lambda>m. mb_orgId m = orgId \<and> mb_role m = ''owner'' \<and> mb_status m = ''active'' \<and>
           mb_userId m \<noteq> excludingUserId) (members t)
      then Return () else Throw last_owner)"

definition role_error :: "string \<Rightarrow> AppError" where
  "role_error message = validation [(''role'', JStr message)] None"

definition addMember ::
  "string \<Rightarrow> string \<Rightarrow> string \<Rightarrow> Actor \<Rightarrow> string \<Rightarrow> drawn \<Rightarrow> tenancy \<Rightarrow>
   (AppError, (string \<times> string) \<times> tenancy) result" where
  "addMember orgId email role actor membershipId drawn t =
     (if \<not> isRole role then Throw (role_error ''Unknown role.'')
      else if \<not> isDirectlyAssignable role
      then Throw (role_error ''Add the member first, then transfer ownership.'')
      else
        (case find (\<lambda>u. u_emailNormalized u = to_lower (trim email)) (users t) of
           None \<Rightarrow> Throw (notFound (Some ''No account with that address.''))
         | Some user \<Rightarrow>
             if member_of orgId (u_id user) t \<noteq> None
             then Throw (conflict (Some ''That person is already a member.''))
             else
               Return ((u_id user, role), append_rows drawn
                 [event_row orgId actor drawn ''member.added''
                    [(''membershipId'', JStr membershipId), (''userId'', JStr (u_id user)),
                     (''email'', JStr (u_email user)), (''role'', JStr role),
                     (''invitedBy'', JStr (act_userId actor))]]
                 (t\<lparr>members := members t @
                    [\<lparr>mb_id = membershipId, mb_orgId = orgId, mb_userId = u_id user, mb_role = role,
                      mb_status = ''active'', mb_updatedAt = snd drawn\<rparr>]\<rparr>))))"

definition changeRole ::
  "string \<Rightarrow> string \<Rightarrow> string \<Rightarrow> Actor \<Rightarrow> drawn \<Rightarrow> tenancy \<Rightarrow>
   (AppError, (string \<times> string) \<times> tenancy) result" where
  "changeRole orgId userId role actor drawn t =
     (if \<not> isRole role then Throw (role_error ''Unknown role.'')
      else if userId = act_userId actor then Throw (forbidden (Some ''You cannot change your own role.''))
      else
        (case member_of orgId userId t of
           None \<Rightarrow> Throw (notFound None)
         | Some membership \<Rightarrow>
             bind_result (knownRole (mb_role membership)) (\<lambda>currentRole.
               if sameRole currentRole role then Return ((currentRole, role), t)
               else
                 bind_result (if isIndispensableRole currentRole
                              then assertAnotherOwnerRemains orgId userId t else Return ()) (\<lambda>_.
                   Return ((currentRole, role), append_rows drawn
                     [event_row orgId actor drawn ''member.role_changed''
                        [(''membershipId'', JStr (mb_id membership)), (''userId'', JStr userId),
                         (''from'', JStr currentRole), (''to'', JStr role)]]
                     (set_member (\<lambda>m. mb_orgId m = orgId \<and> mb_id m = mb_id membership)
                        (\<lambda>m. m\<lparr>mb_role := role, mb_updatedAt := snd drawn\<rparr>) t))))))"

definition ended_payload :: "SessionRow \<Rightarrow> EndedCall \<Rightarrow> (string \<times> json) list" where
  "ended_payload session e =
     [(''sessionId'', JStr (rs_id session)), (''channelId'', JStr (rs_channelId session)),
      (''reason'', JStr (ec_reason e)), (''durationSeconds'', JNum (ec_durationSeconds e) 0),
      (''notifyUserIds'', JArr (map JStr (ec_notifyUserIds e))),
      (''missedUserIds'', JArr (map JStr (ec_missedUserIds e)))]"

definition left_events ::
  "string \<Rightarrow> Actor \<Rightarrow> drawn \<Rightarrow> SessionRow \<times> EndedCall option \<Rightarrow> OutboxRow list" where
  "left_events orgId actor drawn call =
     event_row orgId actor drawn ''rtc_session.left'' [(''sessionId'', JStr (rs_id (fst call)))] #
     (case snd call of
        None \<Rightarrow> [] | Some e \<Rightarrow> [event_row orgId actor drawn ''rtc_session.ended'' (ended_payload (fst call) e)])"

text \<open>The individual grants go with the membership (\<open>ON DELETE CASCADE\<close>).\<close>

definition removeMember ::
  "string \<Rightarrow> string \<Rightarrow> Actor \<Rightarrow> drawn \<Rightarrow> tenancy \<Rightarrow> (AppError, tenancy) result" where
  "removeMember orgId userId actor drawn t =
     (case member_of orgId userId t of
        None \<Rightarrow> Throw (notFound None)
      | Some membership \<Rightarrow>
          bind_result (knownRole (mb_role membership)) (\<lambda>currentRole.
          bind_result (if isIndispensableRole currentRole
                       then assertAnotherOwnerRemains orgId userId t else Return ()) (\<lambda>_.
            let t1 = t\<lparr>members := filter (\<lambda>m. \<not> (mb_orgId m = orgId \<and> mb_id m = mb_id membership)) (members t),
                  tuples := filter (\<lambda>p. \<not> (tp_orgId p = orgId \<and> tp_subjectType p = ''user'' \<and>
                                              tp_subjectId p = userId)) (tuples t),
                  teamMembers := filter (\<lambda>m. \<not> (tm_orgId m = orgId \<and> tm_userId m = userId)) (teamMembers t),
                  memberGrants := filter (\<lambda>g. mg_membershipId g \<noteq> mb_id membership) (memberGrants t)\<rparr> in
            bind_result (leaveAllActiveSessionsFor orgId userId (snd drawn) t1) (\<lambda>(left, t2).
              Return (append_rows drawn
                (event_row orgId actor drawn ''member.removed''
                   [(''membershipId'', JStr (mb_id membership)), (''userId'', JStr userId),
                    (''role'', JStr currentRole)] # concat (map (left_events orgId actor drawn) left)) t2)))))"

definition startOffboarding ::
  "string \<Rightarrow> string \<Rightarrow> Actor \<Rightarrow> drawn \<Rightarrow> tenancy \<Rightarrow> (AppError, tenancy) result" where
  "startOffboarding orgId userId actor drawn t =
     (case member_of orgId userId t of
        None \<Rightarrow> Throw (notFound None)
      | Some membership \<Rightarrow>
          Return (append_rows drawn [event_row orgId actor drawn ''member.offboarding_started''
            [(''membershipId'', JStr (mb_id membership)), (''userId'', JStr userId),
             (''initiatedBy'', JStr (act_userId actor))]] t))"

definition not_promotable :: AppError where
  "not_promotable = validation [(''toUserId'',
     JStr ''This person must be a member or admin before becoming Owner. Promote them first.'')] None"

definition transferOwnership ::
  "string \<Rightarrow> string \<Rightarrow> string \<Rightarrow> Actor \<Rightarrow> drawn \<Rightarrow> tenancy \<Rightarrow> (AppError, tenancy) result" where
  "transferOwnership orgId toUserId selfNewRole actor drawn t =
     (case member_of orgId toUserId t of
        None \<Rightarrow> Throw (notFound None)
      | Some membership \<Rightarrow>
          bind_result (knownRole (mb_role membership)) (\<lambda>currentRole.
            if currentRole \<noteq> ''admin'' \<and> currentRole \<noteq> ''member'' then Throw not_promotable
            else
              (let t1 = set_member (\<lambda>m. mb_orgId m = orgId \<and> mb_id m = mb_id membership)
                     (\<lambda>m. m\<lparr>mb_role := ''owner'', mb_updatedAt := snd drawn\<rparr>) t;
                   t2 = set_member (\<lambda>m. mb_orgId m = orgId \<and> mb_userId m = act_userId actor)
                     (\<lambda>m. m\<lparr>mb_role := selfNewRole, mb_updatedAt := snd drawn\<rparr>) t1
               in Return (append_rows drawn [event_row orgId actor drawn ''member.ownership_transferred''
                    [(''orgId'', JStr orgId), (''fromUserId'', JStr (act_userId actor)),
                     (''toUserId'', JStr toUserId), (''fromNewRole'', JStr selfNewRole)]] t2))))"

section \<open>Teams\<close>

definition createTeam ::
  "string \<Rightarrow> string \<Rightarrow> string \<Rightarrow> string \<Rightarrow> Actor \<Rightarrow> drawn \<Rightarrow> tenancy \<Rightarrow>
   (AppError, string \<times> tenancy) result" where
  "createTeam orgId teamId name slug actor drawn t =
     (if list_ex (\<lambda>r. t_orgId r = orgId \<and> t_slug r = slug) (teams t)
      then Throw (conflict (Some ''A team with that address already exists.''))
      else
        Return (teamId, append_rows drawn [event_row orgId actor drawn ''team.created''
            [(''teamId'', JStr teamId), (''name'', JStr name), (''slug'', JStr slug)]]
          (t\<lparr>teams := teams t @ [\<lparr>t_id = teamId, t_orgId = orgId, t_name = name, t_slug = slug\<rparr>]\<rparr>)))"

definition team_payload :: "string \<Rightarrow> string \<Rightarrow> (string \<times> json) list" where
  "team_payload teamId userId = [(''teamId'', JStr teamId), (''userId'', JStr userId)]"

definition addTeamMember ::
  "string \<Rightarrow> string \<Rightarrow> string \<Rightarrow> Actor \<Rightarrow> drawn \<Rightarrow> tenancy \<Rightarrow> (AppError, tenancy) result" where
  "addTeamMember orgId teamId userId actor drawn t =
     (if \<not> list_ex (\<lambda>r. t_orgId r = orgId \<and> t_id r = teamId) (teams t) then Throw (notFound None)
      else if \<not> list_ex (\<lambda>m. mb_orgId m = orgId \<and> mb_userId m = userId \<and> mb_status m = ''active'') (members t)
      then Throw (notFound None)
      else if list_ex (\<lambda>m. tm_orgId m = orgId \<and> tm_teamId m = teamId \<and> tm_userId m = userId) (teamMembers t)
      then Return t
      else
        Return (append_rows drawn [event_row orgId actor drawn ''team.member_added'' (team_payload teamId userId)]
          (t\<lparr>teamMembers := teamMembers t @ [\<lparr>tm_orgId = orgId, tm_teamId = teamId, tm_userId = userId\<rparr>]\<rparr>)))"

definition removeTeamMember ::
  "string \<Rightarrow> string \<Rightarrow> string \<Rightarrow> Actor \<Rightarrow> drawn \<Rightarrow> tenancy \<Rightarrow> (AppError, tenancy) result" where
  "removeTeamMember orgId teamId userId actor drawn t =
     (let hit = (\<lambda>m. tm_orgId m = orgId \<and> tm_teamId m = teamId \<and> tm_userId m = userId) in
      if \<not> list_ex hit (teamMembers t) then Throw (notFound None)
      else
        Return (append_rows drawn [event_row orgId actor drawn ''team.member_removed'' (team_payload teamId userId)]
          (t\<lparr>teamMembers := filter (\<lambda>m. \<not> hit m) (teamMembers t)\<rparr>)))"

section \<open>Grants\<close>

record GrantInput =
  gi_subjectType :: string
  gi_subjectId :: string
  gi_relation :: string
  gi_objectType :: string
  gi_objectId :: string
  gi_expiresAt :: "string option"
  gi_isGuest :: "bool option"

definition isResourceType :: "string \<Rightarrow> bool" where
  "isResourceType value = (value \<in> set RESOURCE_TYPES)"

definition assertSubjectBelongsHere :: "string \<Rightarrow> GrantInput \<Rightarrow> tenancy \<Rightarrow> (AppError, unit) result" where
  "assertSubjectBelongsHere orgId input t =
     (if gi_subjectType input = ''user''
      then (if list_ex (\<lambda>m. mb_orgId m = orgId \<and> mb_userId m = gi_subjectId input) (members t)
            then Return () else Throw (notFound None))
      else (if list_ex (\<lambda>r. t_orgId r = orgId \<and> t_id r = gi_subjectId input) (teams t)
            then Return () else Throw (notFound None)))"

definition same_grant :: "string \<Rightarrow> GrantInput \<Rightarrow> TupleRow \<Rightarrow> bool" where
  "same_grant orgId input p =
     (tp_orgId p = orgId \<and> tp_subjectType p = gi_subjectType input \<and> tp_subjectId p = gi_subjectId input \<and>
      tp_relation p = gi_relation input \<and> tp_objectType p = gi_objectType input \<and>
      tp_objectId p = gi_objectId input)"

definition grant_error :: "string \<Rightarrow> string \<Rightarrow> AppError" where
  "grant_error field message = validation [(field, JStr message)] None"

text \<open>\<open>new Date(text).getTime()\<close> is \<open>Date.parse(text)\<close>, and absent for an invalid date.\<close>

definition grant_expiry ::
  "(string \<Rightarrow> int option) \<Rightarrow> GrantInput \<Rightarrow> int \<Rightarrow> (AppError, int option) result" where
  "grant_expiry other input now =
     (case gi_expiresAt input of
        None \<Rightarrow> Return None
      | Some s \<Rightarrow>
          (case date_parse other s of
             None \<Rightarrow> Throw (grant_error ''expiresAt'' ''Not a valid timestamp.'')
           | Some e \<Rightarrow>
               if e \<le> now then Throw (grant_error ''expiresAt'' ''Expiry must be in the future.'')
               else Return (Some e)))"

definition grant ::
  "(string \<Rightarrow> int option) \<Rightarrow> string \<Rightarrow> GrantInput \<Rightarrow> Actor \<Rightarrow> string \<Rightarrow> drawn \<Rightarrow> tenancy \<Rightarrow>
   (AppError, string \<times> tenancy) result" where
  "grant other orgId input actor tupleId drawn t =
     (if \<not> isRelation (gi_relation input) then Throw (grant_error ''relation'' ''Unknown relation.'')
      else if \<not> isResourceType (gi_objectType input)
      then Throw (grant_error ''objectType'' ''Unknown resource type.'')
      else
        bind_result (grant_expiry other input (snd drawn)) (\<lambda>expiresAt.
        bind_result (assertSubjectBelongsHere orgId input t) (\<lambda>_.
          case find (same_grant orgId input) (tuples t) of
            Some found \<Rightarrow> Return (tp_id found, t)
          | None \<Rightarrow>
              (let guest = (case gi_isGuest input of None \<Rightarrow> False | Some b \<Rightarrow> b) in
               Return (tupleId, append_rows drawn [event_row orgId actor drawn ''grant.created''
                   [(''tupleId'', JStr tupleId), (''subjectType'', JStr (gi_subjectType input)),
                    (''subjectId'', JStr (gi_subjectId input)), (''relation'', JStr (gi_relation input)),
                    (''objectType'', JStr (gi_objectType input)), (''objectId'', JStr (gi_objectId input)),
                    (''expiresAt'', case expiresAt of None \<Rightarrow> JNull | Some e \<Rightarrow> JStr (iso_text e)),
                    (''isGuest'', JBool guest)]]
                 (t\<lparr>tuples := tuples t @
                    [\<lparr>tp_id = tupleId, tp_orgId = orgId, tp_subjectType = gi_subjectType input,
                      tp_subjectId = gi_subjectId input, tp_relation = gi_relation input,
                      tp_objectType = gi_objectType input, tp_objectId = gi_objectId input,
                      tp_grantedBy = act_userId actor, tp_expiresAt = expiresAt, tp_isGuest = guest\<rparr>]\<rparr>))))))"

definition revoke ::
  "string \<Rightarrow> string \<Rightarrow> Actor \<Rightarrow> drawn \<Rightarrow> tenancy \<Rightarrow> (AppError, tenancy) result" where
  "revoke orgId tupleId actor drawn t =
     (case find (\<lambda>p. tp_orgId p = orgId \<and> tp_id p = tupleId) (tuples t) of
        None \<Rightarrow> Throw (notFound None)
      | Some tuple \<Rightarrow>
          Return (append_rows drawn [event_row orgId actor drawn ''grant.revoked''
              [(''tupleId'', JStr (tp_id tuple)),
               (''subjectType'', JStr (if tp_subjectType tuple = ''team'' then ''team'' else ''user'')),
               (''subjectId'', JStr (tp_subjectId tuple)), (''relation'', JStr (tp_relation tuple)),
               (''objectType'', JStr (tp_objectType tuple)), (''objectId'', JStr (tp_objectId tuple))]]
            (t\<lparr>tuples := filter (\<lambda>p. \<not> (tp_orgId p = orgId \<and> tp_id p = tp_id tuple)) (tuples t)\<rparr>)))"

section \<open>Individual grants\<close>

text \<open>\<open>member-grant.service.ts\<close>: \<open>grant\<close>, \<open>revoke\<close> and \<open>revokeAll\<close>.\<close>

definition findActiveMembership :: "string \<Rightarrow> string \<Rightarrow> tenancy \<Rightarrow> MemberRow option" where
  "findActiveMembership orgId userId t =
     find (\<lambda>m. mb_orgId m = orgId \<and> mb_userId m = userId \<and> mb_status m = ''active'') (members t)"

definition held_grant :: "string \<Rightarrow> string \<Rightarrow> MemberGrantRow \<Rightarrow> bool" where
  "held_grant orgId membershipId g =
     (mg_orgId g = orgId \<and> mg_membershipId g = membershipId \<and> mg_revokedAt g = None)"

definition member_grant_payload :: "string \<Rightarrow> string \<Rightarrow> string \<Rightarrow> string \<Rightarrow> (string \<times> json) list" where
  "member_grant_payload grantId membershipId userId permission =
     [(''grantId'', JStr grantId), (''membershipId'', JStr membershipId), (''userId'', JStr userId),
      (''permission'', JStr permission)]"

definition not_grantable :: AppError where
  "not_grantable =
     validation [(''permission'', JStr ''This permission cannot be granted individually.'')] None"

definition grant_member ::
  "string \<Rightarrow> string \<Rightarrow> string \<Rightarrow> Actor \<Rightarrow> string \<Rightarrow> drawn \<Rightarrow> tenancy \<Rightarrow> (AppError, string \<times> tenancy) result" where
  "grant_member orgId userId permission actor grantId drawn t =
     (if \<not> isPermission permission \<or> \<not> isGrantable permission then Throw not_grantable
      else
        (case findActiveMembership orgId userId t of
           None \<Rightarrow> Throw (notFound None)
         | Some membership \<Rightarrow>
             (case find (\<lambda>g. held_grant orgId (mb_id membership) g \<and> mg_permission g = permission) (memberGrants t) of
                Some found \<Rightarrow> Return (mg_id found, t)
              | None \<Rightarrow>
                  Return (grantId, append_rows drawn
                    [event_row orgId actor drawn ''member_grant.created''
                       (member_grant_payload grantId (mb_id membership) userId permission)]
                    (t\<lparr>memberGrants := memberGrants t @
                       [\<lparr>mg_id = grantId, mg_orgId = orgId, mg_membershipId = mb_id membership,
                         mg_permission = permission, mg_revokedAt = None\<rparr>]\<rparr>)))))"

definition revoke_grants :: "(MemberGrantRow \<Rightarrow> bool) \<Rightarrow> int \<Rightarrow> tenancy \<Rightarrow> tenancy" where
  "revoke_grants hit now t =
     t\<lparr>memberGrants := map (\<lambda>g. if hit g then g\<lparr>mg_revokedAt := Some now\<rparr> else g) (memberGrants t)\<rparr>"

definition revoke_member ::
  "string \<Rightarrow> string \<Rightarrow> string \<Rightarrow> Actor \<Rightarrow> drawn \<Rightarrow> tenancy \<Rightarrow> (AppError, tenancy) result" where
  "revoke_member orgId userId permission actor drawn t =
     (case findActiveMembership orgId userId t of
        None \<Rightarrow> Throw (notFound None)
      | Some membership \<Rightarrow>
          (case find (\<lambda>g. held_grant orgId (mb_id membership) g \<and> mg_permission g = permission) (memberGrants t) of
             None \<Rightarrow> Return t
           | Some row \<Rightarrow>
               Return (append_rows drawn
                 [event_row orgId actor drawn ''member_grant.revoked''
                    (member_grant_payload (mg_id row) (mb_id membership) userId permission)]
                 (revoke_grants (\<lambda>g. mg_orgId g = orgId \<and> mg_id g = mg_id row) (snd drawn) t))))"

definition revokeAll ::
  "string \<Rightarrow> string \<Rightarrow> Actor \<Rightarrow> drawn \<Rightarrow> tenancy \<Rightarrow> (AppError, string list \<times> tenancy) result" where
  "revokeAll orgId userId actor drawn t =
     (case findActiveMembership orgId userId t of
        None \<Rightarrow> Throw (notFound None)
      | Some membership \<Rightarrow>
          (let rows = filter (held_grant orgId (mb_id membership)) (memberGrants t) in
           if rows = [] then Return ([], t)
           else
             Return (map mg_permission rows, append_rows drawn
               (map (\<lambda>row. event_row orgId actor drawn ''member_grant.revoked''
                  (member_grant_payload (mg_id row) (mb_id membership) userId (mg_permission row))) rows)
               (revoke_grants (held_grant orgId (mb_id membership)) (snd drawn) t))))"

end
