(* ===== verification/Rooms.thy ===== *)
theory Rooms
  imports Tenancy
begin

text \<open>
  Who may join a room of the realtime gateway: \<open>apps/realtime/src/rooms.ts\<close> and \<open>rtc-rooms.ts\<close>. Every
  decision resolves the membership of the verified user again and asks \<open>can\<close>; an error of the resolution
  is thrown on.
\<close>

datatype join_reason =
    Granted | Not_A_Member | No_Such_Board | No_Such_Channel | No_Such_Call | Denied

record JoinAuthorization =
  ja_allowed :: bool
  ja_decision :: "Decision option"
  ja_reason :: join_reason

text \<open>\<open>RoomZod\<close> is the error of \<open>OrgIdSchema.parse\<close> on the organization of a row.\<close>

datatype room_error = RoomApp AppError | RoomZod

definition refused :: "join_reason \<Rightarrow> JoinAuthorization" where
  "refused reason = \<lparr>ja_allowed = False, ja_decision = None, ja_reason = reason\<rparr>"

definition decided :: "Decision \<Rightarrow> JoinAuthorization" where
  "decided decision =
     \<lparr>ja_allowed = dec_allowed decision, ja_decision = Some decision,
      ja_reason = (if dec_allowed decision then Granted else Denied)\<rparr>"

text \<open>The subject the gateway asks for; it passes no individual grants.\<close>

definition join_subject :: "string \<Rightarrow> OrgMembership \<Rightarrow> Subject" where
  "join_subject userId m =
     \<lparr>sub_orgId = om_orgId m, sub_userId = userId, sub_role = om_role m, sub_tuples = om_tuples m,
      sub_memberGrants = None\<rparr>"

definition as_member ::
  "string \<Rightarrow> string \<Rightarrow> int \<Rightarrow> tenancy \<Rightarrow> (OrgMembership \<Rightarrow> (room_error, JoinAuthorization) result) \<Rightarrow>
   (room_error, JoinAuthorization) result" where
  "as_member userId orgId now t k =
     (case resolveOrgMembership userId orgId now t of
        Inl e \<Rightarrow> Throw (RoomApp e)
      | Inr None \<Rightarrow> Return (refused Not_A_Member)
      | Inr (Some m) \<Rightarrow> k m)"

definition parsed_org :: "string \<Rightarrow> (string \<Rightarrow> (room_error, 'a) result) \<Rightarrow> (room_error, 'a) result" where
  "parsed_org orgId k = (case idSchema orgId of None \<Rightarrow> Throw RoomZod | Some i \<Rightarrow> k i)"

definition authorizeJoin ::
  "string \<Rightarrow> string \<Rightarrow> string \<Rightarrow> int \<Rightarrow> tenancy \<Rightarrow> (room_error, JoinAuthorization) result" where
  "authorizeJoin userId orgId boardId now t =
     as_member userId orgId now t (\<lambda>m.
       case loadBoard orgId boardId (work t) of
         Inl _ \<Rightarrow> Return (refused No_Such_Board)
       | Inr board \<Rightarrow>
           parsed_org (b_orgId board) (\<lambda>rowOrg.
             Return (decided (can (join_subject userId m) ''board:read''
               (Some \<lparr>tgt_orgId = rowOrg, tgt_resource = ref_to ''board'' boardId,
                      tgt_ancestors = Some [ref_to ''project'' (b_projectId board)],
                      tgt_closed = None\<rparr>)))))"

definition authorizeChannelJoin ::
  "string \<Rightarrow> string \<Rightarrow> string \<Rightarrow> int \<Rightarrow> tenancy \<Rightarrow> (room_error, JoinAuthorization) result" where
  "authorizeChannelJoin userId orgId channelId now t =
     as_member userId orgId now t (\<lambda>m.
       case loadChannel orgId channelId t of
         Inl _ \<Rightarrow> Return (refused No_Such_Channel)
       | Inr channel \<Rightarrow>
           parsed_org (ch_orgId channel) (\<lambda>rowOrg.
             Return (decided (can (join_subject userId m) ''channel:read''
               (Some (channelTarget (channel\<lparr>ch_orgId := rowOrg\<rparr>)))))))"

definition authorizeCallJoin ::
  "string \<Rightarrow> string \<Rightarrow> string \<Rightarrow> int \<Rightarrow> tenancy \<Rightarrow> (room_error, JoinAuthorization) result" where
  "authorizeCallJoin userId orgId callId now t =
     as_member userId orgId now t (\<lambda>m.
       if \<not> list_ex (\<lambda>c. call_orgId c = orgId \<and> call_id c = to_lower callId) (calls t)
       then Return (refused No_Such_Call)
       else Return (decided (can (join_subject userId m) ''call:read'' None)))"

definition authorizeRtcJoin ::
  "string \<Rightarrow> string \<Rightarrow> string \<Rightarrow> int \<Rightarrow> tenancy \<Rightarrow> (room_error, JoinAuthorization) result" where
  "authorizeRtcJoin userId orgId sessionId now t =
     (case loadSession orgId sessionId t of
        Inl _ \<Rightarrow> Return (refused No_Such_Call)
      | Inr session \<Rightarrow>
          if rs_status session = ''ended'' then Return (refused No_Such_Call)
          else authorizeChannelJoin userId orgId (rs_channelId session) now t)"

end
