(* ===== verification/Event_Rooms.thy ===== *)
theory Event_Rooms
  imports Tenancy_Data
begin

text \<open>
  Which room an event is broadcast to: the tables of \<open>apps/realtime/src/event-rooms.ts\<close>, the check made on
  them before the gateway accepts a connection, and the lookups.
\<close>

section \<open>The tables\<close>

type_synonym key_table = "(string \<times> string) list"

definition keyed :: "string \<Rightarrow> string list \<Rightarrow> key_table" where
  "keyed key names = map (\<lambda>n. (n, key)) names"

definition BOARD_KEY_OF :: key_table where
  "BOARD_KEY_OF = keyed ''boardId''
     [''card.created'', ''card.updated'', ''card.moved'', ''card.assigned'', ''card.archived'',
      ''card.status_changed'', ''card.labeled'', ''card.field_set'',
      ''list.created'', ''list.updated'', ''list.reordered'', ''list.archived'', ''list.rebalanced'',
      ''board.updated'', ''board.archived'',
      ''comment.created'', ''comment.updated'', ''comment.deleted'',
      ''checklist.created'', ''checklist.deleted'', ''checklist_item.created'', ''checklist_item.updated'',
      ''checklist_item.deleted'', ''view.created'', ''view.updated'', ''view.deleted'']"

definition CHANNEL_KEY_OF :: key_table where
  "CHANNEL_KEY_OF = keyed ''channelId''
     [''message.sent'', ''message.edited'', ''message.deleted'', ''channel.updated'', ''channel.archived'',
      ''message.reaction_added'', ''message.reaction_removed'', ''message.pinned'', ''message.unpinned'',
      ''message.unfurled'', ''message.attachments_changed'']"

definition NEVER_BROADCAST_PREFIX :: string where "NEVER_BROADCAST_PREFIX = ''attachment.''"

text \<open>
  \<open>name.slice(0, name.indexOf('.'))\<close>: what is before the first dot, and without a dot everything but the
  last character (\<open>indexOf\<close> is -1).
\<close>

definition before_dot :: "string \<Rightarrow> string" where
  "before_dot name = (if CHR ''.'' \<in> set name then takeWhile (\<lambda>c. c \<noteq> CHR ''.'') name else butlast name)"

fun split_underscore :: "string \<Rightarrow> string list" where
  "split_underscore [] = [[]]"
| "split_underscore (c # s) =
     (if c = CHR ''_'' then [] # split_underscore s
      else (case split_underscore s of [] \<Rightarrow> [[c]] | p # ps \<Rightarrow> (c # p) # ps))"

definition namesAnAttachment :: "string \<Rightarrow> bool" where
  "namesAnAttachment name = (''attachment'' \<in> set (split_underscore (before_dot name)))"

definition PROJECT_SCOPED_PREFIXES :: "string list" where
  "PROJECT_SCOPED_PREFIXES = [''label.'', ''custom_field.'', ''status.'']"

definition USER_KEY_OF :: key_table where "USER_KEY_OF = [(''notification.created'', ''userId'')]"

definition USER_LIST_KEY_OF :: key_table where
  "USER_LIST_KEY_OF =
     [(''rtc_session.started'', ''invitedUserIds''), (''rtc_session.ended'', ''notifyUserIds'')]"

definition MAX_FANOUT :: nat where "MAX_FANOUT = 32"

definition CALL_KEY_OF :: key_table where "CALL_KEY_OF = [(''call.status_changed'', ''callId'')]"

definition named :: "key_table \<Rightarrow> string \<Rightarrow> bool" where
  "named table name = (map_of table name \<noteq> None)"

section \<open>The check at boot\<close>

datatype unsafe_reason =
    ATTACHMENT_REASON | PROJECT_SCOPED_REASON | BOARD_CREATED_REASON | CHANNEL_CREATED_REASON
  | CALL_PLACED_REASON | RECORDING_REASON | DUAL_ROOM_REASON

datatype room_table_error = UnsafeRoomMappingError string unsafe_reason

definition is_attachment :: "string \<Rightarrow> bool" where
  "is_attachment name = (prefix NEVER_BROADCAST_PREFIX name \<or> namesAnAttachment name)"

definition board_name_unsafe :: "string \<Rightarrow> unsafe_reason option" where
  "board_name_unsafe name =
     (if is_attachment name then Some ATTACHMENT_REASON
      else if list_ex (\<lambda>p. prefix p name) PROJECT_SCOPED_PREFIXES then Some PROJECT_SCOPED_REASON
      else if name = ''board.created'' then Some BOARD_CREATED_REASON else None)"

definition channel_name_unsafe :: "string \<Rightarrow> unsafe_reason option" where
  "channel_name_unsafe name =
     (if is_attachment name then Some ATTACHMENT_REASON
      else if name = ''channel.created'' then Some CHANNEL_CREATED_REASON
      else if named BOARD_KEY_OF name then Some DUAL_ROOM_REASON else None)"

definition user_name_unsafe :: "string \<Rightarrow> unsafe_reason option" where
  "user_name_unsafe name =
     (if is_attachment name then Some ATTACHMENT_REASON
      else if named BOARD_KEY_OF name \<or> named CHANNEL_KEY_OF name then Some DUAL_ROOM_REASON else None)"

definition fanout_name_unsafe :: "string \<Rightarrow> unsafe_reason option" where
  "fanout_name_unsafe name =
     (if is_attachment name then Some ATTACHMENT_REASON
      else if named BOARD_KEY_OF name \<or> named CHANNEL_KEY_OF name \<or> named USER_KEY_OF name \<or>
              named CALL_KEY_OF name then Some DUAL_ROOM_REASON else None)"

definition call_name_unsafe :: "string \<Rightarrow> unsafe_reason option" where
  "call_name_unsafe name =
     (if is_attachment name then Some ATTACHMENT_REASON
      else if name = ''call.placed'' then Some CALL_PLACED_REASON
      else if prefix ''recording.'' name \<or> prefix ''transcription.'' name then Some RECORDING_REASON
      else if named BOARD_KEY_OF name \<or> named CHANNEL_KEY_OF name \<or> named USER_KEY_OF name
           then Some DUAL_ROOM_REASON else None)"

fun check_names :: "(string \<Rightarrow> unsafe_reason option) \<Rightarrow> key_table \<Rightarrow> (room_table_error, unit) result" where
  "check_names unsafe [] = Return ()"
| "check_names unsafe ((name, key) # table) =
     (case unsafe name of
        Some reason \<Rightarrow> Throw (UnsafeRoomMappingError name reason)
      | None \<Rightarrow> check_names unsafe table)"

definition assertRoomTableIsSafe :: "(room_table_error, unit) result" where
  "assertRoomTableIsSafe =
     bind_result (check_names board_name_unsafe BOARD_KEY_OF) (\<lambda>_.
     bind_result (check_names channel_name_unsafe CHANNEL_KEY_OF) (\<lambda>_.
     bind_result (check_names user_name_unsafe USER_KEY_OF) (\<lambda>_.
     bind_result (check_names fanout_name_unsafe USER_LIST_KEY_OF) (\<lambda>_.
     check_names call_name_unsafe CALL_KEY_OF))))"

section \<open>The lookups\<close>

text \<open>
  A payload is an object where \<open>typeof\<close> says so, arrays included; a field of it is text when it is a string
  that is not empty.
\<close>

definition nonempty_text :: "json option \<Rightarrow> string option" where
  "nonempty_text v = (case v of Some (JStr s) \<Rightarrow> (if s = [] then None else Some s) | _ \<Rightarrow> None)"

definition text_field :: "string \<Rightarrow> json \<Rightarrow> string option" where
  "text_field key payload = nonempty_text (json_field key payload)"

definition room_in :: "key_table \<Rightarrow> string \<Rightarrow> json \<Rightarrow> string option" where
  "room_in table name payload =
     (case map_of table name of None \<Rightarrow> None | Some key \<Rightarrow> text_field key payload)"

definition roomBoardIdOf :: "string \<Rightarrow> json \<Rightarrow> string option" where
  "roomBoardIdOf name payload = room_in BOARD_KEY_OF name payload"

definition roomChannelIdOf :: "string \<Rightarrow> json \<Rightarrow> string option" where
  "roomChannelIdOf name payload = room_in CHANNEL_KEY_OF name payload"

definition roomUserIdOf :: "string \<Rightarrow> json \<Rightarrow> string option" where
  "roomUserIdOf name payload = room_in USER_KEY_OF name payload"

text \<open>A list longer than \<open>MAX_FANOUT\<close> is refused as a whole.\<close>

definition roomUserIdsOf :: "string \<Rightarrow> json \<Rightarrow> string list" where
  "roomUserIdsOf name payload =
     (case map_of USER_LIST_KEY_OF name of
        None \<Rightarrow> []
      | Some key \<Rightarrow>
          (case json_field key payload of
             Some (JArr vs) \<Rightarrow>
               if length vs > MAX_FANOUT then []
               else List.map_filter (\<lambda>v. nonempty_text (Some v)) vs
           | _ \<Rightarrow> []))"

text \<open>The call id may be empty.\<close>

definition roomCallIdOf :: "string \<Rightarrow> json \<Rightarrow> string option" where
  "roomCallIdOf name payload =
     (case map_of CALL_KEY_OF name of
        None \<Rightarrow> None
      | Some key \<Rightarrow> (case json_field key payload of Some (JStr s) \<Rightarrow> Some s | _ \<Rightarrow> None))"

definition broadcastEventNames :: "string list" where "broadcastEventNames = map fst BOARD_KEY_OF"
definition chatBroadcastEventNames :: "string list" where "chatBroadcastEventNames = map fst CHANNEL_KEY_OF"
definition userBroadcastEventNames :: "string list" where "userBroadcastEventNames = map fst USER_KEY_OF"
definition userFanoutEventNames :: "string list" where "userFanoutEventNames = map fst USER_LIST_KEY_OF"
definition callBroadcastEventNames :: "string list" where "callBroadcastEventNames = map fst CALL_KEY_OF"

end
