(* ===== verification/Gateway.thy ===== *)
theory Gateway
  imports Rooms Event_Rooms
begin

text \<open>
  The realtime gateway, \<open>apps/realtime/src/gateway.ts\<close> with \<open>rate-limit.ts\<close>, \<open>presence.ts\<close>,
  \<open>revocation.ts\<close> and the room names and requests of \<open>wire.ts\<close>: the sockets of one instance, the handlers
  of their messages, the sweep that follows a revocation, and the dispatch of an outbox row.

  A socket has two views of its rooms: \<open>sk_rooms\<close> is the gateway's own map from ids to organizations
  (\<open>socket.data.rooms\<close>), \<open>sk_joined\<close> the rooms of the transport, by name, that broadcasts go to. What the
  gateway sends is appended to \<open>gw_sent\<close>.
\<close>

section \<open>Rate limits\<close>

record window =
  win_count :: nat
  win_resetAt :: int

record limiter =
  lim_limit :: nat
  lim_windowMs :: int
  lim_windows :: "string \<Rightarrow> window option"

definition hit :: "string \<Rightarrow> int \<Rightarrow> limiter \<Rightarrow> bool \<times> limiter" where
  "hit key now lim =
     (let set_window = (\<lambda>w. lim\<lparr>lim_windows := (lim_windows lim)(key := Some w)\<rparr>);
          fresh = (True, set_window \<lparr>win_count = 1, win_resetAt = now + lim_windowMs lim\<rparr>) in
      case lim_windows lim key of
        None \<Rightarrow> fresh
      | Some existing \<Rightarrow>
          if now \<ge> win_resetAt existing then fresh
          else (win_count existing + 1 \<le> lim_limit lim,
                set_window (existing\<lparr>win_count := win_count existing + 1\<rparr>)))"

definition sweep_windows :: "int \<Rightarrow> limiter \<Rightarrow> limiter" where
  "sweep_windows now lim =
     lim\<lparr>lim_windows := (\<lambda>key. case lim_windows lim key of
            None \<Rightarrow> None | Some w \<Rightarrow> (if now \<ge> win_resetAt w then None else Some w))\<rparr>"

definition forget :: "string \<Rightarrow> limiter \<Rightarrow> limiter" where
  "forget key lim = lim\<lparr>lim_windows := (lim_windows lim)(key := None)\<rparr>"

section \<open>Sockets, rooms and messages\<close>

datatype namespace = Board_Ns | Chat_Ns | Rtc_Ns

datatype room_kind = Board_Room | Channel_Room | Call_Room | Rtc_Room

fun room_name :: "room_kind \<Rightarrow> string \<Rightarrow> string" where
  "room_name Board_Room i = ''board:'' @ i"
| "room_name Channel_Room i = ''channel:'' @ i"
| "room_name Call_Room i = ''call:'' @ i"
| "room_name Rtc_Room i = ''rtc:'' @ i"

definition userRoom :: "string \<Rightarrow> string" where "userRoom userId = ''user:'' @ userId"

fun namespace_of :: "room_kind \<Rightarrow> namespace" where
  "namespace_of Board_Room = Board_Ns"
| "namespace_of Channel_Room = Chat_Ns"
| "namespace_of Call_Room = Chat_Ns"
| "namespace_of Rtc_Room = Rtc_Ns"

text \<open>The kind of room a namespace's own sweep and presence are about.\<close>

fun main_room :: "namespace \<Rightarrow> room_kind" where
  "main_room Board_Ns = Board_Room"
| "main_room Chat_Ns = Channel_Room"
| "main_room Rtc_Ns = Rtc_Room"

datatype end_reason = Session_Revoked | Token_Reuse_Detected

datatype RevocationMessage =
    Revoke_Session string end_reason
  | Member_Removed string string
  | Recheck_User string string
  | Recheck_Org string

datatype refusal = Ref_Denied | Ref_Invalid | Ref_Rate_Limited

datatype message =
    Ready nat
  | Join_Ack "refusal option"
  | Closed room_kind string
  | Session_Ended end_reason
  | Presence room_kind string "string list"
  | Typing string string bool
  | Signal string string string string
  | Broadcast room_kind string OutboxRow
  | Call_State string string int
  | Call_Ringing string string string string
  | Call_Ended string string
  | Notification string

datatype audience = To_Socket string | To_Room namespace string | To_Others namespace string string

record socket =
  sk_id :: string
  sk_client :: string
  sk_userId :: string
  sk_sessionId :: string
  sk_rooms :: "(string \<times> string) list"
  sk_joined :: "string list"

record gateway =
  gw_sockets :: "namespace \<Rightarrow> socket list"
  gw_connections :: limiter
  gw_joins :: limiter
  gw_refused :: limiter
  gw_signals :: limiter
  gw_sent :: "(audience \<times> message) list"

definition send :: "audience \<Rightarrow> message \<Rightarrow> gateway \<Rightarrow> gateway" where
  "send to m gw = gw\<lparr>gw_sent := gw_sent gw @ [(to, m)]\<rparr>"

definition update_sockets :: "namespace \<Rightarrow> (socket list \<Rightarrow> socket list) \<Rightarrow> gateway \<Rightarrow> gateway" where
  "update_sockets ns change gw =
     gw\<lparr>gw_sockets := (gw_sockets gw)(ns := change (gw_sockets gw ns))\<rparr>"

definition update_socket :: "namespace \<Rightarrow> string \<Rightarrow> (socket \<Rightarrow> socket) \<Rightarrow> gateway \<Rightarrow> gateway" where
  "update_socket ns sid change =
     update_sockets ns (map (\<lambda>s. if sk_id s = sid then change s else s))"

text \<open>\<open>rooms.set\<close> and \<open>rooms.delete\<close> of an insertion-ordered map, \<open>socket.join\<close> and \<open>socket.leave\<close>.\<close>

definition map_set :: "string \<Rightarrow> string \<Rightarrow> (string \<times> string) list \<Rightarrow> (string \<times> string) list" where
  "map_set k v kvs =
     (if k \<in> fst ` set kvs then map (\<lambda>kv. if fst kv = k then (k, v) else kv) kvs else kvs @ [(k, v)])"

definition map_delete :: "string \<Rightarrow> (string \<times> string) list \<Rightarrow> (string \<times> string) list" where
  "map_delete k kvs = filter (\<lambda>kv. fst kv \<noteq> k) kvs"

definition enter :: "room_kind \<Rightarrow> string \<Rightarrow> string \<Rightarrow> socket \<Rightarrow> socket" where
  "enter kind i orgId s =
     s\<lparr>sk_rooms := map_set i orgId (sk_rooms s),
       sk_joined := List.insert (room_name kind i) (sk_joined s)\<rparr>"

definition exit_room :: "room_kind \<Rightarrow> string \<Rightarrow> socket \<Rightarrow> socket" where
  "exit_room kind i s =
     s\<lparr>sk_rooms := map_delete i (sk_rooms s),
       sk_joined := removeAll (room_name kind i) (sk_joined s)\<rparr>"

section \<open>Presence\<close>

text \<open>\<open>[...new Set(ids)]\<close> over the users of the sockets in the room.\<close>

definition members_of_room :: "room_kind \<Rightarrow> string \<Rightarrow> gateway \<Rightarrow> string list" where
  "members_of_room kind i gw =
     rev (remdups (rev (map sk_userId
       (filter (\<lambda>s. room_name kind i \<in> set (sk_joined s)) (gw_sockets gw (namespace_of kind))))))"

definition broadcast_presence :: "room_kind \<Rightarrow> string \<Rightarrow> gateway \<Rightarrow> gateway" where
  "broadcast_presence kind i gw =
     send (To_Room (namespace_of kind) (room_name kind i)) (Presence kind i (members_of_room kind i gw)) gw"

section \<open>Disconnecting\<close>

text \<open>The \<open>disconnect\<close> handler of a socket already gone: its limits are forgotten and its rooms told.\<close>

definition on_disconnect :: "namespace \<Rightarrow> socket \<Rightarrow> gateway \<Rightarrow> gateway" where
  "on_disconnect ns s gw =
     (let gw1 = gw\<lparr>gw_joins := forget (sk_id s) (gw_joins gw),
                   gw_refused := forget (sk_id s) (gw_refused gw),
                   gw_signals := (if ns = Rtc_Ns then forget (sk_id s) (gw_signals gw) else gw_signals gw)\<rparr>
      in fold (\<lambda>(i, _). broadcast_presence (main_room ns) i) (sk_rooms s) gw1)"

text \<open>\<open>disconnect(true)\<close> closes the connection of the client, with its sockets in every namespace.\<close>

definition disconnect_ns :: "string \<Rightarrow> namespace \<Rightarrow> gateway \<Rightarrow> gateway" where
  "disconnect_ns client ns gw =
     (let gone = filter (\<lambda>s. sk_client s = client) (gw_sockets gw ns) in
      fold (on_disconnect ns) gone
        (update_sockets ns (filter (\<lambda>s. sk_client s \<noteq> client)) gw))"

definition disconnect :: "string \<Rightarrow> gateway \<Rightarrow> gateway" where
  "disconnect client gw =
     disconnect_ns client Rtc_Ns (disconnect_ns client Chat_Ns (disconnect_ns client Board_Ns gw))"

section \<open>Joining and leaving\<close>

text \<open>
  The strict request objects. \<open>zod_uuid\<close> is \<open>z.string().uuid()\<close>, which the call ids are checked with; they
  keep their case.
\<close>

definition id_key :: "room_kind \<Rightarrow> string" where
  "id_key kind = (case kind of Board_Room \<Rightarrow> ''boardId'' | Channel_Room \<Rightarrow> ''channelId''
     | Call_Room \<Rightarrow> ''callId'' | Rtc_Room \<Rightarrow> ''sessionId'')"

definition parse_id :: "(string \<Rightarrow> bool) \<Rightarrow> room_kind \<Rightarrow> json \<Rightarrow> string option" where
  "parse_id zod_uuid kind v =
     (case v of
        JStr s \<Rightarrow>
          (if kind = Board_Room \<or> kind = Channel_Room then idSchema s
           else if zod_uuid s then Some s else None)
      | _ \<Rightarrow> None)"

definition parse_org :: "json \<Rightarrow> string option" where
  "parse_org v = (case v of JStr s \<Rightarrow> idSchema s | _ \<Rightarrow> None)"

definition parse_join :: "(string \<Rightarrow> bool) \<Rightarrow> room_kind \<Rightarrow> json \<Rightarrow> (string \<times> string) option" where
  "parse_join zod_uuid kind request =
     (case request of
        JObj kvs \<Rightarrow>
          (if set (map fst kvs) \<subseteq> {''orgId'', id_key kind}
           then (case (map_of kvs ''orgId'', map_of kvs (id_key kind)) of
                   (Some o', Some i) \<Rightarrow>
                     (case (parse_org o', parse_id zod_uuid kind i) of
                        (Some orgId, Some rid) \<Rightarrow> Some (orgId, rid) | _ \<Rightarrow> None)
                 | _ \<Rightarrow> None)
           else None)
      | _ \<Rightarrow> None)"

definition parse_leave :: "(string \<Rightarrow> bool) \<Rightarrow> room_kind \<Rightarrow> json \<Rightarrow> string option" where
  "parse_leave zod_uuid kind request =
     (case request of
        JObj kvs \<Rightarrow>
          (if set (map fst kvs) \<subseteq> {id_key kind}
           then (case map_of kvs (id_key kind) of Some i \<Rightarrow> parse_id zod_uuid kind i | None \<Rightarrow> None)
           else None)
      | _ \<Rightarrow> None)"

fun authorize_room ::
  "room_kind \<Rightarrow> string \<Rightarrow> string \<Rightarrow> string \<Rightarrow> int \<Rightarrow> tenancy \<Rightarrow> (room_error, JoinAuthorization) result" where
  "authorize_room Board_Room = authorizeJoin"
| "authorize_room Channel_Room = authorizeChannelJoin"
| "authorize_room Call_Room = authorizeCallJoin"
| "authorize_room Rtc_Room = authorizeRtcJoin"

text \<open>A refusal beyond the budget of the socket disconnects its client.\<close>

definition countRefusal :: "socket \<Rightarrow> int \<Rightarrow> gateway \<Rightarrow> gateway" where
  "countRefusal s now gw =
     (let (ok, lim) = hit (sk_id s) now (gw_refused gw);
          gw1 = gw\<lparr>gw_refused := lim\<rparr>
      in if ok then gw1 else disconnect (sk_client s) gw1)"

definition ack :: "socket \<Rightarrow> refusal option \<Rightarrow> gateway \<Rightarrow> gateway" where
  "ack s refusal gw = send (To_Socket (sk_id s)) (Join_Ack refusal) gw"

text \<open>
  The handler of a join up to its \<open>await\<close> of the transport: it has answered a refusal, or it goes on, or
  its promise is rejected with the error of the authorization, which nothing catches.
\<close>

datatype join_outcome = Refused | Goes_On string string | Unhandled_Rejection room_error

definition join_decide ::
  "(string \<Rightarrow> bool) \<Rightarrow> room_kind \<Rightarrow> socket \<Rightarrow> json \<Rightarrow> int \<Rightarrow> tenancy \<Rightarrow> gateway \<Rightarrow> join_outcome \<times> gateway" where
  "join_decide zod_uuid kind s request now t gw =
     (let (ok, lim) = hit (sk_id s) now (gw_joins gw);
          gw1 = gw\<lparr>gw_joins := lim\<rparr>
      in if \<not> ok then (Refused, ack s (Some Ref_Rate_Limited) gw1)
         else
           (case parse_join zod_uuid kind request of
              None \<Rightarrow> (Refused, ack s (Some Ref_Invalid) (countRefusal s now gw1))
            | Some (orgId, i) \<Rightarrow>
                (case authorize_room kind (sk_userId s) orgId i now t of
                   Inl e \<Rightarrow> (Unhandled_Rejection e, gw1)
                 | Inr outcome \<Rightarrow>
                     if \<not> ja_allowed outcome
                     then (Refused, ack s (Some Ref_Denied) (countRefusal s now gw1))
                     else (Goes_On orgId i, gw1))))"

text \<open>The rest of the handler; the room of a phone call has no presence.\<close>

definition join_complete :: "room_kind \<Rightarrow> socket \<Rightarrow> string \<Rightarrow> string \<Rightarrow> gateway \<Rightarrow> gateway" where
  "join_complete kind s orgId i gw =
     (let gw1 = ack s None (update_socket (namespace_of kind) (sk_id s) (enter kind i orgId) gw)
      in if kind = Call_Room then gw1 else broadcast_presence kind i gw1)"

definition join_room ::
  "(string \<Rightarrow> bool) \<Rightarrow> room_kind \<Rightarrow> socket \<Rightarrow> json \<Rightarrow> int \<Rightarrow> tenancy \<Rightarrow> gateway \<Rightarrow> gateway" where
  "join_room zod_uuid kind s request now t gw =
     (case join_decide zod_uuid kind s request now t gw of
        (Goes_On orgId i, gw1) \<Rightarrow> join_complete kind s orgId i gw1
      | (_, gw1) \<Rightarrow> gw1)"

definition leave_request ::
  "(string \<Rightarrow> bool) \<Rightarrow> room_kind \<Rightarrow> socket \<Rightarrow> json \<Rightarrow> gateway \<Rightarrow> gateway" where
  "leave_request zod_uuid kind s request gw =
     (case parse_leave zod_uuid kind request of
        None \<Rightarrow> gw
      | Some i \<Rightarrow>
          (let gw1 = update_socket (namespace_of kind) (sk_id s) (exit_room kind i) gw
           in if kind = Call_Room then gw1 else broadcast_presence kind i gw1))"

section \<open>Connecting\<close>

text \<open>
  A handshake that \<open>authenticate\<close> let through (or not: too many from one address). \<open>lead\<close> is the reauth
  lead time of the environment.
\<close>

definition connect ::
  "namespace \<Rightarrow> string \<Rightarrow> string \<Rightarrow> string \<times> string \<Rightarrow> string \<Rightarrow> nat \<Rightarrow> int \<Rightarrow> gateway \<Rightarrow> gateway" where
  "connect ns sid client identity address lead now gw =
     (let (ok, lim) = hit address now (gw_connections gw);
          gw1 = gw\<lparr>gw_connections := lim\<rparr>;
          s = \<lparr>sk_id = sid, sk_client = client, sk_userId = fst identity, sk_sessionId = snd identity,
               sk_rooms = [], sk_joined = (if ns = Board_Ns then [userRoom (fst identity)] else [])\<rparr>
      in if \<not> ok then gw1
         else send (To_Socket sid) (Ready lead) (update_sockets ns (\<lambda>ss. ss @ [s]) gw1))"

section \<open>Messages between sockets\<close>

definition relayTyping :: "socket \<Rightarrow> json \<Rightarrow> bool \<Rightarrow> gateway \<Rightarrow> gateway" where
  "relayTyping s request typing gw =
     (case parse_leave (\<lambda>_. True) Channel_Room request of
        None \<Rightarrow> gw
      | Some i \<Rightarrow>
          if i \<notin> fst ` set (sk_rooms s) then gw
          else send (To_Others Chat_Ns (room_name Channel_Room i) (sk_id s)) (Typing i (sk_userId s) typing) gw)"

record RtcSignalRequest =
  sg_sessionId :: string
  sg_to :: string
  sg_kind :: string
  sg_data :: string

text \<open>The handler of \<open>rtc:signal\<close> on a request its schema accepted.\<close>

definition rtc_signal :: "socket \<Rightarrow> RtcSignalRequest \<Rightarrow> int \<Rightarrow> gateway \<Rightarrow> gateway" where
  "rtc_signal s request now gw =
     (if sg_sessionId request \<notin> fst ` set (sk_rooms s) then gw
      else
        (let (ok, lim) = hit (sk_id s) now (gw_signals gw);
             gw1 = gw\<lparr>gw_signals := lim\<rparr>;
             targets = filter (\<lambda>p. room_name Rtc_Room (sg_sessionId request) \<in> set (sk_joined p) \<and>
                                   sk_userId p = sg_to request \<and> sk_id p \<noteq> sk_id s) (gw_sockets gw1 Rtc_Ns)
         in if \<not> ok then gw1
            else fold (\<lambda>p. send (To_Socket (sk_id p))
                   (Signal (sg_sessionId request) (sk_userId s) (sg_kind request) (sg_data request))) targets gw1))"

section \<open>Revocation\<close>

definition revocationOf :: "OutboxRow \<Rightarrow> RevocationMessage option" where
  "revocationOf row =
     (let text = (\<lambda>key. text_field key (ob_payload row)) in
      if \<not> (case ob_payload row of JObj _ \<Rightarrow> True | JArr _ \<Rightarrow> True | _ \<Rightarrow> False) then None
      else if ob_name row = ''session.revoked''
      then map_option (\<lambda>i. Revoke_Session i Session_Revoked) (text ''sessionId'')
      else if ob_name row = ''session.token_reuse_detected''
      then map_option (\<lambda>i. Revoke_Session i Token_Reuse_Detected) (text ''sessionId'')
      else if ob_name row = ''member.removed''
      then map_option (Member_Removed (ob_orgId row)) (text ''userId'')
      else if ob_name row = ''member.role_changed''
      then map_option (Recheck_User (ob_orgId row)) (text ''userId'')
      else if ob_name row = ''grant.revoked''
      then (if json_field ''subjectType'' (ob_payload row) = Some (JStr ''team'')
            then Some (Recheck_Org (ob_orgId row))
            else (case text ''subjectId'' of
                    None \<Rightarrow> Some (Recheck_Org (ob_orgId row))
                  | Some u \<Rightarrow> Some (Recheck_User (ob_orgId row) u)))
      else None)"

text \<open>\<open>leaveRoom\<close>, \<open>leaveChannel\<close> and \<open>leaveRtcRoom\<close>; a channel's presence is not broadcast.\<close>

definition force_leave :: "namespace \<Rightarrow> string \<Rightarrow> string \<Rightarrow> gateway \<Rightarrow> gateway" where
  "force_leave ns sid i gw =
     (let kind = main_room ns;
          gw1 = send (To_Socket sid) (Closed kind i) (update_socket ns sid (exit_room kind i) gw)
      in if ns = Chat_Ns then gw1 else broadcast_presence kind i gw1)"

text \<open>One room of \<open>recheck\<close>, \<open>recheckChannels\<close> and \<open>recheckCalls\<close>: the keys are parsed again, and an error closes.\<close>

definition still_allowed :: "namespace \<Rightarrow> string \<Rightarrow> int \<Rightarrow> tenancy \<Rightarrow> string \<times> string \<Rightarrow> bool" where
  "still_allowed ns userId now t entry =
     (case (idSchema (snd entry), if ns = Rtc_Ns then Some (fst entry) else idSchema (fst entry)) of
        (Some orgId, Some i) \<Rightarrow>
          (case authorize_room (main_room ns) userId orgId i now t of
             Inl _ \<Rightarrow> False | Inr outcome \<Rightarrow> ja_allowed outcome)
      | _ \<Rightarrow> False)"

definition recheck :: "namespace \<Rightarrow> socket \<Rightarrow> string \<Rightarrow> int \<Rightarrow> tenancy \<Rightarrow> gateway \<Rightarrow> gateway" where
  "recheck ns s orgId now t gw =
     fold (\<lambda>entry gw. if snd entry = orgId \<and> \<not> still_allowed ns (sk_userId s) now t entry
                     then force_leave ns (sk_id s) (fst entry) gw else gw) (sk_rooms s) gw"

definition sweep_socket ::
  "namespace \<Rightarrow> RevocationMessage \<Rightarrow> int \<Rightarrow> tenancy \<Rightarrow> socket \<Rightarrow> gateway \<Rightarrow> gateway" where
  "sweep_socket ns message now t s gw =
     (case message of
        Revoke_Session sessionId reason \<Rightarrow>
          if sk_sessionId s \<noteq> sessionId then gw
          else disconnect (sk_client s) (send (To_Socket (sk_id s)) (Session_Ended reason) gw)
      | Member_Removed orgId userId \<Rightarrow>
          if sk_userId s \<noteq> userId then gw
          else fold (\<lambda>entry gw. if snd entry = orgId then force_leave ns (sk_id s) (fst entry) gw else gw)
                 (sk_rooms s) gw
      | Recheck_User orgId userId \<Rightarrow>
          if sk_userId s \<noteq> userId then gw else recheck ns s orgId now t gw
      | Recheck_Org orgId \<Rightarrow> recheck ns s orgId now t gw)"

text \<open>\<open>applyRevocation\<close>, \<open>applyChatRevocation\<close> and \<open>applyRtcRevocation\<close>: the sockets are those at the start.\<close>

definition apply_revocation ::
  "namespace \<Rightarrow> RevocationMessage \<Rightarrow> int \<Rightarrow> tenancy \<Rightarrow> gateway \<Rightarrow> gateway" where
  "apply_revocation ns message now t gw = fold (sweep_socket ns message now t) (gw_sockets gw ns) gw"

definition sweep :: "RevocationMessage \<Rightarrow> int \<Rightarrow> tenancy \<Rightarrow> gateway \<Rightarrow> gateway" where
  "sweep message now t gw =
     apply_revocation Rtc_Ns message now t
       (apply_revocation Chat_Ns message now t (apply_revocation Board_Ns message now t gw))"

section \<open>Dispatching an outbox row\<close>

definition any_text :: "string \<Rightarrow> json \<Rightarrow> string option" where
  "any_text key payload = (case json_field key payload of Some (JStr s) \<Rightarrow> Some s | _ \<Rightarrow> None)"

definition ring :: "OutboxRow \<Rightarrow> string \<Rightarrow> gateway \<Rightarrow> gateway" where
  "ring row userId gw =
     (let text = (\<lambda>key. any_text key (ob_payload row));
          to = To_Room Board_Ns (userRoom userId) in
      if ob_name row = ''rtc_session.started''
      then (case (text ''sessionId'', text ''channelId'', ob_actorId row) of
              (Some i, Some c, Some a) \<Rightarrow>
                send to (Call_Ringing i c a (case text ''kind'' of Some k \<Rightarrow> k | None \<Rightarrow> ''audio'')) gw
            | _ \<Rightarrow> gw)
      else (case text ''sessionId'' of
              None \<Rightarrow> gw
            | Some i \<Rightarrow>
                send to (Call_Ended i (case text ''reason'' of Some r \<Rightarrow> r | None \<Rightarrow> ''ended'')) gw))"

definition to_channel :: "OutboxRow \<Rightarrow> gateway \<Rightarrow> gateway" where
  "to_channel row gw =
     (case roomChannelIdOf (ob_name row) (ob_payload row) of
        None \<Rightarrow> gw
      | Some i \<Rightarrow> send (To_Room Chat_Ns (room_name Channel_Room i)) (Broadcast Channel_Room i row) gw)"

definition to_call :: "OutboxRow \<Rightarrow> gateway \<Rightarrow> gateway" where
  "to_call row gw =
     (case (roomCallIdOf (ob_name row) (ob_payload row), any_text ''status'' (ob_payload row)) of
        (Some i, Some status) \<Rightarrow>
          send (To_Room Chat_Ns (room_name Call_Room i)) (Call_State i status (ob_occurredAt row)) gw
      | _ \<Rightarrow> gw)"

definition to_user :: "OutboxRow \<Rightarrow> gateway \<Rightarrow> gateway" where
  "to_user row gw =
     (case (roomUserIdOf (ob_name row) (ob_payload row), any_text ''notificationId'' (ob_payload row)) of
        (Some u, Some n) \<Rightarrow> send (To_Room Board_Ns (userRoom u)) (Notification n) gw
      | _ \<Rightarrow> gw)"

definition to_board :: "OutboxRow \<Rightarrow> gateway \<Rightarrow> gateway" where
  "to_board row gw =
     (case roomBoardIdOf (ob_name row) (ob_payload row) of
        None \<Rightarrow> gw
      | Some i \<Rightarrow> send (To_Room Board_Ns (room_name Board_Room i)) (Broadcast Board_Room i row) gw)"

definition dispatch :: "OutboxRow \<Rightarrow> int \<Rightarrow> tenancy \<Rightarrow> gateway \<Rightarrow> gateway" where
  "dispatch row now t gw =
     (let gw1 = (case revocationOf row of None \<Rightarrow> gw | Some message \<Rightarrow> sweep message now t gw);
          gw2 = to_call row (to_channel row gw1);
          gw3 = fold (ring row) (roomUserIdsOf (ob_name row) (ob_payload row)) gw2
      in to_board row (to_user row gw3))"

end
