(* ===== verification/Room_Access.thy ===== *)
theory Room_Access
  imports Gateway Policy_Correct
begin

text \<open>
  What decides whether a socket may be in the room of a board or a channel, and what each tenancy
  service does to it: the membership of the user, its role, and the relations of the user and the
  user's teams. Every service is shown to keep the access of everybody its event does not name.
\<close>

section \<open>Ids\<close>

lemma lower_char_idem [simp]: "lower_char (lower_char c) = lower_char c"
proof -
  have "(of_char c :: nat) < 256" by simp
  then show ?thesis by (auto simp: lower_char_def Let_def)
qed

lemma hex_char_lower: "hex_char c \<Longrightarrow> hex_char (lower_char c)"
  by (auto simp: hex_char_def between_chars_def less_eq_char_def lower_char_def Let_def)

lemma pattern_match_lower:
  "(\<And>p c. p \<in> set ps \<Longrightarrow> p c \<Longrightarrow> p (lower_char c)) \<Longrightarrow> pattern_match ps s \<Longrightarrow> pattern_match ps (to_lower s)"
  by (induction ps s rule: pattern_match.induct) auto

lemma lower_AB: "lower_char (CHR ''A'') = CHR ''a''" "lower_char (CHR ''B'') = CHR ''b''"
  by code_simp+

lemma UUID_lower: "p \<in> set UUID \<Longrightarrow> p c \<Longrightarrow> p (lower_char c)"
  by (auto simp: UUID_def hex_char_lower lower_AB)
    (auto simp: between_chars_def less_eq_char_def lower_char_def Let_def)

lemma idSchema_idem: "idSchema i = Some j \<Longrightarrow> idSchema j = Some j"
  by (auto simp: idSchema_def isValidId_def pattern_match_lower UUID_lower split: if_splits)

section \<open>Reading\<close>

text \<open>Every relation gives the read permission of a board and of a channel, and so does every role but guest.\<close>

lemma relations_read: "relationGrants r ''board:read''" "relationGrants r ''channel:read''"
proof -
  have "list_all (\<lambda>r. relationGrants r ''board:read'' \<and> relationGrants r ''channel:read'') RELATIONS"
    by code_simp
  moreover have "r \<in> set RELATIONS" by (cases r) (simp_all add: RELATIONS_def)
  ultimately show "relationGrants r ''board:read''" "relationGrants r ''channel:read''"
    by (simp_all add: list_all_iff)
qed

definition full_member :: "string \<Rightarrow> bool" where
  "full_member role = (role = ''owner'' \<or> role = ''admin'' \<or> role = ''member'')"

lemma perms_read: "isPermission ''board:read''" "isPermission ''channel:read''"
  by code_simp+

lemma roles_read:
  "roleGrants role ''board:read'' \<longleftrightarrow> full_member role" "roleGrants role ''channel:read'' \<longleftrightarrow> full_member role"
proof -
  have "''board:read'' \<in> set ADMIN \<and> ''channel:read'' \<in> set ADMIN \<and>
      ''board:read'' \<in> set MEMBER \<and> ''channel:read'' \<in> set MEMBER"
    by code_simp
  then show "roleGrants role ''board:read'' \<longleftrightarrow> full_member role"
    "roleGrants role ''channel:read'' \<longleftrightarrow> full_member role"
    using perms_read by (simp_all only: roleGrants_eq full_member_def simp_thms)
qed

definition reads :: "OrgMembership \<Rightarrow> Target \<Rightarrow> bool" where
  "reads m target \<longleftrightarrow> isRole (om_role m) \<and> tgt_orgId target = om_orgId m \<and>
     ((\<exists>u \<in> set (om_tuples m). tup_object u \<in> set (chain_of target)) \<or>
      tgt_closed target \<noteq> Some True \<and> full_member (om_role m))"

lemma nearest_nonempty:
  "nearestApplicable ts target \<noteq> [] \<longleftrightarrow> (\<exists>u \<in> set ts. tup_object u \<in> set (chain_of target))"
  by (auto simp: nearestApplicable_def nearest_in_Nil_iff held_def filter_empty_conv)

lemma can_reads:
  assumes "p = ''board:read'' \<or> p = ''channel:read''"
  shows "dec_allowed (can (join_subject u m) p (Some target)) \<longleftrightarrow> reads m target"
proof -
  have perm: "isPermission p" using assms perms_read by (elim disjE) simp_all
  have rel: "relationGrants r p" for r using assms relations_read by (elim disjE) (simp_all only:)
  have role: "roleGrants r p \<longleftrightarrow> full_member r" for r using assms roles_read by (elim disjE) (simp_all only:)
  have standing: "standing (join_subject u m) p \<longleftrightarrow> full_member (om_role m)"
    by (simp add: standing_def role hasMemberGrant_def join_subject_def)
  show ?thesis
  proof (cases "nearestApplicable (om_tuples m) target = []")
    case True
    then show ?thesis using nearest_nonempty [of "om_tuples m" target] perm standing
      by (auto simp: can_allowed_iff policy_allows_def reads_def join_subject_def)
  next
    case False
    then show ?thesis using nearest_nonempty [of "om_tuples m" target] perm
      by (auto simp: can_allowed_iff policy_allows_def reads_def join_subject_def relation_allows_def rel
          Let_def)
  qed
qed

text \<open>The membership a join is decided on, when there is one.\<close>

definition access :: "string \<Rightarrow> string \<Rightarrow> int \<Rightarrow> tenancy \<Rightarrow> OrgMembership option" where
  "access userId orgId now t =
     (case resolveOrgMembership userId orgId now t of Inr (Some m) \<Rightarrow> Some m | _ \<Rightarrow> None)"

definition room_target :: "namespace \<Rightarrow> string \<Rightarrow> string \<Rightarrow> tenancy \<Rightarrow> Target option" where
  "room_target ns orgId i t =
     (case ns of
        Board_Ns \<Rightarrow>
          (case loadBoard orgId i (work t) of
             Inl _ \<Rightarrow> None
           | Inr board \<Rightarrow> map_option (\<lambda>rowOrg.
               \<lparr>tgt_orgId = rowOrg, tgt_resource = ref_to ''board'' i,
                tgt_ancestors = Some [ref_to ''project'' (b_projectId board)], tgt_closed = None\<rparr>)
               (idSchema (b_orgId board)))
      | Chat_Ns \<Rightarrow>
          (case loadChannel orgId i t of
             Inl _ \<Rightarrow> None
           | Inr channel \<Rightarrow> map_option (\<lambda>rowOrg. channelTarget (channel\<lparr>ch_orgId := rowOrg\<rparr>))
               (idSchema (ch_orgId channel)))
      | Rtc_Ns \<Rightarrow> None)"

lemma authorize_room_iff:
  assumes "ns \<noteq> Rtc_Ns"
  shows "(case authorize_room (main_room ns) u orgId i now t of Inl _ \<Rightarrow> False | Inr a \<Rightarrow> ja_allowed a) \<longleftrightarrow>
    (\<exists>m target. access u orgId now t = Some m \<and> room_target ns orgId i t = Some target \<and> reads m target)"
proof (cases ns)
  case Board_Ns
  then show ?thesis
    by (auto simp: authorizeJoin_def as_member_def access_def room_target_def parsed_org_def refused_def
        decided_def can_reads split: sum.splits option.splits)
next
  case Chat_Ns
  then show ?thesis
    by (auto simp: authorizeChannelJoin_def as_member_def access_def room_target_def parsed_org_def refused_def
        decided_def can_reads split: sum.splits option.splits)
qed (use assms in simp)

lemma still_allowed_iff:
  assumes "ns \<noteq> Rtc_Ns"
  shows "still_allowed ns u now t (i, org) \<longleftrightarrow>
    (\<exists>org' i' m target. idSchema org = Some org' \<and> idSchema i = Some i' \<and> access u org' now t = Some m \<and>
       room_target ns org' i' t = Some target \<and> reads m target)"
  using assms authorize_room_iff [OF assms, of u]
  by (auto simp: still_allowed_def split: option.splits)

section \<open>What a membership is resolved from\<close>

lemma member_of_filter:
  "filter (\<lambda>m. mb_orgId m = orgId \<and> mb_userId m = userId) (members t) = m # ms \<Longrightarrow>
     member_of orgId userId t = Some m"
  "filter (\<lambda>m. mb_orgId m = orgId \<and> mb_userId m = userId) (members t) = [] \<longleftrightarrow>
     member_of orgId userId t = None"
proof -
  have *: "find P xs = (case filter P xs of [] \<Rightarrow> None | x # _ \<Rightarrow> Some x)" for P and xs :: "MemberRow list"
    by (induction xs) auto
  show "filter (\<lambda>m. mb_orgId m = orgId \<and> mb_userId m = userId) (members t) = m # ms \<Longrightarrow>
      member_of orgId userId t = Some m"
    "filter (\<lambda>m. mb_orgId m = orgId \<and> mb_userId m = userId) (members t) = [] \<longleftrightarrow>
      member_of orgId userId t = None"
    by (auto simp: member_of_def * split: list.splits)
qed

definition org_open :: "string \<Rightarrow> tenancy \<Rightarrow> bool" where
  "org_open orgId t =
     (map_option o_status (find (\<lambda>o'. o_id o' = orgId) (orgs t)) \<notin> {Some ''suspended'', Some ''deleted''})"

definition active_member :: "MemberRow \<Rightarrow> bool" where
  "active_member m = (mb_status m = ''active'' \<and> isRole (mb_role m))"

lemma access_iff:
  "access u org now t = Some m \<longleftrightarrow>
     (\<exists>orgId row. idSchema org = Some orgId \<and> member_of orgId u t = Some row \<and> active_member row \<and>
        org_open orgId t \<and>
        m = \<lparr>om_orgId = orgId, om_role = mb_role row, om_tuples = loadTuples orgId u now t,
             om_memberGrants = loadMemberGrants orgId (mb_id row) t\<rparr>)"
proof (cases "idSchema org")
  case None
  then show ?thesis by (simp add: access_def resolveOrgMembership_def)
next
  case (Some orgId)
  show ?thesis
  proof (cases "filter (\<lambda>m. mb_orgId m = orgId \<and> mb_userId m = u) (members t)")
    case Nil
    then have "member_of orgId u t = None" by (rule member_of_filter(2) [THEN iffD1])
    then show ?thesis using Some Nil by (auto simp: access_def resolveOrgMembership_def)
  next
    case (Cons row rows)
    then have "member_of orgId u t = Some row" by (rule member_of_filter(1))
    then show ?thesis using Some Cons
      by (auto simp: access_def resolveOrgMembership_def active_member_def org_open_def Let_def)
  qed
qed

text \<open>The relations of a user, as a set.\<close>

definition relates :: "string \<Rightarrow> string \<Rightarrow> int \<Rightarrow> tenancy \<Rightarrow> TupleRow \<Rightarrow> bool" where
  "relates orgId u now t p \<longleftrightarrow>
     p \<in> set (tuples t) \<and> tp_orgId p = orgId \<and> subject_match u (team_ids orgId u t) p \<and> unexpired now p"

definition relation_of_row :: "string \<Rightarrow> TupleRow \<Rightarrow> RelationshipTuple option" where
  "relation_of_row u p =
     map_option (\<lambda>r. \<lparr>tup_subject = u, tup_relation = r, tup_object = ref_to (tp_objectType p) (tp_objectId p)\<rparr>)
       (relation_of_name (tp_relation p))"

lemma set_map_filter: "set (List.map_filter f xs) = {y. \<exists>x \<in> set xs. f x = Some y}"
  by (induction xs) (auto split: option.splits)

lemma set_loadTuples:
  "set (loadTuples orgId u now t) = {r. \<exists>p. relates orgId u now t p \<and> relation_of_row u p = Some r}"
  unfolding loadTuples_def Let_def set_map_filter by (auto simp: relates_def relation_of_row_def)

section \<open>Keeping access\<close>

text \<open>
  \<open>keeps u org t t'\<close>: whatever \<open>u\<close> could read in \<open>org\<close> before, at any time, it can read after, at any time.
\<close>

definition covers :: "OrgMembership \<Rightarrow> OrgMembership \<Rightarrow> bool" where
  "covers m m' \<longleftrightarrow> om_orgId m' = om_orgId m \<and> isRole (om_role m') \<and>
     set (om_tuples m) \<subseteq> set (om_tuples m') \<and> (full_member (om_role m) \<longrightarrow> full_member (om_role m'))"

definition keeps :: "string \<Rightarrow> string \<Rightarrow> tenancy \<Rightarrow> tenancy \<Rightarrow> bool" where
  "keeps u org t t' \<longleftrightarrow> (\<forall>now now' m. access u org now t = Some m \<longrightarrow>
     (\<exists>m'. access u org now' t' = Some m' \<and> covers m m'))"

lemma reads_covers: "covers m m' \<Longrightarrow> reads m target \<Longrightarrow> reads m' target"
  by (auto simp: covers_def reads_def)

lemma still_allowed_keeps:
  assumes "ns \<noteq> Rtc_Ns" "work t' = work t" "channels t' = channels t"
    and "\<And>org'. idSchema org = Some org' \<Longrightarrow> keeps u org' t t'"
    and "still_allowed ns u now t (i, org)"
  shows "still_allowed ns u now' t' (i, org)"
proof -
  have same: "room_target ns o' i' t' = room_target ns o' i' t" for o' i'
    using assms(2,3) by (cases ns) (simp_all add: room_target_def loadChannel_def)
  obtain org' i' m target where *: "idSchema org = Some org'" "idSchema i = Some i'"
    "access u org' now t = Some m" "room_target ns org' i' t = Some target" "reads m target"
    using assms(5) by (auto simp: still_allowed_iff [OF assms(1)])
  then obtain m' where "access u org' now' t' = Some m'" "covers m m'"
    using assms(4) [OF *(1)] *(3) unfolding keeps_def by blast
  then show ?thesis using * reads_covers by (auto simp: still_allowed_iff [OF assms(1)] same)
qed

definition no_expiry :: "tenancy \<Rightarrow> bool" where
  "no_expiry t \<longleftrightarrow> (\<forall>p \<in> set (tuples t). tp_expiresAt p = None)"

text \<open>Access is kept when the rows it rests on are.\<close>

lemma keepsI:
  assumes "orgs t' = orgs t" "no_expiry t'"
    and "\<And>orgId row. idSchema org = Some orgId \<Longrightarrow> member_of orgId u t = Some row \<Longrightarrow> active_member row \<Longrightarrow>
      \<exists>row'. member_of orgId u t' = Some row' \<and> active_member row' \<and>
             (full_member (mb_role row) \<longrightarrow> full_member (mb_role row'))"
    and "\<And>orgId p. idSchema org = Some orgId \<Longrightarrow> p \<in> set (tuples t) \<Longrightarrow> tp_orgId p = orgId \<Longrightarrow>
      subject_match u (team_ids orgId u t) p \<Longrightarrow>
      p \<in> set (tuples t') \<and> subject_match u (team_ids orgId u t') p"
  shows "keeps u org t t'"
  unfolding keeps_def
proof (intro allI impI)
  fix now now' m
  assume "access u org now t = Some m"
  then obtain orgId row where *: "idSchema org = Some orgId" "member_of orgId u t = Some row"
    "active_member row" "org_open orgId t"
    "om_orgId m = orgId" "om_role m = mb_role row" "om_tuples m = loadTuples orgId u now t"
    by (auto simp: access_iff)
  then obtain row' where row': "member_of orgId u t' = Some row'" "active_member row'"
    "full_member (mb_role row) \<longrightarrow> full_member (mb_role row')"
    using assms(3) by blast
  have "relates orgId u now' t' p" if "relates orgId u now t p" for p
    using that assms(2) assms(4) [OF *(1), of p] by (auto simp: relates_def no_expiry_def unexpired_def)
  then have "set (loadTuples orgId u now t) \<subseteq> set (loadTuples orgId u now' t')"
    by (auto simp: set_loadTuples)
  then show "\<exists>m'. access u org now' t' = Some m' \<and> covers m m'"
    using * row' assms(1) by (auto simp: access_iff covers_def org_open_def active_member_def)
qed

lemma keepsI_same:
  assumes "orgs t' = orgs t" "no_expiry t'" "members t' = members t" "set (tuples t) \<subseteq> set (tuples t')"
    and "\<And>orgId. set (team_ids orgId u t) \<subseteq> set (team_ids orgId u t')"
  shows "keeps u org t t'"
  using assms by (intro keepsI) (auto simp: member_of_def subject_match_def)

end
