(* ===== verification/Gateway_Sweep.thy ===== *)
theory Gateway_Sweep
  imports Gateway
begin

text \<open>
  What the operations of the gateway do to its sockets. What is sent, the limits and the presence
  broadcasts leave them alone; leaving a room changes one socket; a sweep changes every socket of a
  namespace at once, each by the rooms it loses.
\<close>

named_theorems gateway_facts \<open>what an operation does to the sockets\<close>

section \<open>Operations that leave the sockets alone\<close>

lemma send_sockets [gateway_facts]: "gw_sockets (send to m gw) = gw_sockets gw"
  by (simp add: send_def)

lemma broadcast_presence_sockets [gateway_facts]:
  "gw_sockets (broadcast_presence kind i gw) = gw_sockets gw"
  by (simp add: broadcast_presence_def send_sockets)

lemma ack_sockets [gateway_facts]: "gw_sockets (ack s refusal gw) = gw_sockets gw"
  by (simp add: ack_def send_sockets)

lemma fold_sockets:
  "(\<And>x gw. gw_sockets (g x gw) = gw_sockets gw) \<Longrightarrow> gw_sockets (fold g xs gw) = gw_sockets gw"
  by (induction xs arbitrary: gw) auto

lemma on_disconnect_sockets [gateway_facts]: "gw_sockets (on_disconnect ns s gw) = gw_sockets gw"
  by (simp add: on_disconnect_def Let_def fold_sockets broadcast_presence_sockets split: prod.splits)

lemma to_rooms_sockets [gateway_facts]:
  "gw_sockets (to_channel row gw) = gw_sockets gw" "gw_sockets (to_call row gw) = gw_sockets gw"
  "gw_sockets (to_user row gw) = gw_sockets gw" "gw_sockets (to_board row gw) = gw_sockets gw"
  "gw_sockets (ring row u gw) = gw_sockets gw"
  by (simp_all add: to_channel_def to_call_def to_user_def to_board_def ring_def Let_def send_sockets
      split: option.splits prod.splits)

lemma relayTyping_sockets [gateway_facts]: "gw_sockets (relayTyping s request typing gw) = gw_sockets gw"
  by (simp add: relayTyping_def send_sockets split: option.splits)

lemma rtc_signal_sockets [gateway_facts]: "gw_sockets (rtc_signal s request now gw) = gw_sockets gw"
  by (auto simp: rtc_signal_def Let_def send_sockets fold_sockets split: prod.splits)

lemma dispatch_sockets:
  "gw_sockets (dispatch row now t gw) =
     gw_sockets (case revocationOf row of None \<Rightarrow> gw | Some message \<Rightarrow> sweep message now t gw)"
  by (simp add: dispatch_def Let_def gateway_facts fold_sockets)

section \<open>Disconnecting\<close>

lemma disconnect_ns_sockets:
  "gw_sockets (disconnect_ns client ns gw) =
     (gw_sockets gw)(ns := filter (\<lambda>s. sk_client s \<noteq> client) (gw_sockets gw ns))"
  by (simp add: disconnect_ns_def Let_def fold_sockets on_disconnect_sockets update_sockets_def)

lemma disconnect_sockets [gateway_facts]:
  "gw_sockets (disconnect client gw) ns = filter (\<lambda>s. sk_client s \<noteq> client) (gw_sockets gw ns)"
  by (cases ns) (simp_all add: disconnect_def disconnect_ns_sockets)

lemma countRefusal_sockets:
  "gw_sockets (countRefusal s now gw) ns =
     filter (\<lambda>x. fst (hit (sk_id s) now (gw_refused gw)) \<or> sk_client x \<noteq> sk_client s) (gw_sockets gw ns)"
  by (simp add: countRefusal_def Let_def gateway_facts split: prod.splits)

section \<open>Leaving a room\<close>

lemma update_socket_sockets [gateway_facts]:
  "gw_sockets (update_socket ns sid change gw) =
     (gw_sockets gw)(ns := map (\<lambda>s. if sk_id s = sid then change s else s) (gw_sockets gw ns))"
  by (simp add: update_socket_def update_sockets_def)

lemma force_leave_sockets:
  "gw_sockets (force_leave ns sid i gw) =
     (gw_sockets gw)(ns := map (\<lambda>s. if sk_id s = sid then exit_room (main_room ns) i s else s) (gw_sockets gw ns))"
  by (cases ns) (auto simp: force_leave_def Let_def gateway_facts)

text \<open>The rooms of a socket after it has left some: its entries and the rooms of the transport go together.\<close>

definition without :: "room_kind \<Rightarrow> string set \<Rightarrow> socket \<Rightarrow> socket" where
  "without kind gone s =
     s\<lparr>sk_rooms := filter (\<lambda>e. fst e \<notin> gone) (sk_rooms s),
       sk_joined := filter (\<lambda>r. r \<notin> room_name kind ` gone) (sk_joined s)\<rparr>"

lemma without_same [simp]:
  "sk_id (without kind gone s) = sk_id s" "sk_client (without kind gone s) = sk_client s"
  "sk_userId (without kind gone s) = sk_userId s" "sk_sessionId (without kind gone s) = sk_sessionId s"
  by (simp_all add: without_def)

lemma without_empty [simp]: "without kind {} s = s"
  by (simp add: without_def)

lemma room_name_inj [simp]: "room_name kind i = room_name kind j \<longleftrightarrow> i = j"
  by (cases kind) simp_all

lemma exit_room_without: "exit_room kind i (without kind gone s) = without kind (insert i gone) s"
proof -
  have "filter (\<lambda>e. fst e \<noteq> i) (filter (\<lambda>e. fst e \<notin> gone) es) = filter (\<lambda>e. fst e \<notin> insert i gone) es"
    for es :: "(string \<times> string) list"
    by (simp add: conj_commute)
  moreover have "removeAll (room_name kind i) (filter (\<lambda>r. r \<notin> room_name kind ` gone) rs) =
      filter (\<lambda>r. r \<notin> room_name kind ` insert i gone) rs" for rs
    by (induction rs) auto
  ultimately show ?thesis by (simp add: exit_room_def without_def map_delete_def)
qed

lemma force_leave_fold:
  "gw_sockets (fold (\<lambda>e gw. if P e then force_leave ns sid (fst e) gw else gw) es gw) =
     (gw_sockets gw)(ns := map (\<lambda>s. if sk_id s = sid then without (main_room ns) (fst ` {e \<in> set es. P e}) s else s)
        (gw_sockets gw ns))"
proof (induction es arbitrary: gw rule: rev_induct)
  case Nil
  then show ?case by (simp add: fun_upd_idem map_idI)
next
  case (snoc e es)
  have "{x \<in> set (es @ [e]). P x} = (if P e then insert e {x \<in> set es. P x} else {x \<in> set es. P x})"
    by auto
  then show ?case using snoc
    by (auto simp: force_leave_sockets exit_room_without fun_eq_iff)
qed

section \<open>A sweep\<close>

text \<open>The entries a message closes on a socket.\<close>

definition drops ::
  "namespace \<Rightarrow> RevocationMessage \<Rightarrow> int \<Rightarrow> tenancy \<Rightarrow> socket \<Rightarrow> string \<times> string \<Rightarrow> bool" where
  "drops ns message now t s entry =
     (case message of
        Revoke_Session sessionId reason \<Rightarrow> False
      | Member_Removed orgId userId \<Rightarrow> sk_userId s = userId \<and> snd entry = orgId
      | Recheck_User orgId userId \<Rightarrow>
          sk_userId s = userId \<and> snd entry = orgId \<and> \<not> still_allowed ns (sk_userId s) now t entry
      | Recheck_Org orgId \<Rightarrow> snd entry = orgId \<and> \<not> still_allowed ns (sk_userId s) now t entry)"

definition swept :: "namespace \<Rightarrow> RevocationMessage \<Rightarrow> int \<Rightarrow> tenancy \<Rightarrow> socket \<Rightarrow> socket" where
  "swept ns message now t s =
     without (main_room ns) (fst ` {e \<in> set (sk_rooms s). drops ns message now t s e}) s"

fun for_session :: "RevocationMessage \<Rightarrow> string option" where
  "for_session (Revoke_Session sessionId _) = Some sessionId"
| "for_session _ = None"

lemma swept_same [simp]:
  "sk_id (swept ns message now t s) = sk_id s" "sk_client (swept ns message now t s) = sk_client s"
  "sk_userId (swept ns message now t s) = sk_userId s"
  "sk_sessionId (swept ns message now t s) = sk_sessionId s"
  by (simp_all add: swept_def)

lemma sweep_socket_sockets:
  assumes "for_session message = None"
  shows "gw_sockets (sweep_socket ns message now t s gw) =
    (gw_sockets gw)(ns := map (\<lambda>x. if sk_id x = sk_id s
       then without (main_room ns) (fst ` {e \<in> set (sk_rooms s). drops ns message now t s e}) x else x)
       (gw_sockets gw ns))"
proof (cases message)
  case (Member_Removed orgId userId)
  then show ?thesis
    by (cases "sk_userId s = userId")
      (simp_all add: sweep_socket_def drops_def force_leave_fold fun_upd_idem map_idI cong: if_cong)
next
  case (Recheck_User orgId userId)
  then show ?thesis
    by (cases "sk_userId s = userId")
      (simp_all add: sweep_socket_def drops_def recheck_def force_leave_fold fun_upd_idem map_idI cong: if_cong)
next
  case (Recheck_Org orgId)
  then show ?thesis by (simp add: sweep_socket_def drops_def recheck_def force_leave_fold cong: if_cong)
qed (use assms in simp)

text \<open>One change per socket of a list, by key, with keys that do not repeat.\<close>

lemma fold_map_keyed:
  assumes "distinct (map key ss)" "\<And>s x. key (change s x) = key x"
  shows "fold (\<lambda>s xs. map (\<lambda>x. if key x = key s then change s x else x) xs) ss xs =
    map (\<lambda>x. case find (\<lambda>s. key s = key x) ss of None \<Rightarrow> x | Some s \<Rightarrow> change s x) xs"
  using assms(1)
proof (induction ss arbitrary: xs)
  case Nil
  then show ?case by simp
next
  case (Cons s ss)
  then have "key s \<notin> key ` set ss" by simp
  then have none: "find (\<lambda>s'. key s' = key s) ss = None"
    unfolding find_None_iff by (metis image_eqI)
  have "(case find (\<lambda>s'. key s' = key y) ss of None \<Rightarrow> y | Some s' \<Rightarrow> change s' y) =
      (case find (\<lambda>s'. key s' = key x) (s # ss) of None \<Rightarrow> x | Some s' \<Rightarrow> change s' x)"
    if "y = (if key x = key s then change s x else x)" for x y
    using that none by (cases "key x = key s") (auto simp: assms(2))
  then have "map (\<lambda>x. case find (\<lambda>s'. key s' = key x) ss of None \<Rightarrow> x | Some s' \<Rightarrow> change s' x)
       (map (\<lambda>x. if key x = key s then change s x else x) xs) =
      map (\<lambda>x. case find (\<lambda>s'. key s' = key x) (s # ss) of None \<Rightarrow> x | Some s' \<Rightarrow> change s' x) xs"
    unfolding map_map comp_def by (intro map_cong refl) blast
  moreover have "distinct (map key ss)" using Cons.prems by simp
  ultimately show ?case using Cons.IH by (simp only: fold.simps comp_apply)
qed

lemma find_key_self: "distinct (map key ss) \<Longrightarrow> s \<in> set ss \<Longrightarrow> find (\<lambda>x. key x = key s) ss = Some s"
  by (induction ss) auto

lemma apply_revocation_sockets:
  assumes "for_session message = None" "distinct (map sk_id (gw_sockets gw ns))"
  shows "gw_sockets (apply_revocation ns message now t gw) =
    (gw_sockets gw)(ns := map (swept ns message now t) (gw_sockets gw ns))"
proof -
  let ?change = "\<lambda>s. without (main_room ns) (fst ` {e \<in> set (sk_rooms s). drops ns message now t s e})"
  have "gw_sockets (fold (sweep_socket ns message now t) ss gw) =
      (gw_sockets gw)(ns := fold (\<lambda>s xs. map (\<lambda>x. if sk_id x = sk_id s then ?change s x else x) xs) ss
        (gw_sockets gw ns))" for ss
    by (induction ss arbitrary: gw) (simp_all add: sweep_socket_sockets [OF assms(1)])
  then show ?thesis using assms(2)
    by (auto simp: apply_revocation_def fold_map_keyed find_key_self swept_def fun_eq_iff)
qed

lemma sweep_sockets:
  assumes "for_session message = None" "\<And>ns. distinct (map sk_id (gw_sockets gw ns))"
  shows "gw_sockets (sweep message now t gw) ns = map (swept ns message now t) (gw_sockets gw ns)"
  by (cases ns) (simp_all add: sweep_def apply_revocation_sockets assms)

text \<open>A session's end disconnects its clients and touches nothing else.\<close>

lemma sweep_session_sockets:
  "\<exists>gone. (\<forall>ns. gw_sockets (apply_revocation ns0 (Revoke_Session i reason) now t gw) ns =
       filter (\<lambda>s. sk_client s \<notin> gone) (gw_sockets gw ns)) \<and>
     gone = sk_client ` {s \<in> set (gw_sockets gw ns0). sk_sessionId s = i}"
proof -
  have "gw_sockets (fold (sweep_socket ns0 (Revoke_Session i reason) now t) ss gw) ns =
      filter (\<lambda>s. sk_client s \<notin> sk_client ` {s \<in> set ss. sk_sessionId s = i}) (gw_sockets gw ns)" for ns ss
  proof (induction ss arbitrary: gw)
    case (Cons s ss)
    have "{x \<in> set (s # ss). sk_sessionId x = i} =
        (if sk_sessionId s = i then insert s {x \<in> set ss. sk_sessionId x = i} else {x \<in> set ss. sk_sessionId x = i})"
      by auto
    then show ?case using Cons
      by (simp add: sweep_socket_def gateway_facts filter_filter conj_commute)
  qed simp
  then show ?thesis by (simp add: apply_revocation_def)
qed

lemma sweep_session:
  "gw_sockets (sweep (Revoke_Session i reason) now t gw) ns =
     filter (\<lambda>s. sk_client s \<notin> sk_client ` {s. sk_sessionId s = i \<and> (\<exists>ns. s \<in> set (gw_sockets gw ns))})
       (gw_sockets gw ns)"
proof -
  let ?gone = "\<lambda>gw ns0. sk_client ` {s \<in> set (gw_sockets gw ns0). sk_sessionId s = i}"
  have one: "gw_sockets (apply_revocation ns0 (Revoke_Session i reason) now t gw) ns =
      filter (\<lambda>s. sk_client s \<notin> ?gone gw ns0) (gw_sockets gw ns)" for ns0 ns gw
    using sweep_session_sockets [of ns0 i reason now t gw] by blast
  have any: "(\<exists>ns. P ns) \<longleftrightarrow> P Board_Ns \<or> P Chat_Ns \<or> P Rtc_Ns" for P
    by (metis namespace.exhaust)
  show ?thesis
    unfolding sweep_def one by (auto simp: any filter_filter intro!: filter_cong)
qed

end
