(* ===== verification/Tenancy_Access.thy ===== *)
theory Tenancy_Access
  imports Room_Access Gateway_Sweep
begin

text \<open>
  What the services of \<open>apps/api/src/tenancy\<close> do to the access of the users: \<open>served\<close> is a step of one of
  them, and after it everybody keeps their access but those the revocations among its events name.
\<close>

section \<open>Steps of the services\<close>

text \<open>The types of \<open>transferOwnership\<close> leave its new role two values; the ids a service draws are new.\<close>

inductive served :: "tenancy \<Rightarrow> tenancy \<Rightarrow> bool" where
  Member_Added: "addMember orgId email role actor membershipId drawn t = Inr (r, t') \<Longrightarrow>
    membershipId \<notin> mb_id ` set (members t) \<Longrightarrow> served t t'"
| Role_Changed: "changeRole orgId userId role actor drawn t = Inr (r, t') \<Longrightarrow> served t t'"
| Member_Removed: "removeMember orgId userId actor drawn t = Inr t' \<Longrightarrow> served t t'"
| Offboarding_Started: "startOffboarding orgId userId actor drawn t = Inr t' \<Longrightarrow> served t t'"
| Ownership_Transferred: "transferOwnership orgId toUserId selfNewRole actor drawn t = Inr t' \<Longrightarrow>
    selfNewRole = ''admin'' \<or> selfNewRole = ''member'' \<Longrightarrow> served t t'"
| Team_Created: "createTeam orgId teamId name slug actor drawn t = Inr (r, t') \<Longrightarrow> served t t'"
| Team_Member_Added: "addTeamMember orgId teamId userId actor drawn t = Inr t' \<Longrightarrow> served t t'"
| Granted: "grant other orgId input actor tupleId drawn t = Inr (r, t') \<Longrightarrow>
    tupleId \<notin> tp_id ` set (tuples t) \<Longrightarrow> gi_expiresAt input = None \<Longrightarrow> served t t'"
| Revoked: "revoke orgId tupleId actor drawn t = Inr t' \<Longrightarrow> served t t'"
| Member_Granted: "grant_member orgId userId permission actor grantId drawn t = Inr (r, t') \<Longrightarrow> served t t'"
| Member_Revoked: "revoke_member orgId userId permission actor drawn t = Inr t' \<Longrightarrow> served t t'"
| All_Revoked: "revokeAll orgId userId actor drawn t = Inr (ps, t') \<Longrightarrow> served t t'"

text \<open>The rows keep their keys, no id is empty, and no relation expires.\<close>

definition tenancy_ok :: "tenancy \<Rightarrow> bool" where
  "tenancy_ok t \<longleftrightarrow> distinct (map mb_id (members t)) \<and> distinct (map tp_id (tuples t)) \<and>
     [] \<notin> set (map mb_userId (members t)) \<and> [] \<notin> set (map u_id (users t)) \<and> no_expiry t"

text \<open>The users whose access a revocation checks, by organization.\<close>

definition named_by :: "RevocationMessage \<Rightarrow> string \<Rightarrow> string \<Rightarrow> bool" where
  "named_by message u org =
     (case message of
        Revoke_Session _ _ \<Rightarrow> False
      | RevocationMessage.Member_Removed orgId userId \<Rightarrow> u = userId \<and> org = orgId
      | Recheck_User orgId userId \<Rightarrow> u = userId \<and> org = orgId
      | Recheck_Org orgId \<Rightarrow> org = orgId)"

definition appended :: "tenancy \<Rightarrow> tenancy \<Rightarrow> OutboxRow list" where
  "appended t t' = drop (length (events t)) (events t')"

definition revoked_rows :: "OutboxRow list \<Rightarrow> string \<Rightarrow> string \<Rightarrow> bool" where
  "revoked_rows rows u org \<longleftrightarrow> (\<exists>row \<in> set rows. \<exists>m. revocationOf row = Some m \<and> named_by m u org)"

definition stable :: "(string \<Rightarrow> string \<Rightarrow> bool) \<Rightarrow> tenancy \<Rightarrow> tenancy \<Rightarrow> bool" where
  "stable X t t' \<longleftrightarrow> work t' = work t \<and> channels t' = channels t \<and>
     (\<forall>u org. idSchema org = Some org \<longrightarrow> \<not> X u org \<longrightarrow> keeps u org t t')"

section \<open>The events of a service\<close>

lemma revocationOf_id [simp]: "revocationOf (row\<lparr>ob_id := i\<rparr>) = revocationOf row"
  by (auto simp: revocationOf_def Let_def split: option.splits)

lemma appended_rows:
  assumes "events t1 = events t"
  shows "appended t (append_rows drawn rows t1) = map2 (\<lambda>k row. row\<lparr>ob_id := fst drawn k\<rparr>) [0..<length rows] rows"
  using assms by (simp add: appended_def append_rows_def)

lemma revoked_appended:
  assumes "events t1 = events t" "row \<in> set rows" "revocationOf row = Some m" "named_by m u org"
  shows "revoked_rows (appended t (append_rows drawn rows t1)) u org"
proof -
  obtain k where k: "k < length rows" "rows ! k = row" using assms(2) by (auto simp: in_set_conv_nth)
  then have "map2 (\<lambda>k row. row\<lparr>ob_id := fst drawn k\<rparr>) [0..<length rows] rows ! k = row\<lparr>ob_id := fst drawn k\<rparr>"
    by simp
  then have "row\<lparr>ob_id := fst drawn k\<rparr> \<in> set (map2 (\<lambda>k row. row\<lparr>ob_id := fst drawn k\<rparr>) [0..<length rows] rows)"
    using k(1) by (metis (no_types, lifting) length_map length_zip length_upt min.idem minus_nat.diff_0 nth_mem)
  then show ?thesis using assms
    unfolding revoked_rows_def appended_rows [OF assms(1)] by (metis revocationOf_id)
qed

lemma append_rows_same [simp]:
  "users (append_rows drawn rows t) = users t" "orgs (append_rows drawn rows t) = orgs t"
  "members (append_rows drawn rows t) = members t" "teams (append_rows drawn rows t) = teams t"
  "teamMembers (append_rows drawn rows t) = teamMembers t" "tuples (append_rows drawn rows t) = tuples t"
  "memberGrants (append_rows drawn rows t) = memberGrants t" "channels (append_rows drawn rows t) = channels t"
  "work (append_rows drawn rows t) = work t"
  by (simp_all add: append_rows_def)

lemma text_field_hit: "text_field key (JObj ((key, JStr (c # s)) # kvs)) = Some (c # s)"
  by (simp add: text_field_def nonempty_text_def)

section \<open>What stays the same\<close>

lemma team_ids_cong: "teamMembers t' = teamMembers t \<Longrightarrow> team_ids orgId u t' = team_ids orgId u t"
  by (simp add: team_ids_def)

lemma find_map_keeps: "(\<And>x. P (f x) = P x) \<Longrightarrow> find P (map f xs) = map_option f (find P xs)"
  by (induction xs) auto

lemma member_of_set_member:
  assumes "\<And>m. mb_orgId (change m) = mb_orgId m" "\<And>m. mb_userId (change m) = mb_userId m"
  shows "member_of orgId u (set_member picked change t) =
    map_option (\<lambda>m. if picked m then change m else m) (member_of orgId u t)"
  unfolding member_of_def set_member_def by (simp add: find_map_keeps assms)

lemma set_member_same [simp]:
  "users (set_member picked change t) = users t" "orgs (set_member picked change t) = orgs t"
  "teams (set_member picked change t) = teams t" "teamMembers (set_member picked change t) = teamMembers t"
  "tuples (set_member picked change t) = tuples t" "events (set_member picked change t) = events t"
  "channels (set_member picked change t) = channels t" "work (set_member picked change t) = work t"
  by (simp_all add: set_member_def)

lemma member_ofD: "member_of orgId u t = Some m \<Longrightarrow> m \<in> set (members t) \<and> mb_orgId m = orgId \<and> mb_userId m = u"
  by (auto simp: member_of_def find_Some_iff)

lemma tenancy_ok_set_member:
  assumes "tenancy_ok t" "\<And>m. mb_id (change m) = mb_id m" "\<And>m. mb_userId (change m) = mb_userId m"
  shows "tenancy_ok (set_member picked change t)"
proof -
  have "map mb_id (members (set_member picked change t)) = map mb_id (members t)"
    "map mb_userId (members (set_member picked change t)) = map mb_userId (members t)"
    by (simp_all add: set_member_def assms)
  then show ?thesis using assms(1) by (auto simp only: tenancy_ok_def no_expiry_def set_member_same)
qed

lemma tenancy_ok_append_rows [simp]: "tenancy_ok (append_rows drawn rows t) \<longleftrightarrow> tenancy_ok t"
  by (simp add: tenancy_ok_def no_expiry_def)

lemma member_row_unique:
  "tenancy_ok t \<Longrightarrow> m \<in> set (members t) \<Longrightarrow> m' \<in> set (members t) \<Longrightarrow> mb_id m = mb_id m' \<Longrightarrow> m = m'"
  by (meson distinct_map inj_onD tenancy_ok_def)

text \<open>Leaving calls changes calls and their participants only.\<close>

definition calls_only :: "tenancy \<Rightarrow> tenancy \<Rightarrow> bool" where
  "calls_only t t' \<longleftrightarrow> t'\<lparr>sessions := [], participants := []\<rparr> = t\<lparr>sessions := [], participants := []\<rparr>"

lemma calls_only_trans: "calls_only t t' \<Longrightarrow> calls_only t' t'' \<Longrightarrow> calls_only t t''"
  by (simp add: calls_only_def)

lemma calls_only_steps [simp]:
  "calls_only t t"
  "calls_only t (update_session orgId i change t1) \<longleftrightarrow> calls_only t t1"
  "calls_only t (update_participants picked change' t1) \<longleftrightarrow> calls_only t t1"
  "calls_only (update_session orgId i change t1) t \<longleftrightarrow> calls_only t1 t"
  "calls_only (update_participants picked change' t1) t \<longleftrightarrow> calls_only t1 t"
  by (simp_all add: calls_only_def update_session_def update_participants_def)

lemma endSessionRow_calls:
  "endSessionRow orgId session reason now t = (ended, t') \<Longrightarrow> calls_only t t'"
  by (auto simp: endSessionRow_def Let_def)

lemma leave_one_calls:
  assumes "leave_one orgId userId now i t = Inr (l, t')"
  shows "calls_only t t'"
  using assms unfolding leave_one_def bind_result_eq_Inr Let_def
  by (elim exE conjE) (auto split: if_splits prod.splits dest!: endSessionRow_calls)

lemma leave_loop_calls: "leave_loop orgId userId now is t = Inr (ls, t') \<Longrightarrow> calls_only t t'"
proof (induction "is" arbitrary: t ls)
  case Nil
  then show ?case by (simp add: calls_only_steps)
next
  case (Cons i "is")
  then show ?case by (auto dest!: leave_one_calls intro: calls_only_trans)
qed

lemma leaveAll_calls: "leaveAllActiveSessionsFor orgId userId now t = Inr (ls, t') \<Longrightarrow> calls_only t t'"
  by (auto simp: leaveAllActiveSessionsFor_def Let_def dest: leave_loop_calls)

section \<open>The access each service keeps\<close>

text \<open>Access rests on the row of the membership and the relations, for an id in its normal form.\<close>

lemma keeps_rows:
  assumes "idSchema org = Some org" "orgs t' = orgs t" "no_expiry t'"
    and "\<And>row. member_of org u t = Some row \<Longrightarrow> active_member row \<Longrightarrow>
      \<exists>row'. member_of org u t' = Some row' \<and> active_member row' \<and>
             (full_member (mb_role row) \<longrightarrow> full_member (mb_role row'))"
    and "\<And>p. p \<in> set (tuples t) \<Longrightarrow> tp_orgId p = org \<Longrightarrow> subject_match u (team_ids org u t) p \<Longrightarrow>
      p \<in> set (tuples t') \<and> subject_match u (team_ids org u t') p"
  shows "keeps u org t t'"
  using assms by (intro keepsI) auto

lemma changed_role_keeps:
  assumes "tenancy_ok t" "member_of orgId userId t = Some membership" "isRole role"
    and "u = userId \<and> org = orgId \<longrightarrow> full_member role" "idSchema org = Some org"
  shows "keeps u org t (set_member (\<lambda>m. mb_orgId m = orgId \<and> mb_id m = mb_id membership)
    (\<lambda>m. m\<lparr>mb_role := role, mb_updatedAt := now\<rparr>) t)" (is "keeps u org t ?t'")
proof (rule keeps_rows)
  fix row
  assume row: "member_of org u t = Some row" "active_member row"
  have mine: "u = userId \<and> org = orgId" if "mb_orgId row = orgId" "mb_id row = mb_id membership"
    using member_row_unique [OF assms(1), of row membership] member_ofD [OF row(1)] member_ofD [OF assms(2)] that
    by simp
  have "member_of org u ?t' = Some (if mb_orgId row = orgId \<and> mb_id row = mb_id membership
      then row\<lparr>mb_role := role, mb_updatedAt := now\<rparr> else row)"
    by (subst member_of_set_member) (simp_all add: row(1))
  then show "\<exists>row'. member_of org u ?t' = Some row' \<and> active_member row' \<and>
      (full_member (mb_role row) \<longrightarrow> full_member (mb_role row'))"
    using row(2) assms(3,4) mine by (auto simp: active_member_def)
qed (use assms tenancy_ok_set_member [OF assms(1)] in \<open>auto simp: tenancy_ok_def no_expiry_def team_ids_def\<close>)

lemma covers_trans: "covers a b \<Longrightarrow> covers b c \<Longrightarrow> covers a c"
  by (auto simp: covers_def)

lemma keeps_trans: "keeps u org t t1 \<Longrightarrow> keeps u org t1 t2 \<Longrightarrow> keeps u org t t2"
  unfolding keeps_def by (metis covers_trans)

lemma keeps_append_rows [simp]: "keeps u org t (append_rows drawn rows t') \<longleftrightarrow> keeps u org t t'"
proof -
  have "access u org now (append_rows drawn rows t') = access u org now t'" for now
    unfolding access_def resolveOrgMembership_def loadTuples_def loadMemberGrants_def team_ids_def
      append_rows_same ..
  then show ?thesis by (simp add: keeps_def)
qed

lemma keeps_more:
  assumes "no_expiry t'" "orgs t' = orgs t" "members t' = members t" "set (tuples t) \<subseteq> set (tuples t')"
    "set (teamMembers t) \<subseteq> set (teamMembers t')"
  shows "keeps u org t t'"
  using assms by (intro keepsI_same) (auto simp: team_ids_def)

lemma stable_refl: "tenancy_ok t \<Longrightarrow> stable X t t"
  by (auto simp: stable_def tenancy_ok_def intro: keeps_more)

lemma full_member_isRole: "full_member role \<Longrightarrow> isRole role"
  by (auto simp: full_member_def isRole_def ROLES_def)

section \<open>The services, one by one\<close>

definition safe_step :: "tenancy \<Rightarrow> tenancy \<Rightarrow> bool" where
  "safe_step t t' \<longleftrightarrow> tenancy_ok t' \<and> stable (revoked_rows (appended t t')) t t'"

lemma safe_refl: "tenancy_ok t \<Longrightarrow> safe_step t t"
  by (simp add: safe_step_def stable_refl)

text \<open>A step whose events may name somebody, and one that keeps the access of all.\<close>

lemma safe_stepI:
  assumes "tenancy_ok t1" "events t1 = events t" "work t1 = work t" "channels t1 = channels t"
    and "\<And>u org. idSchema org = Some org \<Longrightarrow>
      keeps u org t t1 \<or> (\<exists>row m. row \<in> set rows \<and> revocationOf row = Some m \<and> named_by m u org)"
  shows "safe_step t (append_rows drawn rows t1)"
proof -
  have "keeps u org t (append_rows drawn rows t1)"
    if "idSchema org = Some org" "\<not> revoked_rows (appended t (append_rows drawn rows t1)) u org" for u org
    using assms(5) [OF that(1), of u] that(2) revoked_appended [OF assms(2)] by (metis keeps_append_rows)
  then show ?thesis using assms(1,3,4) by (simp add: safe_step_def stable_def)
qed

lemma find_append_Some: "find P xs = Some x \<Longrightarrow> find P (xs @ ys) = Some x"
  by (induction xs) (auto split: if_splits)

lemma find_filter_Some: "find P xs = Some x \<Longrightarrow> Q x \<Longrightarrow> find P (filter Q xs) = Some x"
  by (induction xs) (auto split: if_splits)

lemma addMember_safe:
  assumes "tenancy_ok t" "addMember orgId email role actor membershipId drawn t = Inr (r, t')"
    "membershipId \<notin> mb_id ` set (members t)"
  shows "safe_step t t'"
proof -
  obtain user rows t1 where *: "find (\<lambda>u. u_emailNormalized u = to_lower (trim email)) (users t) = Some user"
    "member_of orgId (u_id user) t = None" "t' = append_rows drawn rows t1"
    "t1 = t\<lparr>members := members t @ [\<lparr>mb_id = membershipId, mb_orgId = orgId, mb_userId = u_id user,
       mb_role = role, mb_status = ''active'', mb_updatedAt = snd drawn\<rparr>]\<rparr>"
    using assms(2) by (auto simp: addMember_def split: if_splits option.splits)
  have "u_id user \<in> set (map u_id (users t))" using *(1) by (auto simp: find_Some_iff)
  then have ok: "tenancy_ok t1" using assms(1,3) by (auto simp: *(4) tenancy_ok_def no_expiry_def)
  have "keeps u org t t1" if "idSchema org = Some org" for u org
  proof (rule keeps_rows [OF that])
    fix row
    assume row: "member_of org u t = Some row" "active_member row"
    then have "member_of org u t1 = Some row" by (simp add: *(4) member_of_def find_append_Some)
    then show "\<exists>row'. member_of org u t1 = Some row' \<and> active_member row' \<and>
        (full_member (mb_role row) \<longrightarrow> full_member (mb_role row'))"
      using row by blast
  qed (use ok in \<open>auto simp: *(4) tenancy_ok_def team_ids_def\<close>)
  then show ?thesis unfolding *(3) by (intro safe_stepI ok) (simp_all add: *(4))
qed

lemma changeRole_safe:
  assumes "tenancy_ok t" "changeRole orgId userId role actor drawn t = Inr (r, t')"
  shows "safe_step t t'"
proof -
  obtain membership where m: "member_of orgId userId t = Some membership" and role: "isRole role"
    and cases': "t' = t \<or> t' = append_rows drawn
      [event_row orgId actor drawn ''member.role_changed''
         [(''membershipId'', JStr (mb_id membership)), (''userId'', JStr userId),
          (''from'', JStr (mb_role membership)), (''to'', JStr role)]]
      (set_member (\<lambda>m. mb_orgId m = orgId \<and> mb_id m = mb_id membership)
         (\<lambda>m. m\<lparr>mb_role := role, mb_updatedAt := snd drawn\<rparr>) t)"
    using assms(2) by (auto simp: changeRole_def knownRole_def Let_def split: if_splits option.splits)
  have "userId \<noteq> []" using member_ofD [OF m] assms(1) by (force simp: tenancy_ok_def)
  then obtain c cs where u: "userId = c # cs" by (cases userId) auto
  let ?row = "event_row orgId actor drawn ''member.role_changed''
         [(''membershipId'', JStr (mb_id membership)), (''userId'', JStr userId),
          (''from'', JStr (mb_role membership)), (''to'', JStr role)]"
  have row: "revocationOf ?row = Some (Recheck_User orgId userId)"
    by (simp add: revocationOf_def event_row_def Let_def text_field_def nonempty_text_def u)
  from cases' show ?thesis
  proof
    assume "t' = t"
    then show ?thesis using assms(1) safe_refl by simp
  next
    assume t': "t' = append_rows drawn [?row] (set_member (\<lambda>m. mb_orgId m = orgId \<and> mb_id m = mb_id membership)
         (\<lambda>m. m\<lparr>mb_role := role, mb_updatedAt := snd drawn\<rparr>) t)"
    show ?thesis unfolding t'
    proof (rule safe_stepI)
      fix u org
      assume "idSchema org = Some org"
      then show "keeps u org t (set_member (\<lambda>m. mb_orgId m = orgId \<and> mb_id m = mb_id membership)
          (\<lambda>m. m\<lparr>mb_role := role, mb_updatedAt := snd drawn\<rparr>) t) \<or>
          (\<exists>row m. row \<in> set [?row] \<and> revocationOf row = Some m \<and> named_by m u org)"
        using changed_role_keeps [OF assms(1) m role, of u org] row by (auto simp: named_by_def)
    qed (simp_all add: tenancy_ok_set_member assms(1))
  qed
qed

lemma startOffboarding_safe:
  "tenancy_ok t \<Longrightarrow> startOffboarding orgId userId actor drawn t = Inr t' \<Longrightarrow> safe_step t t'"
  by (auto simp: startOffboarding_def tenancy_ok_def split: option.splits
      intro!: safe_stepI disjI1 keeps_more)

lemma removeMember_safe:
  assumes "tenancy_ok t" "removeMember orgId userId actor drawn t = Inr t'"
  shows "safe_step t t'"
proof -
  obtain membership rest t1 t2 where m: "member_of orgId userId t = Some membership"
    and t1: "t1 = t\<lparr>members := filter (\<lambda>m. \<not> (mb_orgId m = orgId \<and> mb_id m = mb_id membership)) (members t),
        tuples := filter (\<lambda>p. \<not> (tp_orgId p = orgId \<and> tp_subjectType p = ''user'' \<and> tp_subjectId p = userId)) (tuples t),
        teamMembers := filter (\<lambda>m. \<not> (tm_orgId m = orgId \<and> tm_userId m = userId)) (teamMembers t),
        memberGrants := filter (\<lambda>g. mg_membershipId g \<noteq> mb_id membership) (memberGrants t)\<rparr>"
    and t2: "calls_only t1 t2"
    and t': "t' = append_rows drawn (event_row orgId actor drawn ''member.removed''
       [(''membershipId'', JStr (mb_id membership)), (''userId'', JStr userId),
        (''role'', JStr (mb_role membership))] # rest) t2"
    using assms(2)
    by (auto simp: removeMember_def knownRole_def Let_def split: if_splits option.splits dest!: leaveAll_calls)
  let ?row = "event_row orgId actor drawn ''member.removed'' [(''membershipId'', JStr (mb_id membership)),
      (''userId'', JStr userId), (''role'', JStr (mb_role membership))]"
  have same: "users t2 = users t1" "members t2 = members t1" "tuples t2 = tuples t1" "teamMembers t2 = teamMembers t1"
    "orgs t2 = orgs t1" "work t2 = work t1" "channels t2 = channels t1" "events t2 = events t1"
    using t2 by (simp_all add: calls_only_def) (metis tenancy.select_convs tenancy.surjective tenancy.update_convs)+
  have ok: "tenancy_ok t2" using assms(1)
    by (auto simp: tenancy_ok_def no_expiry_def same t1 distinct_map_filter)
  have "userId \<noteq> []" using member_ofD [OF m] assms(1) by (force simp: tenancy_ok_def)
  then obtain c cs where u: "userId = c # cs" by (cases userId) auto
  have row: "revocationOf ?row = Some (RevocationMessage.Member_Removed orgId userId)"
    by (simp add: revocationOf_def event_row_def Let_def text_field_def nonempty_text_def u)
  have "keeps u org t t2" if id: "idSchema org = Some org" and other: "\<not> (u = userId \<and> org = orgId)" for u org
  proof (rule keeps_rows [OF id])
    fix row
    assume row: "member_of org u t = Some row" "active_member row"
    then have "\<not> (mb_orgId row = orgId \<and> mb_id row = mb_id membership)"
      using member_row_unique [OF assms(1), of row membership] member_ofD [OF m] member_ofD [OF row(1)] other
      by auto
    then have "member_of org u t2 = Some row" using row(1)
      unfolding member_of_def same t1 by (simp add: find_filter_Some)
    then show "\<exists>row'. member_of org u t2 = Some row' \<and> active_member row' \<and>
        (full_member (mb_role row) \<longrightarrow> full_member (mb_role row'))"
      using row by blast
  next
    fix p
    assume p: "p \<in> set (tuples t)" "tp_orgId p = org" "subject_match u (team_ids org u t) p"
    have "team_ids org u t2 = team_ids org u t"
      using other unfolding team_ids_def same t1 by (auto intro!: arg_cong [where f = "map tm_teamId"] filter_cong simp: filter_filter)
    then show "p \<in> set (tuples t2) \<and> subject_match u (team_ids org u t2) p"
      using p other by (auto simp: same t1 subject_match_def)
  qed (use ok in \<open>simp_all add: same t1 tenancy_ok_def\<close>)
  then have "keeps u org t t2 \<or>
      (\<exists>row m. row \<in> set (?row # rest) \<and> revocationOf row = Some m \<and> named_by m u org)"
    if "idSchema org = Some org" for u org
    using that row by (cases "u = userId \<and> org = orgId") (auto simp: named_by_def)
  then show ?thesis unfolding t' by (intro safe_stepI ok) (auto simp: same t1)
qed

lemma transferOwnership_safe:
  assumes "tenancy_ok t" "transferOwnership orgId toUserId selfNewRole actor drawn t = Inr t'"
    "selfNewRole = ''admin'' \<or> selfNewRole = ''member''"
  shows "safe_step t t'"
proof -
  obtain membership rows t1 t2 where m: "member_of orgId toUserId t = Some membership"
    and t1: "t1 = set_member (\<lambda>m. mb_orgId m = orgId \<and> mb_id m = mb_id membership)
        (\<lambda>m. m\<lparr>mb_role := ''owner'', mb_updatedAt := snd drawn\<rparr>) t"
    and t2: "t2 = set_member (\<lambda>m. mb_orgId m = orgId \<and> mb_userId m = act_userId actor)
        (\<lambda>m. m\<lparr>mb_role := selfNewRole, mb_updatedAt := snd drawn\<rparr>) t1"
    and t': "t' = append_rows drawn rows t2"
    using assms(2) by (auto simp: transferOwnership_def knownRole_def Let_def split: if_splits option.splits)
  have ok: "tenancy_ok t1" "tenancy_ok t2" using assms(1) by (simp_all add: t1 t2 tenancy_ok_set_member)
  have self: "full_member selfNewRole" using assms(3) by (auto simp: full_member_def)
  have "keeps u org t t2" if id: "idSchema org = Some org" for u org
  proof (rule keeps_trans)
    show "keeps u org t t1" unfolding t1
      by (rule changed_role_keeps [OF assms(1) m _ _ id]) (simp_all add: isRole_def ROLES_def full_member_def)
    show "keeps u org t1 t2"
    proof (rule keeps_rows [OF id])
      fix row
      assume row: "member_of org u t1 = Some row" "active_member row"
      have "member_of org u t2 = Some (if mb_orgId row = orgId \<and> mb_userId row = act_userId actor
          then row\<lparr>mb_role := selfNewRole, mb_updatedAt := snd drawn\<rparr> else row)"
        unfolding t2 by (subst member_of_set_member) (simp_all add: row(1))
      then show "\<exists>row'. member_of org u t2 = Some row' \<and> active_member row' \<and>
          (full_member (mb_role row) \<longrightarrow> full_member (mb_role row'))"
        using row(2) self full_member_isRole [OF self] by (auto simp: active_member_def)
    qed (use ok in \<open>auto simp: t2 tenancy_ok_def team_ids_def\<close>)
  qed
  then show ?thesis unfolding t' by (intro safe_stepI ok) (simp_all add: t1 t2)
qed

lemma createTeam_safe:
  "tenancy_ok t \<Longrightarrow> createTeam orgId teamId name slug actor drawn t = Inr (r, t') \<Longrightarrow> safe_step t t'"
  by (auto simp: createTeam_def tenancy_ok_def no_expiry_def split: if_splits
      intro!: safe_stepI disjI1 keeps_more)

lemma addTeamMember_safe:
  "tenancy_ok t \<Longrightarrow> addTeamMember orgId teamId userId actor drawn t = Inr t' \<Longrightarrow> safe_step t t'"
  by (auto simp: addTeamMember_def tenancy_ok_def no_expiry_def split: if_splits
      intro!: safe_refl safe_stepI disjI1 keeps_more)

lemma grant_safe:
  "tenancy_ok t \<Longrightarrow> grant other orgId input actor tupleId drawn t = Inr (r, t') \<Longrightarrow>
     tupleId \<notin> tp_id ` set (tuples t) \<Longrightarrow> gi_expiresAt input = None \<Longrightarrow> safe_step t t'"
  by (auto simp: grant_def grant_expiry_def Let_def tenancy_ok_def no_expiry_def split: if_splits option.splits
      intro!: safe_refl safe_stepI disjI1 keeps_more)

lemma revoke_safe:
  assumes "tenancy_ok t" "revoke orgId tupleId actor drawn t = Inr t'"
  shows "safe_step t t'"
proof -
  obtain tuple where f: "find (\<lambda>p. tp_orgId p = orgId \<and> tp_id p = tupleId) (tuples t) = Some tuple"
    using assms(2) by (auto simp: revoke_def split: option.splits)
  let ?row = "event_row orgId actor drawn ''grant.revoked''
      [(''tupleId'', JStr (tp_id tuple)),
       (''subjectType'', JStr (if tp_subjectType tuple = ''team'' then ''team'' else ''user'')),
       (''subjectId'', JStr (tp_subjectId tuple)), (''relation'', JStr (tp_relation tuple)),
       (''objectType'', JStr (tp_objectType tuple)), (''objectId'', JStr (tp_objectId tuple))]"
  define t1 where "t1 = t\<lparr>tuples := filter (\<lambda>p. \<not> (tp_orgId p = orgId \<and> tp_id p = tp_id tuple)) (tuples t)\<rparr>"
  have t': "t' = append_rows drawn [?row] t1"
    using assms(2) f by (simp add: revoke_def t1_def)
  have ok: "tenancy_ok t1" using assms(1)
    by (auto simp: tenancy_ok_def no_expiry_def t1_def distinct_map_filter)
  have tuple: "tuple \<in> set (tuples t)" "tp_orgId tuple = orgId" using f by (auto simp: find_Some_iff)
  have only: "p = tuple" if "p \<in> set (tuples t)" "tp_id p = tp_id tuple" for p
    using assms(1) tuple(1) that by (meson distinct_map inj_onD tenancy_ok_def)
  have row: "\<exists>m. revocationOf ?row = Some m \<and> named_by m u org"
    if "org = orgId" "subject_match u (team_ids org u t) tuple" for u org
    using that by (auto simp: revocationOf_def event_row_def Let_def text_field_def nonempty_text_def
        named_by_def subject_match_def)
  have "keeps u org t t1 \<or> (\<exists>m. revocationOf ?row = Some m \<and> named_by m u org)"
    if "idSchema org = Some org" for u org
  proof (rule disjCI)
    assume "\<not> (\<exists>m. revocationOf ?row = Some m \<and> named_by m u org)"
    then have other: "\<not> (org = orgId \<and> subject_match u (team_ids org u t) tuple)" using row by blast
    show "keeps u org t t1"
    proof (rule keeps_rows [OF that])
      fix p
      assume p: "p \<in> set (tuples t)" "tp_orgId p = org" "subject_match u (team_ids org u t) p"
      then have "\<not> (tp_orgId p = orgId \<and> tp_id p = tp_id tuple)" using other only tuple(2) by blast
      then show "p \<in> set (tuples t1) \<and> subject_match u (team_ids org u t1) p"
        using p by (simp add: t1_def team_ids_def)
    qed (use ok in \<open>auto simp: t1_def tenancy_ok_def member_of_def\<close>)
  qed
  then show ?thesis unfolding t' by (intro safe_stepI ok) (auto simp: t1_def)
qed

lemma member_grants_safe:
  assumes "tenancy_ok t"
  shows "grant_member orgId userId permission actor grantId drawn t = Inr (r, t') \<Longrightarrow> safe_step t t'"
    "revoke_member orgId userId permission actor drawn t = Inr t' \<Longrightarrow> safe_step t t'"
    "revokeAll orgId userId actor drawn t = Inr (ps, t') \<Longrightarrow> safe_step t t'"
proof -
  have "safe_step t (append_rows drawn rows (t\<lparr>memberGrants := gs\<rparr>))" for rows gs
    using assms by (auto simp: tenancy_ok_def no_expiry_def intro!: safe_stepI disjI1 keeps_more)
  then show "grant_member orgId userId permission actor grantId drawn t = Inr (r, t') \<Longrightarrow> safe_step t t'"
    "revoke_member orgId userId permission actor drawn t = Inr t' \<Longrightarrow> safe_step t t'"
    "revokeAll orgId userId actor drawn t = Inr (ps, t') \<Longrightarrow> safe_step t t'"
    using safe_refl [OF assms]
    by (auto simp: grant_member_def revoke_member_def revokeAll_def revoke_grants_def Let_def
        split: if_splits option.splits)
qed

lemma served_safe: "served t t' \<Longrightarrow> tenancy_ok t \<Longrightarrow> safe_step t t'"
  by (induction rule: served.induct)
    (blast intro: addMember_safe changeRole_safe removeMember_safe startOffboarding_safe
      transferOwnership_safe createTeam_safe addTeamMember_safe grant_safe revoke_safe
      member_grants_safe)+

end
