(* ===== verification/Rooms_Invariant.thy ===== *)
theory Rooms_Invariant
  imports Tenancy_Access
begin

text \<open>
  The gateway together with the services and the relay: the steps, and the invariant that every board or
  channel room a socket is in is one its user may read at that moment.
\<close>

section \<open>Steps\<close>

text \<open>
  The relay dispatches the events a service appended, in order, over the state the service left. A row
  may also be dispatched again (delivery is at least once), or end a session. The sockets join and leave
  rooms of every kind but phone calls.
\<close>

definition relayed :: "tenancy \<Rightarrow> tenancy \<Rightarrow> int \<Rightarrow> gateway \<Rightarrow> gateway" where
  "relayed t t' now gw = fold (\<lambda>row. dispatch row now t') (appended t t') gw"

inductive gateway_step :: "(string \<Rightarrow> bool) \<Rightarrow> tenancy \<times> gateway \<Rightarrow> tenancy \<times> gateway \<Rightarrow> bool"
  for zod_uuid where
  Connects: "sid \<notin> sk_id ` set (gw_sockets gw ns) \<Longrightarrow>
    gateway_step zod_uuid (t, gw) (t, connect ns sid client identity address lead now gw)"
| Joins: "s \<in> set (gw_sockets gw (namespace_of kind)) \<Longrightarrow> kind \<noteq> Call_Room \<Longrightarrow>
    gateway_step zod_uuid (t, gw) (t, join_room zod_uuid kind s request now t gw)"
| Leaves: "s \<in> set (gw_sockets gw (namespace_of kind)) \<Longrightarrow> kind \<noteq> Call_Room \<Longrightarrow>
    gateway_step zod_uuid (t, gw) (t, leave_request zod_uuid kind s request gw)"
| Types: "s \<in> set (gw_sockets gw Chat_Ns) \<Longrightarrow>
    gateway_step zod_uuid (t, gw) (t, relayTyping s request typing gw)"
| Signals: "s \<in> set (gw_sockets gw Rtc_Ns) \<Longrightarrow>
    gateway_step zod_uuid (t, gw) (t, rtc_signal s signal now gw)"
| Disconnects: "gateway_step zod_uuid (t, gw) (t, disconnect client gw)"
| Redelivers: "gateway_step zod_uuid (t, gw) (t, dispatch row now t gw)"
| Serves: "served t t' \<Longrightarrow> gateway_step zod_uuid (t, gw) (t', relayed t t' now gw)"

inductive gateway_steps :: "(string \<Rightarrow> bool) \<Rightarrow> tenancy \<times> gateway \<Rightarrow> tenancy \<times> gateway \<Rightarrow> bool"
  for zod_uuid where
  Stays: "gateway_steps zod_uuid x x"
| Goes: "gateway_steps zod_uuid x y \<Longrightarrow> gateway_step zod_uuid y z \<Longrightarrow> gateway_steps zod_uuid x z"

section \<open>The invariant\<close>

text \<open>The rooms of one socket: each is one its user may read, or its user is named by \<open>X\<close>.\<close>

definition socket_rooms :: "(string \<Rightarrow> string \<Rightarrow> bool) \<Rightarrow> tenancy \<Rightarrow> namespace \<Rightarrow> socket \<Rightarrow> bool" where
  "socket_rooms X t ns s \<longleftrightarrow> (\<forall>i. room_name (main_room ns) i \<in> set (sk_joined s) \<longrightarrow>
     (\<exists>org. (i, org) \<in> set (sk_rooms s) \<and> idSchema org = Some org \<and> idSchema i = Some i \<and>
        (X (sk_userId s) org \<or> (\<forall>now. still_allowed ns (sk_userId s) now t (i, org)))))"

definition rooms_ok :: "(string \<Rightarrow> string \<Rightarrow> bool) \<Rightarrow> tenancy \<Rightarrow> gateway \<Rightarrow> bool" where
  "rooms_ok X t gw \<longleftrightarrow> (\<forall>ns. distinct (map sk_id (gw_sockets gw ns))) \<and>
     (\<forall>ns. ns \<noteq> Rtc_Ns \<longrightarrow> (\<forall>s \<in> set (gw_sockets gw ns). socket_rooms X t ns s))"

abbreviation nobody :: "string \<Rightarrow> string \<Rightarrow> bool" where "nobody \<equiv> \<lambda>u org. False"

section \<open>Operations that only take rooms away\<close>

lemma socket_rooms_without: "socket_rooms X t ns s \<Longrightarrow> socket_rooms X t ns (without (main_room ns) gone s)"
  unfolding socket_rooms_def by (fastforce simp: without_def)

lemma rooms_ok_same: "gw_sockets gw' = gw_sockets gw \<Longrightarrow> rooms_ok X t gw' = rooms_ok X t gw"
  by (simp add: rooms_ok_def)

lemma rooms_ok_filter:
  assumes "rooms_ok X t gw" "\<And>ns. \<exists>P. gw_sockets gw' ns = filter P (gw_sockets gw ns)"
  shows "rooms_ok X t gw'"
proof -
  have "distinct (map sk_id (gw_sockets gw' ns))" "set (gw_sockets gw' ns) \<subseteq> set (gw_sockets gw ns)" for ns
    using assms(1) assms(2) [of ns] by (auto simp: rooms_ok_def distinct_map_filter)
  then show ?thesis using assms(1) unfolding rooms_ok_def by blast
qed

lemma rooms_ok_map:
  assumes "rooms_ok X t gw" "\<And>ns. gw_sockets gw' ns = map (f ns) (gw_sockets gw ns)"
    and "\<And>ns s. sk_id (f ns s) = sk_id s"
    and "\<And>ns s. ns \<noteq> Rtc_Ns \<Longrightarrow> s \<in> set (gw_sockets gw ns) \<Longrightarrow> socket_rooms X t ns s \<Longrightarrow> socket_rooms Y t' ns (f ns s)"
  shows "rooms_ok Y t' gw'"
proof -
  have "map sk_id (gw_sockets gw' ns) = map sk_id (gw_sockets gw ns)" for ns
    by (simp add: assms(2,3) comp_def)
  then have "distinct (map sk_id (gw_sockets gw' ns))" for ns using assms(1) by (simp add: rooms_ok_def)
  moreover have "socket_rooms Y t' ns s'" if "ns \<noteq> Rtc_Ns" "s' \<in> set (gw_sockets gw' ns)" for ns s'
    using that assms(1,4) by (auto simp: rooms_ok_def assms(2))
  ultimately show ?thesis by (simp add: rooms_ok_def)
qed

text \<open>A sweep clears whom its message names.\<close>

lemma always_allowed:
  assumes "tenancy_ok t" "ns \<noteq> Rtc_Ns" "still_allowed ns u now t (i, org)"
  shows "still_allowed ns u now' t (i, org)"
proof -
  have "keeps u o' t t" for o' using assms(1) by (intro keeps_more) (auto simp: tenancy_ok_def)
  then show ?thesis using still_allowed_keeps [OF assms(2) refl refl _ assms(3)] by blast
qed

lemma swept_rooms:
  assumes "tenancy_ok t" "ns \<noteq> Rtc_Ns" "for_session message = None"
    and "socket_rooms (\<lambda>u org. named_by message u org \<or> X u org) t ns s"
  shows "socket_rooms X t ns (swept ns message now t s)"
  unfolding socket_rooms_def
proof (intro allI impI)
  let ?gone = "fst ` {e \<in> set (sk_rooms s). drops ns message now t s e}"
  fix i
  assume "room_name (main_room ns) i \<in> set (sk_joined (swept ns message now t s))"
  then have i: "room_name (main_room ns) i \<in> set (sk_joined s)" "i \<notin> ?gone"
    by (auto simp: swept_def without_def)
  then obtain org where org: "(i, org) \<in> set (sk_rooms s)" "idSchema org = Some org" "idSchema i = Some i"
    "named_by message (sk_userId s) org \<or> X (sk_userId s) org \<or>
     (\<forall>now. still_allowed ns (sk_userId s) now t (i, org))"
    using assms(4) unfolding socket_rooms_def by blast
  have "\<not> drops ns message now t s (i, org)" using i(2) org(1) by force
  then have "named_by message (sk_userId s) org \<Longrightarrow> still_allowed ns (sk_userId s) now t (i, org)"
    using assms(3) by (cases message) (auto simp: named_by_def drops_def)
  then have "X (sk_userId s) org \<or> (\<forall>now. still_allowed ns (sk_userId s) now t (i, org))"
    using org(4) always_allowed [OF assms(1,2)] by blast
  moreover have "(i, org) \<in> set (sk_rooms (swept ns message now t s))"
    using org(1) i(2) by (simp add: swept_def without_def)
  ultimately show "\<exists>org. (i, org) \<in> set (sk_rooms (swept ns message now t s)) \<and> idSchema org = Some org \<and> idSchema i = Some i \<and>
      (X (sk_userId (swept ns message now t s)) org \<or>
       (\<forall>w. still_allowed ns (sk_userId (swept ns message now t s)) w t (i, org)))"
    using org(2,3) by auto
qed

lemma sweep_rooms_ok:
  assumes "tenancy_ok t" "rooms_ok (\<lambda>u org. named_by message u org \<or> X u org) t gw"
  shows "rooms_ok X t (sweep message now t gw)"
proof (cases "for_session message")
  case None
  have "distinct (map sk_id (gw_sockets gw ns))" for ns using assms(2) by (simp add: rooms_ok_def)
  note swept = sweep_sockets [OF None this]
  show ?thesis
    by (rule rooms_ok_map [OF assms(2) swept]) (simp_all add: swept_rooms [OF assms(1) _ None])
next
  case (Some i)
  then obtain reason where m: "message = Revoke_Session i reason" by (cases message) auto
  have "rooms_ok X t gw" using assms(2) by (simp add: m named_by_def)
  then show ?thesis by (rule rooms_ok_filter) (auto simp: m sweep_session)
qed

lemma dispatch_rooms_ok:
  assumes "tenancy_ok t"
    "rooms_ok (\<lambda>u org. (\<exists>m. revocationOf row = Some m \<and> named_by m u org) \<or> X u org) t gw"
  shows "rooms_ok X t (dispatch row now t gw)"
proof (cases "revocationOf row")
  case None
  then show ?thesis using assms(2) by (simp add: rooms_ok_same [OF dispatch_sockets])
next
  case (Some m)
  then have "rooms_ok (\<lambda>u org. named_by m u org \<or> X u org) t gw" using assms(2) by simp
  from sweep_rooms_ok [OF assms(1) this] show ?thesis using Some
    by (simp add: rooms_ok_same [OF dispatch_sockets])
qed

lemma fold_dispatch_rooms_ok:
  "tenancy_ok t \<Longrightarrow> rooms_ok (revoked_rows rows) t gw \<Longrightarrow>
     rooms_ok nobody t (fold (\<lambda>row. dispatch row now t) rows gw)"
proof (induction rows arbitrary: gw)
  case Nil
  then show ?case by (simp add: revoked_rows_def)
next
  case (Cons row rows)
  have "revoked_rows (row # rows) =
      (\<lambda>u org. (\<exists>m. revocationOf row = Some m \<and> named_by m u org) \<or> revoked_rows rows u org)"
    by (auto simp: revoked_rows_def fun_eq_iff)
  then have "rooms_ok (revoked_rows rows) t (dispatch row now t gw)"
    using Cons.prems dispatch_rooms_ok by auto
  then show ?case using Cons by simp
qed

section \<open>The invariant is kept\<close>

lemma rooms_ok_weaken: "rooms_ok nobody t gw \<Longrightarrow> rooms_ok X t gw"
  unfolding rooms_ok_def socket_rooms_def by meson

lemma served_rooms_ok:
  assumes "served t t'" "tenancy_ok t" "rooms_ok nobody t gw"
  shows "tenancy_ok t' \<and> rooms_ok nobody t' (relayed t t' now gw)"
proof -
  have safe: "tenancy_ok t'" "stable (revoked_rows (appended t t')) t t'"
    using served_safe [OF assms(1,2)] by (simp_all add: safe_step_def)
  have "rooms_ok (revoked_rows (appended t t')) t' gw"
  proof (rule rooms_ok_map [OF assms(3), where f = "\<lambda>_ s. s"])
    fix ns s
    assume ns: "ns \<noteq> Rtc_Ns" and s: "socket_rooms nobody t ns s"
    have "revoked_rows (appended t t') u org \<or> (\<forall>now. still_allowed ns u now t' (i, org))"
      if "idSchema org = Some org" "\<forall>now. still_allowed ns u now t (i, org)" for u i org
      using that safe(2) still_allowed_keeps [OF ns, of t' t org u _ i] unfolding stable_def
      by (metis option.inject)
    then show "socket_rooms (revoked_rows (appended t t')) t' ns s"
      using s unfolding socket_rooms_def by meson
  qed simp_all
  then show ?thesis unfolding relayed_def using safe(1) fold_dispatch_rooms_ok by blast
qed

lemma map_set_other: "j \<noteq> i \<Longrightarrow> (j, org) \<in> set (map_set i o' kvs) \<longleftrightarrow> (j, org) \<in> set kvs"
  by (force simp: map_set_def)

lemma map_set_self: "(i, o') \<in> set (map_set i o' kvs)"
  by (force simp: map_set_def)

lemma parse_join_ids:
  assumes "parse_join zod_uuid kind request = Some (orgId, i)"
  shows "idSchema orgId = Some orgId" "kind = Board_Room \<or> kind = Channel_Room \<Longrightarrow> idSchema i = Some i"
  using assms idSchema_idem
  by (auto simp: parse_join_def parse_org_def parse_id_def split: json.splits if_splits option.splits)

lemma join_decide_sockets:
  "\<exists>P. gw_sockets (snd (join_decide zod_uuid kind s request now t gw)) ns = filter P (gw_sockets gw ns)"
proof -
  obtain ok lim where h: "hit (sk_id s) now (gw_joins gw) = (ok, lim)" by (cases "hit (sk_id s) now (gw_joins gw)")
  have all: "\<exists>P. xs = filter P xs" for xs :: "socket list" by (rule exI [of _ "\<lambda>_. True"]) simp
  have counted: "\<exists>P. gw_sockets (ack s r (countRefusal s now (gw\<lparr>gw_joins := lim\<rparr>))) ns = filter P (gw_sockets gw ns)" for r
    by (auto simp: ack_sockets countRefusal_sockets)
  show ?thesis
    by (simp add: join_decide_def Let_def h ack_sockets all counted [unfolded ack_sockets]
        split: option.splits prod.splits sum.splits)
qed

lemma join_rooms_ok:
  assumes "tenancy_ok t" "rooms_ok nobody t gw" "s \<in> set (gw_sockets gw (namespace_of kind))" "kind \<noteq> Call_Room"
  shows "rooms_ok nobody t (join_room zod_uuid kind s request now t gw)"
proof -
  obtain outcome gw1 where d: "join_decide zod_uuid kind s request now t gw = (outcome, gw1)"
    by (cases "join_decide zod_uuid kind s request now t gw")
  have gw1: "\<exists>P. gw_sockets gw1 ns = filter P (gw_sockets gw ns)" for ns
    using join_decide_sockets [of zod_uuid kind s request now t gw ns] by (simp add: d)
  then have ok1: "rooms_ok nobody t gw1" by (rule rooms_ok_filter [OF assms(2)])
  show ?thesis
  proof (cases outcome)
    case (Goes_On orgId i)
    have parsed: "parse_join zod_uuid kind request = Some (orgId, i)"
      and auth: "case authorize_room kind (sk_userId s) orgId i now t of Inl _ \<Rightarrow> False | Inr a \<Rightarrow> ja_allowed a"
      using d Goes_On by (auto simp: join_decide_def Let_def split: prod.splits if_splits option.splits sum.splits)
    have result: "gw_sockets (join_room zod_uuid kind s request now t gw) =
        gw_sockets (update_socket (namespace_of kind) (sk_id s) (enter kind i orgId) gw1)"
      using assms(4) by (simp add: join_room_def d Goes_On join_complete_def Let_def gateway_facts)
    let ?ns = "namespace_of kind"
    have kind: "main_room ?ns = kind" using assms(4) by (cases kind) simp_all
    show ?thesis
    proof (rule rooms_ok_map [OF ok1, where f = "\<lambda>ns x. if ns = ?ns \<and> sk_id x = sk_id s then enter kind i orgId x else x"])
      fix ns x
      assume ns: "ns \<noteq> Rtc_Ns" and x: "x \<in> set (gw_sockets gw1 ns)" "socket_rooms nobody t ns x"
      show "socket_rooms nobody t ns (if ns = ?ns \<and> sk_id x = sk_id s then enter kind i orgId x else x)"
      proof (cases "ns = ?ns \<and> sk_id x = sk_id s")
        case True
        have "distinct (map sk_id (gw_sockets gw ns))" using assms(2) by (simp add: rooms_ok_def)
        moreover have "x \<in> set (gw_sockets gw ns)" using x(1) gw1 [of ns] by auto
        ultimately have "x = s" using True assms(3) by (metis distinct_map inj_onD)
        have i: "idSchema i = Some i" using parse_join_ids [OF parsed] True ns assms(4) by (cases kind) auto
        then have "still_allowed ns (sk_userId s) now t (i, orgId)"
          using True kind ns auth parse_join_ids(1) [OF parsed] by (auto simp: still_allowed_def)
        then have "\<forall>now. still_allowed ns (sk_userId s) now t (i, orgId)"
          using always_allowed [OF assms(1) ns] by blast
        then show ?thesis using True x(2) \<open>x = s\<close> kind i parse_join_ids(1) [OF parsed]
          by (auto simp: socket_rooms_def enter_def map_set_other map_set_self)
            (metis map_set_other map_set_self)+
      qed (use x(2) in auto)
    qed (auto simp: result gateway_facts enter_def)
  qed (use ok1 d in \<open>simp_all add: join_room_def\<close>)
qed

lemma leave_rooms_ok:
  assumes "rooms_ok X t gw" "kind \<noteq> Call_Room"
  shows "rooms_ok X t (leave_request zod_uuid kind s request gw)"
proof (cases "parse_leave zod_uuid kind request")
  case None
  then show ?thesis using assms(1) by (simp add: leave_request_def)
next
  case (Some i)
  have kind: "main_room (namespace_of kind) = kind" using assms(2) by (cases kind) simp_all
  have exit: "exit_room kind i x = without kind {i} x" for x
    using exit_room_without [of kind i "{}" x] by simp
  have result: "gw_sockets (leave_request zod_uuid kind s request gw) =
      gw_sockets (update_socket (namespace_of kind) (sk_id s) (exit_room kind i) gw)"
    using assms(2) by (simp add: leave_request_def Some Let_def gateway_facts)
  show ?thesis
    by (rule rooms_ok_map [OF assms(1), where f =
          "\<lambda>ns x. if ns = namespace_of kind \<and> sk_id x = sk_id s then exit_room kind i x else x"])
      (auto simp: result gateway_facts exit kind intro: socket_rooms_without [where ns = "namespace_of kind", unfolded kind])
qed

lemma connect_rooms_ok:
  assumes "rooms_ok X t gw" "sid \<notin> sk_id ` set (gw_sockets gw ns)"
  shows "rooms_ok X t (connect ns sid client identity address lead now gw)"
proof -
  have new: "socket_rooms X t ns \<lparr>sk_id = sid, sk_client = client, sk_userId = u, sk_sessionId = z,
      sk_rooms = [], sk_joined = (if ns = Board_Ns then [userRoom u] else [])\<rparr>" for u z
    by (cases ns) (simp_all add: socket_rooms_def userRoom_def)
  show ?thesis using assms new
    by (auto simp: connect_def Let_def rooms_ok_def send_sockets update_sockets_def split: prod.splits)
qed

lemma gateway_step_ok:
  assumes "gateway_step zod_uuid x y" "tenancy_ok (fst x)" "rooms_ok nobody (fst x) (snd x)"
  shows "tenancy_ok (fst y) \<and> rooms_ok nobody (fst y) (snd y)"
  using assms
proof (induction rule: gateway_step.induct)
  case (Connects sid gw ns t client identity address lead now)
  then show ?case using connect_rooms_ok by simp
next
  case (Joins s gw kind t request now)
  then show ?case using join_rooms_ok by simp
next
  case (Leaves s gw kind t request)
  then show ?case using leave_rooms_ok by simp
next
  case (Types s gw t request typing)
  then show ?case by (simp add: rooms_ok_same [OF relayTyping_sockets])
next
  case (Signals s gw t signal now)
  then show ?case by (simp add: rooms_ok_same [OF rtc_signal_sockets])
next
  case (Redelivers t gw row now)
  then show ?case using dispatch_rooms_ok rooms_ok_weaken by simp
next
  case (Disconnects t gw client)
  then have "rooms_ok nobody t gw" by simp
  then have "rooms_ok nobody t (disconnect client gw)"
    by (rule rooms_ok_filter) (auto simp: disconnect_sockets)
  then show ?case using Disconnects by simp
next
  case (Serves t t' gw now)
  then show ?case using served_rooms_ok by simp
qed

lemma gateway_steps_ok:
  "gateway_steps zod_uuid x y \<Longrightarrow> tenancy_ok (fst x) \<Longrightarrow> rooms_ok nobody (fst x) (snd x) \<Longrightarrow>
     tenancy_ok (fst y) \<and> rooms_ok nobody (fst y) (snd y)"
  by (induction rule: gateway_steps.induct) (auto dest: gateway_step_ok)

end
