(* ===== verification/Relay.thy ===== *)
theory Relay
  imports Gateway
begin

text \<open>
  The relay that drains the outbox, \<open>apps/realtime/src/relay.ts\<close>, over the queue operations of
  \<open>packages/db/src/outbox.ts\<close>. \<open>deliver\<close> is the dispatch of a row: it may fail with a message, and it
  changes a state of its own.
\<close>

section \<open>The queue\<close>

record dispatch_row =
  d_attempts :: nat
  d_lastError :: "string option"
  d_dispatchedAt :: "int option"

text \<open>The rows, and the dispatch table by event and consumer.\<close>

record queue =
  q_rows :: "OutboxRow list"
  q_dispatch :: "string \<times> string \<Rightarrow> dispatch_row option"

definition undispatched :: "string \<Rightarrow> queue \<Rightarrow> OutboxRow \<Rightarrow> bool" where
  "undispatched consumer q row =
     (case q_dispatch q (ob_id row, consumer) of None \<Rightarrow> True | Some d \<Rightarrow> d_dispatchedAt d = None)"

text \<open>\<open>ORDER BY occurred_at, id\<close>: the sort is stable.\<close>

definition oldest_first :: "OutboxRow list \<Rightarrow> OutboxRow list" where
  "oldest_first rows = sort_key ob_occurredAt (sort_key ob_id rows)"

definition pending :: "string \<Rightarrow> queue \<Rightarrow> OutboxRow list" where
  "pending consumer q = filter (undispatched consumer q) (oldest_first (q_rows q))"

definition claimPending :: "string \<Rightarrow> nat \<Rightarrow> queue \<Rightarrow> OutboxRow list" where
  "claimPending consumer limit q = take limit (pending consumer q)"

definition markDispatched :: "string \<Rightarrow> string list \<Rightarrow> int \<Rightarrow> queue \<Rightarrow> queue" where
  "markDispatched consumer ids now q =
     q\<lparr>q_dispatch := (\<lambda>(i, c). if c = consumer \<and> i \<in> set ids
         then Some (case q_dispatch q (i, c) of
                      None \<Rightarrow> \<lparr>d_attempts = 0, d_lastError = None, d_dispatchedAt = Some now\<rparr>
                    | Some d \<Rightarrow> d\<lparr>d_dispatchedAt := Some now\<rparr>)
         else q_dispatch q (i, c))\<rparr>"

definition recordFailure :: "string \<Rightarrow> string \<Rightarrow> string \<Rightarrow> queue \<Rightarrow> queue" where
  "recordFailure consumer i error q =
     q\<lparr>q_dispatch := (q_dispatch q)((i, consumer) :=
         Some (case q_dispatch q (i, consumer) of
                 None \<Rightarrow> \<lparr>d_attempts = 1, d_lastError = Some (take 1000 error), d_dispatchedAt = None\<rparr>
               | Some d \<Rightarrow> d\<lparr>d_attempts := d_attempts d + 1, d_lastError := Some (take 1000 error)\<rparr>))\<rparr>"

section \<open>The drain\<close>

definition BATCH_SIZE :: nat where "BATCH_SIZE = 100"
definition CONSUMER :: string where "CONSUMER = ''realtime''"

text \<open>The loop over a batch: the ids delivered, and a failure recorded for each of the others.\<close>

fun deliver_batch ::
  "(OutboxRow \<Rightarrow> 's \<Rightarrow> string option \<times> 's) \<Rightarrow> OutboxRow list \<Rightarrow> queue \<Rightarrow> 's \<Rightarrow>
   string list \<times> queue \<times> 's" where
  "deliver_batch deliver [] q s = ([], q, s)"
| "deliver_batch deliver (row # rows) q s =
     (case deliver row s of
        (None, s1) \<Rightarrow>
          (let (ids, q2, s2) = deliver_batch deliver rows q s1 in (ob_id row # ids, q2, s2))
      | (Some error, s1) \<Rightarrow>
          deliver_batch deliver rows (recordFailure CONSUMER (ob_id row) error q) s1)"

record drained =
  dr_claimed :: nat
  dr_delivered :: nat

definition drainOnce ::
  "(OutboxRow \<Rightarrow> 's \<Rightarrow> string option \<times> 's) \<Rightarrow> int \<Rightarrow> queue \<Rightarrow> 's \<Rightarrow> drained \<times> queue \<times> 's" where
  "drainOnce deliver now q s =
     (let rows = claimPending CONSUMER BATCH_SIZE q in
      if rows = [] then (\<lparr>dr_claimed = 0, dr_delivered = 0\<rparr>, q, s)
      else
        (let (ids, q1, s1) = deliver_batch deliver rows q s
         in (\<lparr>dr_claimed = length rows, dr_delivered = length ids\<rparr>, markDispatched CONSUMER ids now q1, s1)))"

text \<open>\<open>for (;;)\<close>: the loop ends with the first batch that is not full.\<close>

partial_function (option) drainFully ::
  "(OutboxRow \<Rightarrow> 's \<Rightarrow> string option \<times> 's) \<Rightarrow> int \<Rightarrow> nat \<Rightarrow> queue \<Rightarrow> 's \<Rightarrow> (nat \<times> queue \<times> 's) option" where
  "drainFully deliver now sofar q s =
     (case drainOnce deliver now q s of
        (d, q1, s1) \<Rightarrow>
          if dr_claimed d < BATCH_SIZE then Some (sofar + dr_delivered d, q1, s1)
          else drainFully deliver now (sofar + dr_delivered d) q1 s1)"

text \<open>A tick drains unless one is running or the relay has stopped; an error of the drain is logged.\<close>

definition tick ::
  "bool \<Rightarrow> bool \<Rightarrow> (OutboxRow \<Rightarrow> 's \<Rightarrow> string option \<times> 's) \<Rightarrow> int \<Rightarrow> queue \<Rightarrow> 's \<Rightarrow> (queue \<times> 's) option" where
  "tick running stopped deliver now q s =
     (if running \<or> stopped then Some (q, s)
      else map_option snd (drainFully deliver now 0 q s))"

section \<open>What a drain does\<close>

lemma markDispatched_undispatched:
  "undispatched consumer (markDispatched consumer ids now q) row \<longleftrightarrow>
     ob_id row \<notin> set ids \<and> undispatched consumer q row"
  by (auto simp: undispatched_def markDispatched_def split: option.splits)

lemma recordFailure_undispatched:
  "undispatched consumer (recordFailure consumer i error q) row = undispatched consumer q row"
  by (auto simp: undispatched_def recordFailure_def split: option.splits)

lemma queue_rows [simp]:
  "q_rows (markDispatched consumer ids now q) = q_rows q"
  "q_rows (recordFailure consumer i error q) = q_rows q"
  by (simp_all add: markDispatched_def recordFailure_def)

locale poison_rows =
  fixes deliver :: "OutboxRow \<Rightarrow> 's \<Rightarrow> string option \<times> 's"
    and poison :: "OutboxRow \<Rightarrow> bool"
  assumes fails: "fst (deliver row s) \<noteq> None \<longleftrightarrow> poison row"
begin

lemma batch_spec:
  assumes "deliver_batch deliver rows q s = (ids, q1, s1)"
  shows "ids = map ob_id (filter (\<lambda>r. \<not> poison r) rows) \<and> q_rows q1 = q_rows q \<and>
    undispatched CONSUMER q1 = undispatched CONSUMER q"
  using assms
proof (induction rows arbitrary: q s ids q1 s1)
  case (Cons row rows)
  obtain e s' where d: "deliver row s = (e, s')" by (cases "deliver row s")
  show ?case
  proof (cases e)
    case None
    then have "\<not> poison row" using fails [of row s] d by simp
    then show ?thesis using Cons d None by (auto split: prod.splits)
  next
    case (Some x)
    then have "poison row" using fails [of row s] d by simp
    then show ?thesis using Cons.IH Cons.prems d Some recordFailure_undispatched by fastforce
  qed
qed simp

text \<open>Every row of a batch is handed over, in order, whether or not one before it failed.\<close>

lemma batch_state:
  "snd (snd (deliver_batch deliver rows q s)) = fold (\<lambda>r s. snd (deliver r s)) rows s"
  by (induction rows arbitrary: q s) (auto split: prod.splits option.splits, metis snd_conv)

lemma drainOnce_state:
  assumes "drainOnce deliver now q s = (d, q1, s1)"
  shows "s1 = fold (\<lambda>r s. snd (deliver r s)) (take BATCH_SIZE (pending CONSUMER q)) s"
proof -
  obtain ids q2 s2 where b: "deliver_batch deliver (take BATCH_SIZE (pending CONSUMER q)) q s = (ids, q2, s2)"
    by (metis prod_cases3)
  show ?thesis using assms b batch_state [of "take BATCH_SIZE (pending CONSUMER q)" q s]
    by (auto simp: drainOnce_def claimPending_def Let_def split: if_splits)
qed

text \<open>One batch takes the healthy rows off the front of the queue and leaves the others where they are.\<close>

lemma drainOnce_spec:
  assumes "drainOnce deliver now q s = (d, q1, s1)" "distinct (map ob_id (q_rows q))"
  defines "P \<equiv> pending CONSUMER q"
  shows "dr_claimed d = length (take BATCH_SIZE P)"
    and "dr_delivered d = length (filter (\<lambda>r. \<not> poison r) (take BATCH_SIZE P))"
    and "pending CONSUMER q1 = filter poison (take BATCH_SIZE P) @ drop BATCH_SIZE P"
    and "q_rows q1 = q_rows q"
proof -
  have PT: "P = take BATCH_SIZE P @ drop BATCH_SIZE P" by simp
  have dist: "distinct (map ob_id P)"
  proof -
    have "mset (oldest_first (q_rows q)) = mset (q_rows q)" by (simp add: oldest_first_def)
    then have "distinct (map ob_id (oldest_first (q_rows q)))"
      using assms(2) by (metis mset_eq_imp_distinct_iff mset_map)
    then show ?thesis by (simp add: P_def pending_def distinct_map_filter)
  qed
  obtain ids q2 s2 where b: "deliver_batch deliver (take BATCH_SIZE P) q s = (ids, q2, s2)"
    by (metis prod_cases3)
  note spec = batch_spec [OF b]
  have res: "dr_claimed d = length (take BATCH_SIZE P) \<and> dr_delivered d = length ids \<and>
      pending CONSUMER q1 = filter (\<lambda>r. ob_id r \<notin> set ids) P \<and> q_rows q1 = q_rows q"
  proof (cases "take BATCH_SIZE P = []")
    case True
    then have "P = []" by (simp add: BATCH_SIZE_def)
    then show ?thesis using assms(1) b
      by (auto simp: drainOnce_def claimPending_def P_def Let_def BATCH_SIZE_def)
  next
    case False
    then have q1: "q1 = markDispatched CONSUMER ids now q2" and d: "d = \<lparr>dr_claimed = length (take BATCH_SIZE P), dr_delivered = length ids\<rparr>"
      using assms(1) b by (auto simp: drainOnce_def claimPending_def P_def Let_def)
    have "undispatched CONSUMER q1 r \<longleftrightarrow> ob_id r \<notin> set ids \<and> undispatched CONSUMER q r" for r
      using spec by (simp add: q1 markDispatched_undispatched)
    then show ?thesis using spec
      by (auto simp: d q1 pending_def P_def filter_filter intro!: filter_cong)
  qed
  have in_ids: "ob_id r \<in> set ids \<longleftrightarrow> \<not> poison r \<and> r \<in> set (take BATCH_SIZE P)" if "r \<in> set P" for r
  proof -
    have "x = r" if "x \<in> set (take BATCH_SIZE P)" "ob_id x = ob_id r" for x
      using dist that \<open>r \<in> set P\<close> by (meson distinct_map inj_onD in_set_takeD)
    then show ?thesis using spec by auto
  qed
  have front: "filter (\<lambda>r. ob_id r \<notin> set ids) (take BATCH_SIZE P) = filter poison (take BATCH_SIZE P)"
    by (rule filter_cong) (simp_all add: in_ids [OF in_set_takeD])
  have disj: "r \<notin> set (take BATCH_SIZE P)" if "r \<in> set (drop BATCH_SIZE P)" for r
  proof -
    have "distinct (take BATCH_SIZE P @ drop BATCH_SIZE P)" using dist by (simp add: distinct_map)
    then show ?thesis using that by (auto simp del: append_take_drop_id)
  qed
  have rear: "filter (\<lambda>r. ob_id r \<notin> set ids) (drop BATCH_SIZE P) = drop BATCH_SIZE P"
    by (rule filter_True) (simp add: in_ids [OF in_set_dropD] disj)
  have "filter (\<lambda>r. ob_id r \<notin> set ids) P = filter poison (take BATCH_SIZE P) @ drop BATCH_SIZE P"
    by (subst PT) (simp only: filter_append front rear)
  then show "pending CONSUMER q1 = filter poison (take BATCH_SIZE P) @ drop BATCH_SIZE P"
    using res by simp
  show "dr_claimed d = length (take BATCH_SIZE P)" "q_rows q1 = q_rows q" using res by simp_all
  show "dr_delivered d = length (filter (\<lambda>r. \<not> poison r) (take BATCH_SIZE P))" using res spec by simp
qed

lemma drainOnce_poison:
  assumes "drainOnce deliver now q s = (d, q1, s1)" "distinct (map ob_id (q_rows q))"
  shows "filter poison (pending CONSUMER q1) = filter poison (pending CONSUMER q)"
    and "length (filter (\<lambda>r. \<not> poison r) (pending CONSUMER q)) =
      dr_delivered d + length (filter (\<lambda>r. \<not> poison r) (pending CONSUMER q1))"
proof -
  let ?P = "pending CONSUMER q"
  have P: "filter X ?P = filter X (take BATCH_SIZE ?P) @ filter X (drop BATCH_SIZE ?P)" for X
    by (metis append_take_drop_id filter_append)
  show "filter poison (pending CONSUMER q1) = filter poison ?P"
    using drainOnce_spec [OF assms] by (simp add: P [of poison])
  show "length (filter (\<lambda>r. \<not> poison r) ?P) =
      dr_delivered d + length (filter (\<lambda>r. \<not> poison r) (pending CONSUMER q1))"
    using drainOnce_spec [OF assms] by (simp add: P [of "\<lambda>r. \<not> poison r"] filter_filter)
qed

text \<open>A drain that ends has left fewer failing rows than a batch, and nothing else.\<close>

lemma drainFully_result:
  assumes "drainFully deliver now sofar q s = Some y" "distinct (map ob_id (q_rows q))"
  shows "length (filter poison (pending CONSUMER q)) < BATCH_SIZE \<and>
    pending CONSUMER (fst (snd y)) = filter poison (pending CONSUMER q) \<and>
    fst y = sofar + length (filter (\<lambda>r. \<not> poison r) (pending CONSUMER q)) \<and>
    (filter poison (pending CONSUMER q) = [] \<longrightarrow>
       snd (snd y) = fold (\<lambda>r s. snd (deliver r s)) (pending CONSUMER q) s)"
proof -
  have "deliver' = deliver \<longrightarrow> distinct (map ob_id (q_rows q)) \<longrightarrow>
    length (filter poison (pending CONSUMER q)) < BATCH_SIZE \<and>
    pending CONSUMER (fst (snd y)) = filter poison (pending CONSUMER q) \<and>
    fst y = sofar + length (filter (\<lambda>r. \<not> poison r) (pending CONSUMER q)) \<and>
    (filter poison (pending CONSUMER q) = [] \<longrightarrow>
       snd (snd y) = fold (\<lambda>r s. snd (deliver r s)) (pending CONSUMER q) s)"
    if "drainFully deliver' now sofar q s = Some y" for deliver'
    using that
  proof (induction rule: drainFully.raw_induct [rotated, consumes 1, case_names step])
    case (step rec deliver' now sofar q s y)
    show ?case
    proof (intro impI)
      assume deliver: "deliver' = deliver" and dist: "distinct (map ob_id (q_rows q))"
      obtain d q1 s1 where d: "drainOnce deliver now q s = (d, q1, s1)" by (metis prod_cases3)
      note once = drainOnce_spec [OF d dist] and keep = drainOnce_poison [OF d dist]
        and state = drainOnce_state [OF d]
      let ?P = "pending CONSUMER q"
      show "length (filter poison ?P) < BATCH_SIZE \<and>
        pending CONSUMER (fst (snd y)) = filter poison ?P \<and>
        fst y = sofar + length (filter (\<lambda>r. \<not> poison r) ?P) \<and>
        (filter poison ?P = [] \<longrightarrow> snd (snd y) = fold (\<lambda>r s. snd (deliver r s)) ?P s)"
      proof (cases "dr_claimed d < BATCH_SIZE")
        case True
        then have short: "length ?P < BATCH_SIZE" using once(1) by simp
        then have "length (filter poison ?P) < BATCH_SIZE"
          using length_filter_le le_less_trans by blast
        moreover have "y = (sofar + dr_delivered d, q1, s1)" using step(2) d deliver True by simp
        ultimately show ?thesis using once state short by simp
      next
        case False
        then have more: "rec deliver now (sofar + dr_delivered d) q1 s1 = Some y" using step(2) d deliver by simp
        have "fold (\<lambda>r s. snd (deliver r s)) (pending CONSUMER q1) s1 =
            fold (\<lambda>r s. snd (deliver r s)) ?P s" if "filter poison ?P = []"
        proof -
          have "filter poison (take BATCH_SIZE ?P) = []"
            using that by (auto simp: filter_empty_conv dest: in_set_takeD)
          then have "pending CONSUMER q1 = drop BATCH_SIZE ?P" using once(3) by simp
          then show ?thesis unfolding state by (metis append_take_drop_id fold_append comp_apply)
        qed
        then show ?thesis using step(1) [OF more] dist once(4) keep by auto
      qed
    qed
  qed
  then show ?thesis using assms by blast
qed

text \<open>With fewer failing rows than a batch every drain ends.\<close>

lemma drainFully_ends:
  assumes "length (filter poison (pending CONSUMER q)) < BATCH_SIZE" "distinct (map ob_id (q_rows q))"
  shows "\<exists>y. drainFully deliver now sofar q s = Some y"
  using assms
proof (induction "length (filter (\<lambda>r. \<not> poison r) (pending CONSUMER q))" arbitrary: sofar q s rule: less_induct)
  case less
  obtain d q1 s1 where d: "drainOnce deliver now q s = (d, q1, s1)" by (metis prod_cases3)
  note once = drainOnce_spec [OF d less.prems(2)] and keep = drainOnce_poison [OF d less.prems(2)]
  show ?case
  proof (cases "dr_claimed d < BATCH_SIZE")
    case True
    then show ?thesis by (subst drainFully.simps) (simp add: d)
  next
    case False
    let ?T = "take BATCH_SIZE (pending CONSUMER q)"
    have "length (filter poison ?T) \<le> length (filter poison (pending CONSUMER q))"
      by (metis append_take_drop_id filter_append length_append le_add1)
    moreover have "length ?T = BATCH_SIZE" using False once(1) by simp
    ultimately have "0 < length (filter (\<lambda>r. \<not> poison r) ?T)"
      using less.prems(1) sum_length_filter_compl [of poison ?T] by linarith
    then have "length (filter (\<lambda>r. \<not> poison r) (pending CONSUMER q1)) < length (filter (\<lambda>r. \<not> poison r) (pending CONSUMER q))"
      using once(2) keep(2) by simp
    from less.hyps [OF this, of "sofar + dr_delivered d" s1] show ?thesis
      using less.prems keep(1) once(4) False by (subst drainFully.simps) (simp add: d)
  qed
qed

end

section \<open>The gateway as the relay's consumer\<close>

text \<open>
  The dispatch of \<open>gateway.ts\<close> over a transport that may report a failure for a row after what it sent:
  \<open>transport\<close> says for which rows, and with what message.
\<close>

definition delivery ::
  "(OutboxRow \<Rightarrow> string option) \<Rightarrow> int \<Rightarrow> tenancy \<Rightarrow> OutboxRow \<Rightarrow> gateway \<Rightarrow> string option \<times> gateway" where
  "delivery transport now t row gw = (transport row, dispatch row now t gw)"

interpretation relay: poison_rows "delivery transport now t" "\<lambda>row. transport row \<noteq> None"
  for transport now t
  by unfold_locales (simp add: delivery_def)

end
