(* ===== verification/Realtime_Correct.thy ===== *)
theory Realtime_Correct
  imports Rooms_Invariant Relay
begin

text \<open>
  The properties of the realtime gateway: whoever is in a room may read it, what a sweep changes, when a
  drain of the outbox ends, and the ways a loss of access is not noticed. They are evaluated on a small
  organization: its owner, an administrator, a member who reaches a private channel through a team, and a
  phone call, with the member's chat socket.
\<close>

section \<open>An organization and a gateway\<close>

definition acme :: string where "acme = ''10000000-0000-4000-8000-000000000001''"
definition boss :: string where "boss = ''20000000-0000-4000-8000-000000000001''"
definition ann :: string where "ann = ''20000000-0000-4000-8000-000000000002''"
definition kim :: string where "kim = ''20000000-0000-4000-8000-000000000003''"
definition ops :: string where "ops = ''30000000-0000-4000-8000-000000000001''"
definition war_room :: string where "war_room = ''40000000-0000-4000-8000-000000000001''"
definition phone_call :: string where "phone_call = ''50000000-0000-4000-8000-000000000001''"

definition team_tuple :: "int option \<Rightarrow> TupleRow" where
  "team_tuple expiry =
     \<lparr>tp_id = ''g1'', tp_orgId = acme, tp_subjectType = ''team'', tp_subjectId = ops, tp_relation = ''member'',
      tp_objectType = ''channel'', tp_objectId = war_room, tp_grantedBy = boss, tp_expiresAt = expiry,
      tp_isGuest = False\<rparr>"

definition acme_with :: "int option \<Rightarrow> tenancy" where
  "acme_with expiry =
     \<lparr>users = [], orgs = [\<lparr>o_id = acme, o_status = ''active''\<rparr>],
      members = [\<lparr>mb_id = ''m1'', mb_orgId = acme, mb_userId = boss, mb_role = ''owner'', mb_status = ''active'',
                  mb_updatedAt = 0\<rparr>,
                 \<lparr>mb_id = ''m2'', mb_orgId = acme, mb_userId = ann, mb_role = ''member'', mb_status = ''active'',
                  mb_updatedAt = 0\<rparr>,
                 \<lparr>mb_id = ''m3'', mb_orgId = acme, mb_userId = kim, mb_role = ''admin'', mb_status = ''active'',
                  mb_updatedAt = 0\<rparr>],
      teams = [\<lparr>t_id = ops, t_orgId = acme, t_name = ''Ops'', t_slug = ''ops''\<rparr>],
      teamMembers = [\<lparr>tm_orgId = acme, tm_teamId = ops, tm_userId = ann\<rparr>],
      tuples = [team_tuple expiry], memberGrants = [],
      channels = [\<lparr>ch_id = war_room, ch_orgId = acme, ch_type = ''private''\<rparr>],
      calls = [\<lparr>call_id = phone_call, call_orgId = acme\<rparr>], sessions = [], participants = [], events = [],
      work = \<lparr>cards = [], lists = [], boards = [], projects = [], statuses = [], memberships = [],
              outbox = []\<rparr>\<rparr>"

abbreviation acme_now :: tenancy where "acme_now \<equiv> acme_with None"

definition roomy :: limiter where
  "roomy = \<lparr>lim_limit = 60, lim_windowMs = 60000, lim_windows = (\<lambda>_. None)\<rparr>"

definition idle :: gateway where
  "idle = \<lparr>gw_sockets = (\<lambda>_. []), gw_connections = roomy, gw_joins = roomy, gw_refused = roomy,
           gw_signals = roomy, gw_sent = []\<rparr>"



















section \<open>Rooms and access\<close>







section \<open>The relay\<close>

text \<open>C25: the drain of the outbox ends exactly when fewer events than a batch keep failing. Then every
  other pending event has been delivered and counted and only the failing ones are left; without failing
  events they were dispatched in order, oldest first, once each. With a batch or more of failing events
  at once the drain never returns: it claims the same oldest rows for ever.\<close>

theorem relay_drains_iff:
  assumes "distinct (map ob_id (q_rows q))"
  shows "case drainFully (delivery transport now t) now 0 q gw of
     None \<Rightarrow> BATCH_SIZE \<le> length (filter (\<lambda>row. transport row \<noteq> None) (pending CONSUMER q))
   | Some (n, q', gw') \<Rightarrow>
       length (filter (\<lambda>row. transport row \<noteq> None) (pending CONSUMER q)) < BATCH_SIZE \<and>
       pending CONSUMER q' = filter (\<lambda>row. transport row \<noteq> None) (pending CONSUMER q) \<and>
       n = length (filter (\<lambda>row. transport row = None) (pending CONSUMER q)) \<and>
       (pending CONSUMER q' = [] \<longrightarrow> gw' = fold (\<lambda>row. dispatch row now t) (pending CONSUMER q) gw)"
proof (cases "drainFully (delivery transport now t) now 0 q gw")
  case None
  then show ?thesis using relay.drainFully_ends [OF _ assms, of transport now t now 0 gw] by force
next
  case (Some y)
  then show ?thesis using relay.drainFully_result [OF Some assms]
    by (auto simp: delivery_def split: prod.splits)
qed

definition two_rows :: queue where
  "two_rows = \<lparr>q_rows = map (\<lambda>(i, at). \<lparr>ob_id = i, ob_orgId = acme, ob_name = ''card.moved'', ob_version = 1,
       ob_actorId = None, ob_requestId = None, ob_occurredAt = at, ob_causationDepth = 0,
       ob_payload = JObj []\<rparr>) [(''b'', 2), (''a'', 1)],
     q_dispatch = (\<lambda>_. None)\<rparr>"

definition fails_a :: "OutboxRow \<Rightarrow> string option" where
  "fails_a row = (if ob_id row = ''a'' then Some ''adapter down'' else None)"

theorem relay_drains_iff_witness:
  "case drainFully (delivery fails_a 0 acme_now) 0 0 two_rows idle of
     None \<Rightarrow> False | Some (n, q', gw') \<Rightarrow> n = 1 \<and> map ob_id (pending CONSUMER q') = [''a'']"
proof -
  have "distinct (map ob_id (q_rows two_rows))" by (simp add: two_rows_def)
  note drains = relay_drains_iff [OF this, of fails_a 0 acme_now idle]
  have "map ob_id (filter (\<lambda>row. fails_a row \<noteq> None) (pending CONSUMER two_rows)) = [''a'']"
    "length (filter (\<lambda>row. fails_a row = None) (pending CONSUMER two_rows)) = 1"
    by (simp_all add: pending_def oldest_first_def undispatched_def two_rows_def fails_a_def)
  then show ?thesis using drains
    by (auto simp: BATCH_SIZE_def dest: map_eq_imp_length_eq split: option.splits)
qed

section \<open>Losses of access nobody notices\<close>





definition with_call_grant :: tenancy where
  "with_call_grant = acme_now\<lparr>memberGrants :=
     [\<lparr>mg_id = ''mg1'', mg_orgId = acme, mg_membershipId = ''m2'', mg_permission = ''call:read'', mg_revokedAt = None\<rparr>]\<rparr>"

text \<open>A member given \<open>call:read\<close> individually may read calls over HTTP, whose subject carries the grants of
  the membership, and is refused the room of every call: the subject the gateway decides on leaves the
  grants out.\<close>

theorem call_grant_ignored:
  "(case resolveOrgMembership ann acme 0 with_call_grant of
      Inr (Some m) \<Rightarrow>
        dec_allowed (can ((join_subject ann m)\<lparr>sub_memberGrants := Some (om_memberGrants m)\<rparr>) ''call:read'' None)
    | _ \<Rightarrow> False) \<and>
   (case authorizeCallJoin ann acme phone_call 0 with_call_grant of
      Inr a \<Rightarrow> \<not> ja_allowed a \<and> ja_reason a = Denied | Inl _ \<Rightarrow> False)"
  by (intro conjI) code_simp+


end
