(* ===== verification/Owners.thy ===== *)
theory Owners
  imports Tenancy_Access
begin

text \<open>
  An organization keeps an owner: one service at a time it does, and two at a time it may not. The route
  of \<open>transferOwnership\<close> asks for \<open>member:manage\<close>.
\<close>

section \<open>One service at a time\<close>

definition has_owner :: "string \<Rightarrow> tenancy \<Rightarrow> bool" where
  "has_owner orgId t =
     list_ex (\<lambda>m. mb_orgId m = orgId \<and> mb_role m = ''owner'' \<and> mb_status m = ''active'') (members t)"

text \<open>
  Primary keys, one membership for a user of an organization, no membership but active ones (no service
  writes another status), and individual grants of grantable permissions only.
\<close>

definition members_ok :: "tenancy \<Rightarrow> bool" where
  "members_ok t \<longleftrightarrow> distinct (map mb_id (members t)) \<and>
     distinct (map (\<lambda>m. (mb_orgId m, mb_userId m)) (members t)) \<and>
     (\<forall>m \<in> set (members t). mb_status m = ''active'') \<and>
     (\<forall>g \<in> set (memberGrants t). isGrantable (mg_permission g))"

text \<open>What the route's middleware checked of the actor.\<close>

definition may_manage :: "string \<Rightarrow> Actor \<Rightarrow> int \<Rightarrow> tenancy \<Rightarrow> bool" where
  "may_manage orgId actor now t =
     (case resolveOrgMembership (act_userId actor) orgId now t of
        Inr (Some m) \<Rightarrow>
          dec_allowed (can \<lparr>sub_orgId = om_orgId m, sub_userId = act_userId actor, sub_role = om_role m,
                            sub_tuples = om_tuples m, sub_memberGrants = Some (om_memberGrants m)\<rparr>
                         ''member:manage'' None)
      | _ \<Rightarrow> False)"

inductive managed :: "tenancy \<Rightarrow> tenancy \<Rightarrow> bool" where
  Added: "addMember orgId email role actor membershipId drawn t = Inr (r, t') \<Longrightarrow>
    membershipId \<notin> mb_id ` set (members t) \<Longrightarrow> managed t t'"
| Changed: "changeRole orgId userId role actor drawn t = Inr (r, t') \<Longrightarrow> managed t t'"
| Removed: "removeMember orgId userId actor drawn t = Inr t' \<Longrightarrow> managed t t'"
| Transferred: "transferOwnership orgId toUserId selfNewRole actor drawn t = Inr t' \<Longrightarrow>
    idSchema orgId = Some orgId \<Longrightarrow> may_manage orgId actor now t \<Longrightarrow> managed t t'"
| Granted_One: "grant_member orgId userId permission actor grantId drawn t = Inr (r, t') \<Longrightarrow> managed t t'"
| Revoked_One: "revoke_member orgId userId permission actor drawn t = Inr t' \<Longrightarrow> managed t t'"
| Revoked_All: "revokeAll orgId userId actor drawn t = Inr (ps, t') \<Longrightarrow> managed t t'"

lemma has_owner_iff:
  "has_owner orgId t \<longleftrightarrow>
     (\<exists>m \<in> set (members t). mb_orgId m = orgId \<and> mb_role m = ''owner'' \<and> mb_status m = ''active'')"
  by (simp add: has_owner_def list_ex_iff)

lemma manage_owner_only: "roleGrants role ''member:manage'' \<longleftrightarrow> role = ''owner''" "\<not> isGrantable ''member:manage''"
proof -
  have "isPermission ''member:manage'' \<and> ''member:manage'' \<notin> set ADMIN \<and> ''member:manage'' \<notin> set MEMBER"
    by code_simp
  then show "roleGrants role ''member:manage'' \<longleftrightarrow> role = ''owner''" by (auto simp: roleGrants_eq)
  show "\<not> isGrantable ''member:manage''" by code_simp
qed

lemma may_manage_owner:
  assumes "may_manage orgId actor now t" "idSchema orgId = Some orgId" "members_ok t"
  shows "\<exists>m. member_of orgId (act_userId actor) t = Some m \<and> mb_role m = ''owner''"
proof -
  obtain m where "access (act_userId actor) orgId now t = Some m"
    and c: "dec_allowed (can \<lparr>sub_orgId = om_orgId m, sub_userId = act_userId actor, sub_role = om_role m,
        sub_tuples = om_tuples m, sub_memberGrants = Some (om_memberGrants m)\<rparr> ''member:manage'' None)"
    using assms(1) by (auto simp: may_manage_def access_def split: sum.splits option.splits)
  then obtain row where row: "member_of orgId (act_userId actor) t = Some row" "om_role m = mb_role row"
    "om_memberGrants m = loadMemberGrants orgId (mb_id row) t"
    using assms(2) by (auto simp: access_iff)
  have "''member:manage'' \<notin> set (loadMemberGrants orgId (mb_id row) t)"
    using assms(3) manage_owner_only(2) by (auto simp: loadMemberGrants_def members_ok_def)
  then have "mb_role row = ''owner''"
    using c row manage_owner_only(1) [of "mb_role row"]
    by (auto simp: can_allowed_iff policy_allows_def standing_def hasMemberGrant_def)
  then show ?thesis using row(1) by blast
qed

lemma member_of_unique:
  assumes "members_ok t" "member_of orgId u t = Some m" "m' \<in> set (members t)"
    "mb_orgId m' = orgId" "mb_userId m' = u"
  shows "m' = m"
proof -
  have "inj_on (\<lambda>m. (mb_orgId m, mb_userId m)) (set (members t))"
    using assms(1) by (simp add: members_ok_def distinct_map)
  then show ?thesis using member_ofD [OF assms(2)] assms(3-5) by (simp add: inj_on_def)
qed

lemma member_id_unique:
  "members_ok t \<Longrightarrow> m \<in> set (members t) \<Longrightarrow> m' \<in> set (members t) \<Longrightarrow> mb_id m = mb_id m' \<Longrightarrow> m = m'"
  by (meson distinct_map inj_onD members_ok_def)

text \<open>After the check, another owner's row is there, and the row that is written is not it.\<close>

lemma other_owner:
  assumes "members_ok t" "member_of orgId u t = Some membership" "has_owner orgId t"
    and "if isIndispensableRole (mb_role membership) then assertAnotherOwnerRemains orgId u t = Inr () else True"
  shows "\<exists>m \<in> set (members t). mb_orgId m = orgId \<and> mb_role m = ''owner'' \<and> mb_status m = ''active'' \<and>
    mb_id m \<noteq> mb_id membership"
proof (cases "mb_role membership = ''owner''")
  case True
  then obtain m where m: "m \<in> set (members t)" "mb_orgId m = orgId" "mb_role m = ''owner''" "mb_status m = ''active''"
    "mb_userId m \<noteq> u"
    using assms(4) by (auto simp: isIndispensableRole_def assertAnotherOwnerRemains_def list_ex_iff split: if_splits)
  moreover have "mb_id m \<noteq> mb_id membership"
    using member_id_unique [OF assms(1) m(1)] member_ofD [OF assms(2)] m(5) by auto
  ultimately show ?thesis by blast
next
  case False
  obtain m where m: "m \<in> set (members t)" "mb_orgId m = orgId" "mb_role m = ''owner''" "mb_status m = ''active''"
    using assms(3) by (auto simp: has_owner_iff)
  moreover have "mb_id m \<noteq> mb_id membership"
    using member_id_unique [OF assms(1) m(1)] member_ofD [OF assms(2)] m(3) False by auto
  ultimately show ?thesis by blast
qed

text \<open>A write of roles keeps the keys.\<close>

lemma members_ok_set_member:
  assumes "members_ok t" "\<And>m. mb_id (change m) = mb_id m" "\<And>m. mb_orgId (change m) = mb_orgId m"
    "\<And>m. mb_userId (change m) = mb_userId m" "\<And>m. mb_status (change m) = mb_status m"
  shows "members_ok (set_member picked change t)"
proof -
  have "map mb_id (members (set_member picked change t)) = map mb_id (members t)"
    "map (\<lambda>m. (mb_orgId m, mb_userId m)) (members (set_member picked change t)) =
      map (\<lambda>m. (mb_orgId m, mb_userId m)) (members t)"
    "memberGrants (set_member picked change t) = memberGrants t"
    by (simp_all add: set_member_def assms comp_def if_distrib cong: if_cong)
  moreover have "mb_status m = ''active''" if "m \<in> set (members (set_member picked change t))" for m
    using that assms(1,5) by (auto simp: set_member_def members_ok_def)
  ultimately show ?thesis using assms(1) by (simp add: members_ok_def)
qed

lemma members_ok_append_rows [simp]: "members_ok (append_rows drawn rows t) = members_ok t"
  by (simp add: members_ok_def)

lemma has_owner_append_rows [simp]: "has_owner orgId (append_rows drawn rows t) = has_owner orgId t"
  by (simp add: has_owner_def)

lemma managed_owner:
  assumes "managed t t'" "members_ok t"
  shows "members_ok t' \<and> (has_owner org t \<longrightarrow> has_owner org t')"
  using assms
proof (induction rule: managed.induct)
  case (Added orgId email role actor membershipId drawn t r t')
  then obtain user rows t1 where "find (\<lambda>u. u_emailNormalized u = to_lower (trim email)) (users t) = Some user"
    "member_of orgId (u_id user) t = None" "t' = append_rows drawn rows t1"
    "t1 = t\<lparr>members := members t @ [\<lparr>mb_id = membershipId, mb_orgId = orgId, mb_userId = u_id user,
       mb_role = role, mb_status = ''active'', mb_updatedAt = snd drawn\<rparr>]\<rparr>"
    by (auto simp: addMember_def split: if_splits option.splits)
  moreover from this have "\<forall>m \<in> set (members t). mb_orgId m = orgId \<longrightarrow> mb_userId m \<noteq> u_id user"
    by (auto simp: member_of_def find_None_iff)
  ultimately show ?case using Added.hyps(2) Added.prems
    by (auto simp: members_ok_def has_owner_iff image_iff)
next
  case (Changed orgId userId role actor drawn t r t')
  then consider "t' = t" | membership rows where "member_of orgId userId t = Some membership"
    "if isIndispensableRole (mb_role membership) then assertAnotherOwnerRemains orgId userId t = Inr () else True"
    "t' = append_rows drawn rows (set_member (\<lambda>m. mb_orgId m = orgId \<and> mb_id m = mb_id membership)
       (\<lambda>m. m\<lparr>mb_role := role, mb_updatedAt := snd drawn\<rparr>) t)"
    by (auto simp: changeRole_def knownRole_def split: if_splits option.splits)
  then show ?case
  proof cases
    case 2
    have "has_owner org (set_member (\<lambda>m. mb_orgId m = orgId \<and> mb_id m = mb_id membership)
       (\<lambda>m. m\<lparr>mb_role := role, mb_updatedAt := snd drawn\<rparr>) t)" if "has_owner org t"
    proof (cases "org = orgId")
      case True
      then show ?thesis using other_owner [OF Changed.prems 2(1) _ 2(2)] that
        by (auto simp: has_owner_iff set_member_def)
    next
      case False
      then show ?thesis using that by (force simp: has_owner_iff set_member_def)
    qed
    then show ?thesis using Changed.prems by (simp add: 2(3) members_ok_set_member)
  qed (use Changed.prems in simp)
next
  case (Removed orgId userId actor drawn t t')
  then obtain membership rows t1 t2 where *: "member_of orgId userId t = Some membership"
    "if isIndispensableRole (mb_role membership) then assertAnotherOwnerRemains orgId userId t = Inr () else True"
    "t1 = t\<lparr>members := filter (\<lambda>m. \<not> (mb_orgId m = orgId \<and> mb_id m = mb_id membership)) (members t),
        tuples := filter (\<lambda>p. \<not> (tp_orgId p = orgId \<and> tp_subjectType p = ''user'' \<and> tp_subjectId p = userId)) (tuples t),
        teamMembers := filter (\<lambda>m. \<not> (tm_orgId m = orgId \<and> tm_userId m = userId)) (teamMembers t),
        memberGrants := filter (\<lambda>g. mg_membershipId g \<noteq> mb_id membership) (memberGrants t)\<rparr>"
    "calls_only t1 t2" "t' = append_rows drawn rows t2"
    by (auto simp: removeMember_def knownRole_def Let_def split: if_splits option.splits dest!: leaveAll_calls)
  have same: "members t2 = members t1" "memberGrants t2 = memberGrants t1"
    using *(4) by (simp_all add: calls_only_def) (metis tenancy.select_convs tenancy.surjective tenancy.update_convs)+
  have "has_owner org t2" if "has_owner org t"
  proof (cases "org = orgId")
    case True
    then show ?thesis using other_owner [OF Removed.prems *(1) _ *(2)] that by (auto simp: has_owner_iff same *(3))
  next
    case False
    then show ?thesis using that by (auto simp: has_owner_iff same *(3))
  qed
  then show ?case using Removed.prems by (auto simp: *(5) members_ok_def same *(3) distinct_map_filter)
next
  case (Transferred orgId toUserId selfNewRole actor drawn t t' now)
  then obtain membership rows t1 where *: "member_of orgId toUserId t = Some membership"
    "mb_role membership \<noteq> ''owner''"
    "t1 = set_member (\<lambda>m. mb_orgId m = orgId \<and> mb_id m = mb_id membership)
       (\<lambda>m. m\<lparr>mb_role := ''owner'', mb_updatedAt := snd drawn\<rparr>) t"
    "t' = append_rows drawn rows (set_member (\<lambda>m. mb_orgId m = orgId \<and> mb_userId m = act_userId actor)
       (\<lambda>m. m\<lparr>mb_role := selfNewRole, mb_updatedAt := snd drawn\<rparr>) t1)"
    by (auto simp: transferOwnership_def knownRole_def Let_def split: if_splits option.splits)
  have "act_userId actor \<noteq> toUserId"
    using may_manage_owner [OF Transferred.hyps(3,2) Transferred.prems] *(1,2) by auto
  then have other: "mb_userId membership \<noteq> act_userId actor" using member_ofD [OF *(1)] by auto
  let ?new = "membership\<lparr>mb_role := ''owner'', mb_updatedAt := snd drawn\<rparr>"
  have "?new \<in> set (members t1)" using member_ofD [OF *(1)]
    by (auto simp: *(3) set_member_def intro!: image_eqI [of _ _ membership])
  then have "?new \<in> set (members t')" using other
    by (auto simp: *(4) set_member_def intro!: image_eqI [of _ _ ?new])
  then have new: "has_owner orgId t'" using member_ofD [OF *(1)] Transferred.prems
    by (auto simp: has_owner_iff members_ok_def intro!: bexI [of _ ?new])
  have "has_owner org t'" if "has_owner org t" "org \<noteq> orgId"
    using that by (force simp: *(3,4) has_owner_iff set_member_def)
  then show ?case using new Transferred.prems
    by (auto simp: *(3,4) members_ok_set_member)
next
  case (Granted_One orgId userId permission actor grantId drawn t r t')
  then show ?case
    by (auto simp: grant_member_def members_ok_def has_owner_def split: if_splits option.splits)
next
  case (Revoked_One orgId userId permission actor drawn t t')
  then show ?case
    by (auto simp: revoke_member_def revoke_grants_def members_ok_def has_owner_def split: option.splits)
next
  case (Revoked_All orgId userId actor drawn t ps t')
  then show ?case
    by (auto simp: revokeAll_def revoke_grants_def members_ok_def has_owner_def Let_def
        split: if_splits option.splits)
qed

section \<open>Two services at a time\<close>

text \<open>
  A service runs in a transaction at the database's default isolation, READ COMMITTED, and locks no row: it
  reads what was committed when it read, and its writes are applied to what is committed when they are.
  \<open>changeRole_tx\<close> is the service so divided: what it answers and writes, from what it read. Run alone, its
  writes are applied to what it read.
\<close>

definition changeRole_tx ::
  "string \<Rightarrow> string \<Rightarrow> string \<Rightarrow> Actor \<Rightarrow> drawn \<Rightarrow> tenancy \<Rightarrow>
   (AppError, (string \<times> string) \<times> (tenancy \<Rightarrow> tenancy)) result" where
  "changeRole_tx orgId userId role actor drawn seen =
     (if \<not> isRole role then Throw (role_error ''Unknown role.'')
      else if userId = act_userId actor then Throw (forbidden (Some ''You cannot change your own role.''))
      else
        (case member_of orgId userId seen of
           None \<Rightarrow> Throw (notFound None)
         | Some membership \<Rightarrow>
             bind_result (knownRole (mb_role membership)) (\<lambda>currentRole.
               if sameRole currentRole role then Return ((currentRole, role), id)
               else
                 bind_result (if isIndispensableRole currentRole
                              then assertAnotherOwnerRemains orgId userId seen else Return ()) (\<lambda>_.
                   Return ((currentRole, role), (\<lambda>t. append_rows drawn
                     [event_row orgId actor drawn ''member.role_changed''
                        [(''membershipId'', JStr (mb_id membership)), (''userId'', JStr userId),
                         (''from'', JStr currentRole), (''to'', JStr role)]]
                     (set_member (\<lambda>m. mb_orgId m = orgId \<and> mb_id m = mb_id membership)
                        (\<lambda>m. m\<lparr>mb_role := role, mb_updatedAt := snd drawn\<rparr>) t)))))))"

lemma changeRole_alone:
  "changeRole orgId userId role actor drawn t =
     bind_result (changeRole_tx orgId userId role actor drawn t) (\<lambda>(r, write). Return (r, write t))"
  by (simp add: changeRole_def changeRole_tx_def bind_result_def split: option.splits sum.splits)

section \<open>Properties\<close>

text \<open>Two owners.\<close>

definition org1 :: string where "org1 = ''10000000-0000-4000-8000-000000000001''"

definition owner_row :: "string \<Rightarrow> string \<Rightarrow> MemberRow" where
  "owner_row i userId =
     \<lparr>mb_id = i, mb_orgId = org1, mb_userId = userId, mb_role = ''owner'', mb_status = ''active'', mb_updatedAt = 0\<rparr>"

definition two_owners :: tenancy where
  "two_owners =
     \<lparr>users = [], orgs = [\<lparr>o_id = org1, o_status = ''active''\<rparr>], members = [owner_row ''m1'' ''ada'', owner_row ''m2'' ''bob''],
      teams = [], teamMembers = [], tuples = [], memberGrants = [], channels = [], calls = [], sessions = [],
      participants = [], events = [],
      work = \<lparr>cards = [], lists = [], boards = [], projects = [], statuses = [], memberships = [], outbox = []\<rparr>\<rparr>"

definition acting :: "string \<Rightarrow> Actor" where "acting u = \<lparr>act_userId = u, act_requestId = ''r''\<rparr>"

definition drawing :: drawn where "drawing = (\<lambda>_. ''e'', 0)"

definition demoted :: tenancy where
  "demoted = (case changeRole org1 ''bob'' ''admin'' (acting ''ada'') drawing two_owners of
     Inr (_, t) \<Rightarrow> t | Inl _ \<Rightarrow> two_owners)"

text \<open>C26: an organization keeps an owner. Whatever members are added, moved to another role, removed or made
  owner in the place of the one who asks, and whatever individual grants are given and revoked, one
  service after the other, an organization with an active owner still has one.\<close>

theorem owner_remains:
  assumes "rtranclp managed t0 t" and "members_ok t0" and "has_owner orgId t0"
  shows "has_owner orgId t"
proof -
  have "members_ok t \<and> has_owner orgId t" using assms
    by (induction rule: rtranclp_induct) (auto dest: managed_owner)
  then show ?thesis ..
qed

theorem owner_remains_witness: "has_owner org1 demoted \<and> demoted \<noteq> two_owners"
proof -
  have "\<exists>r t. changeRole org1 ''bob'' ''admin'' (acting ''ada'') drawing two_owners = Inr (r, t) \<and> demoted = t"
    by (simp add: demoted_def changeRole_def acting_def two_owners_def member_of_def owner_row_def org1_def
        knownRole_def isRole_def ROLES_def sameRole_def isIndispensableRole_def assertAnotherOwnerRemains_def)
  then have "managed two_owners demoted" by (auto intro: managed.Changed)
  then have "rtranclp managed two_owners demoted" by simp
  moreover have "members_ok two_owners" "has_owner org1 two_owners"
    by (simp_all add: members_ok_def has_owner_def two_owners_def owner_row_def)
  moreover have "map ob_name (events demoted) \<noteq> map ob_name (events two_owners)" by code_simp
  ultimately show ?thesis using owner_remains by metis
qed


end
