(* ===== verification/Richtext.thy ===== *)
theory Richtext
  imports Work_Data Tenancy_Data
begin

text \<open>
  Rich text documents, \<open>apps/api/src/work/richtext.ts\<close>: the closed list of nodes, marks and attributes a
  document may hold, its limits, and the mentions in it. A schema is a decoder: the parsed node, or \<open>None\<close>
  when it reports an issue. \<open>RichTextNode\<close> and \<open>flattenToText\<close> are in \<open>Work_Data\<close>. \<open>protocol\<close> stands for the
  URL parser of the platform: the protocol of \<open>new URL(value)\<close>, or \<open>None\<close> when that throws.
\<close>

section \<open>Attributes\<close>

text \<open>An optional member: absent, or decoded. The outer \<open>option\<close> is the outcome of the schema.\<close>

definition optional :: "string \<Rightarrow> (json \<Rightarrow> 'a option) \<Rightarrow> json \<Rightarrow> 'a option option" where
  "optional k dec j = (case json_field k j of None \<Rightarrow> Some None | Some v \<Rightarrow> map_option Some (dec v))"

definition int_number :: "json \<Rightarrow> int option" where
  "int_number j =
     (case j of
        JNum m e \<Rightarrow> if is_int_number j then Some (if 0 \<le> e then m * 10 ^ nat e else m div 10 ^ nat (- e)) else None
      | _ \<Rightarrow> None)"

definition id_member :: "string \<Rightarrow> json \<Rightarrow> bool" where
  "id_member k j = (case json_field k j of Some (JStr s) \<Rightarrow> isValidId s | _ \<Rightarrow> False)"

definition label_member :: "nat \<Rightarrow> json \<Rightarrow> bool" where
  "label_member limit j =
     (case json_field ''label'' j of
        Some (JStr s) \<Rightarrow> 1 \<le> length (trim s) \<and> length (trim s) \<le> limit | _ \<Rightarrow> False)"

definition bare :: "json \<Rightarrow> bool" where "bare j = only_keys [] j"

definition list_start :: "json \<Rightarrow> bool" where
  "list_start j =
     (only_keys [''start''] j \<and>
      (case json_field ''start'' j of
         None \<Rightarrow> True | Some v \<Rightarrow> (case int_number v of None \<Rightarrow> False | Some k \<Rightarrow> 0 \<le> k)))"

definition heading_level :: "json \<Rightarrow> bool" where
  "heading_level j =
     (only_keys [''level''] j \<and>
      (case Option.bind (json_field ''level'' j) int_number of None \<Rightarrow> False | Some k \<Rightarrow> 1 \<le> k \<and> k \<le> 6))"

definition code_language :: "json \<Rightarrow> bool" where
  "code_language j =
     (only_keys [''language''] j \<and>
      (case json_field ''language'' j of
         None \<Rightarrow> True | Some JNull \<Rightarrow> True | Some (JStr s) \<Rightarrow> length s \<le> 40 | _ \<Rightarrow> False))"

definition task_checked :: "json \<Rightarrow> bool" where
  "task_checked j =
     (only_keys [''checked''] j \<and> (case json_field ''checked'' j of Some (JBool _) \<Rightarrow> True | _ \<Rightarrow> False))"

definition mention_attrs :: "json \<Rightarrow> bool" where
  "mention_attrs j = (only_keys [''userId'', ''label''] j \<and> id_member ''userId'' j \<and> label_member 120 j)"

definition page_attrs :: "json \<Rightarrow> bool" where
  "page_attrs j = (only_keys [''pageId'', ''label''] j \<and> id_member ''pageId'' j \<and> label_member 500 j)"

definition NODE_ATTRIBUTES :: "(string \<times> (json \<Rightarrow> bool)) list" where
  "NODE_ATTRIBUTES =
    [(''doc'', bare), (''paragraph'', bare), (''text'', bare), (''hardBreak'', bare),
     (''horizontalRule'', bare), (''blockquote'', bare), (''bulletList'', bare),
     (''orderedList'', list_start), (''listItem'', bare), (''heading'', heading_level),
     (''codeBlock'', code_language), (''taskList'', bare), (''taskItem'', task_checked),
     (''mention'', mention_attrs), (''pageLink'', page_attrs)]"

definition NODE_TYPES :: "string list" where "NODE_TYPES = map fst NODE_ATTRIBUTES"

section \<open>Links and marks\<close>

definition SAFE_SCHEMES :: "string list" where "SAFE_SCHEMES = [''http:'', ''https:'', ''mailto:'']"

definition SafeUrl :: "(string \<Rightarrow> string option) \<Rightarrow> string \<Rightarrow> bool" where
  "SafeUrl protocol value =
     (length value \<le> 2048 \<and>
      (case protocol value of None \<Rightarrow> False | Some p \<Rightarrow> p \<in> set SAFE_SCHEMES))"

text \<open>The parsed copy of an object has its members in the order of the schema.\<close>

definition in_order :: "string list \<Rightarrow> json \<Rightarrow> json" where
  "in_order ks j = JObj (List.map_filter (\<lambda>k. map_option (Pair k) (json_field k j)) ks)"

definition link_attrs :: "(string \<Rightarrow> string option) \<Rightarrow> json \<Rightarrow> json option" where
  "link_attrs protocol j =
     (if only_keys [''href'', ''target''] j \<and>
         (case json_field ''href'' j of Some (JStr s) \<Rightarrow> SafeUrl protocol s | _ \<Rightarrow> False) \<and>
         (case json_field ''target'' j of
            None \<Rightarrow> True | Some JNull \<Rightarrow> True | Some (JStr s) \<Rightarrow> s = ''_blank'' \<or> s = ''_self'' | _ \<Rightarrow> False)
      then Some (in_order [''href'', ''target''] j) else None)"

definition MarkSchema :: "(string \<Rightarrow> string option) \<Rightarrow> json \<Rightarrow> json option" where
  "MarkSchema protocol j =
     (case json_field ''type'' j of
        Some (JStr ty) \<Rightarrow>
          if ty \<in> set [''bold'', ''italic'', ''strike'', ''code'', ''underline'']
          then (if only_keys [''type''] j then Some (JObj [(''type'', JStr ty)]) else None)
          else if ty = ''link'' \<and> only_keys [''type'', ''attrs''] j
          then (case Option.bind (json_field ''attrs'' j) (link_attrs protocol) of
                  None \<Rightarrow> None | Some a \<Rightarrow> Some (JObj [(''type'', JStr ty), (''attrs'', a)]))
          else None
      | _ \<Rightarrow> None)"

section \<open>Nodes\<close>

definition text_schema :: "json \<Rightarrow> string option" where
  "text_schema j = (case j of JStr s \<Rightarrow> if length s \<le> MAX_TEXT_LENGTH then Some s else None | _ \<Rightarrow> None)"

definition record_schema :: "json \<Rightarrow> json option" where
  "record_schema j = (case j of JObj _ \<Rightarrow> Some j | _ \<Rightarrow> None)"

definition marks_schema :: "(string \<Rightarrow> string option) \<Rightarrow> json \<Rightarrow> json list option" where
  "marks_schema protocol j =
     (case j of JArr ms \<Rightarrow> if length ms \<le> 16 then all_some (map (MarkSchema protocol) ms) else None | _ \<Rightarrow> None)"

definition given :: "string \<Rightarrow> json option \<Rightarrow> (string \<times> json) list" where
  "given k v = (case v of None \<Rightarrow> [] | Some x \<Rightarrow> [(k, x)])"

definition label_of :: "json option \<Rightarrow> string option" where
  "label_of attrs =
     (case Option.bind attrs (json_field ''label'') of Some (JStr s) \<Rightarrow> Some s | _ \<Rightarrow> None)"

definition node_of ::
  "string \<Rightarrow> string option \<Rightarrow> json option \<Rightarrow> json list option \<Rightarrow> RichTextNode list option \<Rightarrow> RichTextNode" where
  "node_of ty txt attrs marks content =
     RichText ty txt (label_of attrs) (case content of None \<Rightarrow> [] | Some ns \<Rightarrow> ns)
       (JObj ([(''type'', JStr ty)] @ given ''text'' (map_option JStr txt) @ given ''attrs'' attrs @
              given ''marks'' (map_option JArr marks) @
              given ''content'' (map_option (\<lambda>ns. JArr (map rt_json ns)) content)))"

text \<open>The refinement of a node: the attributes of its type, and text exactly on text nodes.\<close>

definition node_refined :: "string \<Rightarrow> string option \<Rightarrow> json option \<Rightarrow> bool" where
  "node_refined ty txt attrs =
     ((case map_of NODE_ATTRIBUTES ty of
         None \<Rightarrow> False
       | Some ok \<Rightarrow> ok (case attrs of None \<Rightarrow> JObj [] | Some a \<Rightarrow> a)) \<and>
      (ty = ''text'') = (txt \<noteq> None))"

lemma json_content_size: "json_field k j = Some (JArr cs) \<Longrightarrow> c \<in> set cs \<Longrightarrow> size c < size j"
proof -
  assume "json_field k j = Some (JArr cs)" "c \<in> set cs"
  then have "size (JArr cs) < size j" "size c \<le> size_list size cs"
    by (auto dest: json_field_size intro: size_list_estimation')
  then show ?thesis by simp
qed

function BaseNodeSchema :: "(string \<Rightarrow> string option) \<Rightarrow> json \<Rightarrow> RichTextNode option" where
  "BaseNodeSchema protocol j =
     (if \<not> only_keys [''type'', ''text'', ''attrs'', ''marks'', ''content''] j then None
      else case json_field ''type'' j of
        Some (JStr ty) \<Rightarrow>
          (case (optional ''text'' text_schema j, optional ''attrs'' record_schema j,
                 optional ''marks'' (marks_schema protocol) j) of
             (Some txt, Some attrs, Some marks) \<Rightarrow>
               if ty \<notin> set NODE_TYPES \<or> \<not> node_refined ty txt attrs then None
               else (case json_field ''content'' j of
                       None \<Rightarrow> Some (node_of ty txt attrs marks None)
                     | Some (JArr cs) \<Rightarrow>
                         map_option (\<lambda>ns. node_of ty txt attrs marks (Some ns))
                           (all_some (map (BaseNodeSchema protocol) cs))
                     | _ \<Rightarrow> None)
           | _ \<Rightarrow> None)
      | _ \<Rightarrow> None)"
  by pat_completeness auto
termination
  by (relation "measure (size \<circ> snd)") (auto dest: json_content_size)

declare BaseNodeSchema.simps [simp del]

section \<open>Documents\<close>

definition MAX_DEPTH_richtext :: nat where "MAX_DEPTH_richtext = 32"
definition MAX_NODES_richtext :: nat where "MAX_NODES_richtext = 10000"

fun rt_count :: "RichTextNode \<Rightarrow> nat" where
  "rt_count (RichText _ _ _ ns _) = Suc (sum_list (map rt_count ns))"

lemma rt_count_content: "rt_count n = Suc (sum_list (map rt_count (rt_content n)))"
  by (cases n) simp

text \<open>The iterative count: the node on top of the stack, its children pushed in order, and the early exit.\<close>

function measure_loop_rt :: "(RichTextNode \<times> nat) list \<Rightarrow> nat \<Rightarrow> nat \<Rightarrow> nat \<times> nat" where
  "measure_loop_rt stack nodes depth =
     (case stack of
        [] \<Rightarrow> (nodes, depth)
      | (node, level) # rest \<Rightarrow>
          (let nodes' = nodes + 1;
               depth' = (if level > depth then level else depth)
           in if nodes' > MAX_NODES_richtext \<or> depth' > MAX_DEPTH_richtext then (nodes', depth')
              else measure_loop_rt (rev (map (\<lambda>c. (c, level + 1)) (rt_content node)) @ rest) nodes' depth'))"
  by pat_completeness auto
termination
proof (relation "measure (\<lambda>(stack, _, _). sum_list (map (rt_count \<circ> fst) stack))", goal_cases)
  case (2 stack nodes depth p rest node level nodes' depth')
  have "sum_list (map (rt_count \<circ> fst) (rev (map (\<lambda>c. (c, level + 1)) (rt_content node))))
      = sum_list (map rt_count (rt_content node))"
    by (simp add: rev_map [symmetric] comp_def sum_list_rev)
  with 2 show ?case using rt_count_content [of node] by (auto simp: prod_eq_iff)
qed simp

declare measure_loop_rt.simps [simp del]

definition measure_richtext :: "RichTextNode \<Rightarrow> nat \<times> nat" where
  "measure_richtext root = measure_loop_rt [(root, 1)] 0 0"

definition RichTextDocument :: "(string \<Rightarrow> string option) \<Rightarrow> json \<Rightarrow> RichTextNode option" where
  "RichTextDocument protocol j =
     (case BaseNodeSchema protocol j of
        None \<Rightarrow> None
      | Some node \<Rightarrow>
          if rt_type node \<noteq> ''doc'' then None
          else (let (nodes, depth) = measure_richtext node in
                if depth > MAX_DEPTH_richtext then None
                else if nodes > MAX_NODES_richtext then None else Some node))"

section \<open>Text and mentions\<close>

definition plainParagraph :: "string \<Rightarrow> RichTextNode" where
  "plainParagraph s =
     node_of ''doc'' None None None (Some [node_of ''paragraph'' None None None
       (Some [node_of ''text'' (Some s) None None None])])"

text \<open>The ids of the mentions, in the order of the walk; \<open>found\<close> is a set that keeps insertion order.\<close>

fun mention_ids :: "RichTextNode \<Rightarrow> string list" where
  "mention_ids (RichText ty _ _ ns raw) =
     (if ty = ''mention''
      then (case Option.bind (json_field ''attrs'' raw) (json_field ''userId'') of
              Some (JStr s) \<Rightarrow> [s] | _ \<Rightarrow> [])
      else []) @ concat (map mention_ids ns)"

definition mentionedUserIds :: "RichTextNode \<Rightarrow> string list" where
  "mentionedUserIds node = rev (remdups (rev (mention_ids node)))"

end
