(* ===== verification/Richtext_Correct.thy ===== *)
theory Richtext_Correct
  imports Richtext Tree_Walk Filter_Ast_Correct
begin

text \<open>
  What the document schema guarantees: its limits are exact, a document it has parsed parses again to
  itself, every link in a stored document has a safe scheme, and the text and mentions read from one.
\<close>

section \<open>Limits\<close>

fun rt_depth :: "RichTextNode \<Rightarrow> nat" where
  "rt_depth (RichText _ _ _ ns _) = Suc (fold max (map rt_depth ns) 0)"

interpretation rt: bounded_walk rt_content rt_count rt_depth MAX_NODES_richtext MAX_DEPTH_richtext measure_loop_rt
proof (unfold_locales, goal_cases)
  case (1 n) show ?case by (rule rt_count_content)
next
  case (2 n) show ?case by (cases n) simp
next
  case (3 nodes deep) show ?case by (simp add: measure_loop_rt.simps)
next
  case (4 n level rest nodes deep) show ?case by (subst measure_loop_rt.simps) (simp add: Let_def)
qed

lemma RichTextDocument_Some:
  "RichTextDocument protocol j = Some n \<longleftrightarrow>
     BaseNodeSchema protocol j = Some n \<and> rt_type n = ''doc'' \<and>
     rt_count n \<le> MAX_NODES_richtext \<and> rt_depth n \<le> MAX_DEPTH_richtext"
  using rt.verdict [of n]
  by (auto simp: RichTextDocument_def measure_richtext_def not_less split: option.splits prod.splits)

section \<open>Parsing a parsed document\<close>

lemma only_keys_JObj [simp]: "only_keys ks (JObj kvs) \<longleftrightarrow> fst ` set kvs \<subseteq> set ks"
  by (auto simp: only_keys_def list_all_iff)

lemma json_field_in_order [simp]:
  "json_field k (in_order ks j) = (if k \<in> set ks then json_field k j else None)"
  unfolding in_order_def
  by (induction ks) (auto simp: List.map_filter_def split: option.splits)

lemma in_order_keys [simp]: "only_keys ks (in_order ks j)"
  by (auto simp: in_order_def List.map_filter_def)

lemma map_filter_eq: "(\<And>x. x \<in> set xs \<Longrightarrow> f x = g x) \<Longrightarrow> List.map_filter f xs = List.map_filter g xs"
  by (induction xs) (auto simp: List.map_filter_simps split: option.split)

lemma in_order_again: "in_order ks (in_order ks j) = in_order ks j"
proof -
  have "List.map_filter (\<lambda>k. map_option (Pair k) (json_field k (in_order ks j))) ks =
        List.map_filter (\<lambda>k. map_option (Pair k) (json_field k j)) ks"
    by (rule map_filter_eq) simp
  then show ?thesis by (simp only: in_order_def)
qed

lemma guarded_Some: "(if P then Some x else None) = Some y \<longleftrightarrow> P \<and> y = x" by auto

lemma link_attrs_Some:
  "link_attrs protocol j = Some a \<longleftrightarrow>
     only_keys [''href'', ''target''] j \<and>
     (case json_field ''href'' j of Some (JStr s) \<Rightarrow> SafeUrl protocol s | _ \<Rightarrow> False) \<and>
     (case json_field ''target'' j of
        None \<Rightarrow> True | Some JNull \<Rightarrow> True | Some (JStr s) \<Rightarrow> s = ''_blank'' \<or> s = ''_self'' | _ \<Rightarrow> False) \<and>
     a = in_order [''href'', ''target''] j"
  unfolding link_attrs_def guarded_Some by (simp only: conj_assoc)

lemma link_attrs_again: "link_attrs protocol j = Some a \<Longrightarrow> link_attrs protocol a = Some a"
  unfolding link_attrs_Some by (elim conjE) (simp add: in_order_again)

lemma MarkSchema_Some:
  "MarkSchema protocol j = Some m \<longleftrightarrow>
     (\<exists>ty. json_field ''type'' j = Some (JStr ty) \<and>
        (ty \<in> {''bold'', ''italic'', ''strike'', ''code'', ''underline''} \<and> only_keys [''type''] j \<and>
           m = JObj [(''type'', JStr ty)] \<or>
         ty = ''link'' \<and> only_keys [''type'', ''attrs''] j \<and>
           (\<exists>x a. json_field ''attrs'' j = Some x \<and> link_attrs protocol x = Some a \<and>
              m = JObj [(''type'', JStr ty), (''attrs'', a)])))"
  by (auto simp: MarkSchema_def bind_eq_Some_conv split: option.splits json.splits if_splits)

lemma MarkSchema_again: "MarkSchema protocol j = Some m \<Longrightarrow> MarkSchema protocol m = Some m"
  unfolding MarkSchema_Some by (auto simp: link_attrs_again)

lemma marks_again: "marks_schema protocol j = Some ms \<Longrightarrow> marks_schema protocol (JArr ms) = Some ms"
proof -
  assume "marks_schema protocol j = Some ms"
  then obtain xs where xs: "j = JArr xs" "length xs \<le> 16" "all_some (map (MarkSchema protocol) xs) = Some ms"
    by (auto simp: marks_schema_def split: json.splits if_splits)
  have "MarkSchema protocol m = Some m" if "m \<in> set ms" for m
    using all_some_elem [OF xs(3) that] by (auto intro: MarkSchema_again)
  then have "all_some (map (MarkSchema protocol) (map id ms)) = Some ms" by (intro all_some_map) simp
  then show ?thesis using xs all_some_length [OF xs(3)] by (simp add: marks_schema_def)
qed

lemma text_again: "text_schema j = Some s \<Longrightarrow> text_schema (JStr s) = Some s"
  by (auto simp: text_schema_def split: json.splits if_splits)

lemma record_again: "record_schema j = Some a \<Longrightarrow> record_schema a = Some a"
  by (auto simp: record_schema_def split: json.splits)

lemma BaseNodeSchema_Some:
  "BaseNodeSchema protocol j = Some n \<longleftrightarrow>
     only_keys [''type'', ''text'', ''attrs'', ''marks'', ''content''] j \<and>
     (\<exists>ty body attrs marks content.
        json_field ''type'' j = Some (JStr ty) \<and> optional ''text'' text_schema j = Some body \<and>
        optional ''attrs'' record_schema j = Some attrs \<and>
        optional ''marks'' (marks_schema protocol) j = Some marks \<and>
        ty \<in> set NODE_TYPES \<and> node_refined ty body attrs \<and>
        (case json_field ''content'' j of
           None \<Rightarrow> content = None
         | Some (JArr cs) \<Rightarrow>
             (\<exists>ns. content = Some ns \<and> all_some (map (BaseNodeSchema protocol) cs) = Some ns)
         | _ \<Rightarrow> False) \<and>
        n = node_of ty body attrs marks content)"
  by (subst BaseNodeSchema.simps) (auto split: option.splits json.splits)

lemma optional_cases:
  "optional k dec j = Some v \<longleftrightarrow>
     (json_field k j = None \<and> v = None \<or> (\<exists>x y. json_field k j = Some x \<and> dec x = Some y \<and> v = Some y))"
  by (auto simp: optional_def split: option.splits)

lemma rt_json_fields [simp]:
  "json_field ''type'' (rt_json (node_of ty body attrs marks content)) = Some (JStr ty)"
  "json_field ''text'' (rt_json (node_of ty body attrs marks content)) = map_option JStr body"
  "json_field ''attrs'' (rt_json (node_of ty body attrs marks content)) = attrs"
  "json_field ''marks'' (rt_json (node_of ty body attrs marks content)) = map_option JArr marks"
  "json_field ''content'' (rt_json (node_of ty body attrs marks content)) =
     map_option (\<lambda>ns. JArr (map rt_json ns)) content"
  "only_keys [''type'', ''text'', ''attrs'', ''marks'', ''content''] (rt_json (node_of ty body attrs marks content))"
  by (auto simp: node_of_def given_def split: option.splits)

lemma BaseNodeSchema_again: "BaseNodeSchema protocol j = Some n \<Longrightarrow> BaseNodeSchema protocol (rt_json n) = Some n"
proof (induction "size j" arbitrary: j n rule: less_induct)
  case less
  from less.prems obtain ty body attrs marks content where
    fields: "optional ''text'' text_schema j = Some body" "optional ''attrs'' record_schema j = Some attrs"
      "optional ''marks'' (marks_schema protocol) j = Some marks"
    and ok: "ty \<in> set NODE_TYPES" "node_refined ty body attrs"
    and content: "case json_field ''content'' j of
           None \<Rightarrow> content = None
         | Some (JArr cs) \<Rightarrow>
             (\<exists>ns. content = Some ns \<and> all_some (map (BaseNodeSchema protocol) cs) = Some ns)
         | _ \<Rightarrow> False"
    and n: "n = node_of ty body attrs marks content"
    unfolding BaseNodeSchema_Some by blast
  have again: "all_some (map (BaseNodeSchema protocol) (map rt_json ns)) = Some ns" if "content = Some ns" for ns
  proof (rule all_some_map)
    fix m assume "m \<in> set ns"
    from content that obtain cs where cs: "json_field ''content'' j = Some (JArr cs)"
      "all_some (map (BaseNodeSchema protocol) cs) = Some ns"
      by (auto split: option.splits json.splits)
    from all_some_elem [OF cs(2) \<open>m \<in> set ns\<close>] obtain c where "c \<in> set cs" "BaseNodeSchema protocol c = Some m"
      by blast
    then show "BaseNodeSchema protocol (rt_json m) = Some m"
      using less.hyps json_content_size [OF cs(1)] by blast
  qed
  have "optional ''text'' text_schema (rt_json n) = Some body" "optional ''attrs'' record_schema (rt_json n) = Some attrs"
    "optional ''marks'' (marks_schema protocol) (rt_json n) = Some marks"
    using fields by (auto simp: n optional_cases text_again record_again marks_again)
  then show ?case
    unfolding BaseNodeSchema_Some [of protocol "rt_json n" n] using ok again
    by (intro conjI exI [of _ ty] exI [of _ body] exI [of _ attrs] exI [of _ marks] exI [of _ content])
      (auto simp: n split: option.split)
qed

section \<open>Links\<close>

text \<open>The value at a path of keys and indices, and the hrefs anywhere in a value.\<close>

datatype json_step = Key string | Index nat

fun json_at :: "json_step list \<Rightarrow> json \<Rightarrow> json option" where
  "json_at [] j = Some j"
| "json_at (Key k # path) j = Option.bind (json_field k j) (json_at path)"
| "json_at (Index i # path) (JArr js) = (if i < length js then json_at path (js ! i) else None)"
| "json_at (Index _ # _) _ = None"

definition hrefs_ok :: "(json \<Rightarrow> bool) \<Rightarrow> json \<Rightarrow> bool" where
  "hrefs_ok ok j \<longleftrightarrow> (\<forall>path v h. json_at path j = Some v \<and> json_field ''href'' v = Some h \<longrightarrow> ok h)"

lemma hrefs_okI:
  assumes "\<And>h. json_field ''href'' j = Some h \<Longrightarrow> ok h"
    and "\<And>k v. json_field k j = Some v \<Longrightarrow> hrefs_ok ok v"
    and "\<And>js c. j = JArr js \<Longrightarrow> c \<in> set js \<Longrightarrow> hrefs_ok ok c"
  shows "hrefs_ok ok j"
  unfolding hrefs_ok_def
proof (intro allI impI)
  fix path v h assume at: "json_at path j = Some v \<and> json_field ''href'' v = Some h"
  show "ok h"
  proof (cases path)
    case Nil
    then show ?thesis using at assms(1) by simp
  next
    case (Cons step rest)
    show ?thesis
    proof (cases step)
      case (Key k)
      then obtain w where "json_field k j = Some w" "json_at rest w = Some v"
        using at Cons by (auto simp: bind_eq_Some_conv)
      then show ?thesis using assms(2) at unfolding hrefs_ok_def by blast
    next
      case (Index i)
      then obtain js where "j = JArr js" "i < length js" "json_at rest (js ! i) = Some v"
        using at Cons by (cases j) (auto split: if_splits)
      then show ?thesis using assms(3) [of js "js ! i"] at unfolding hrefs_ok_def by auto
    qed
  qed
qed

lemma hrefs_ok_scalar [simp]:
  "hrefs_ok ok JNull" "hrefs_ok ok (JBool b)" "hrefs_ok ok (JNum m e)" "hrefs_ok ok (JStr s)"
  by (auto intro: hrefs_okI)

definition safe_href :: "(string \<Rightarrow> string option) \<Rightarrow> json \<Rightarrow> bool" where
  "safe_href protocol h \<longleftrightarrow> (\<exists>s p. h = JStr s \<and> protocol s = Some p \<and> p \<in> {''http:'', ''https:'', ''mailto:''})"

lemma SafeUrl_safe: "SafeUrl protocol s \<Longrightarrow> safe_href protocol (JStr s)"
  by (auto simp: SafeUrl_def SAFE_SCHEMES_def safe_href_def split: option.splits)

lemma only_keysD: "only_keys ks j \<Longrightarrow> json_field k j = Some v \<Longrightarrow> k \<in> set ks"
  by (cases j) (auto dest!: map_of_SomeD simp: only_keys_def list_all_iff)

lemma only_keys_not_array: "only_keys ks j \<Longrightarrow> j \<noteq> JArr cs"
  by (auto simp: only_keys_def)

fun scalar :: "json \<Rightarrow> bool" where
  "scalar (JArr _) = False"
| "scalar (JObj _) = False"
| "scalar _ = True"

lemma scalar_hrefs: "scalar v \<Longrightarrow> hrefs_ok ok v"
  by (cases v) simp_all

lemma hrefs_ok_flat:
  assumes "only_keys ks j" "''href'' \<notin> set ks"
    and "\<And>k v. k \<in> set ks \<Longrightarrow> json_field k j = Some v \<Longrightarrow> scalar v"
  shows "hrefs_ok ok j"
  by (rule hrefs_okI) (use assms only_keysD [OF assms(1)] only_keys_not_array [OF assms(1)] in
    \<open>auto intro: scalar_hrefs\<close>)

lemma attributes_hrefs:
  assumes "map_of NODE_ATTRIBUTES ty = Some good" "good a"
  shows "hrefs_ok ok a"
proof -
  have "good \<in> {bare, list_start, heading_level, code_language, task_checked, mention_attrs, page_attrs}"
    using map_of_SomeD [OF assms(1)] by (auto simp: NODE_ATTRIBUTES_def)
  moreover have "bare a \<Longrightarrow> hrefs_ok ok a"
    by (rule hrefs_ok_flat [of "[]"]) (simp_all add: bare_def)
  moreover have "list_start a \<Longrightarrow> hrefs_ok ok a"
    by (rule hrefs_ok_flat [of "[''start'']"])
      (auto simp: list_start_def int_number_def split: option.splits json.splits)
  moreover have "heading_level a \<Longrightarrow> hrefs_ok ok a"
    by (rule hrefs_ok_flat [of "[''level'']"])
      (auto simp: heading_level_def int_number_def split: option.splits json.splits)
  moreover have "code_language a \<Longrightarrow> hrefs_ok ok a"
    by (rule hrefs_ok_flat [of "[''language'']"])
      (auto simp: code_language_def split: option.splits json.splits)
  moreover have "task_checked a \<Longrightarrow> hrefs_ok ok a"
    by (rule hrefs_ok_flat [of "[''checked'']"])
      (auto simp: task_checked_def split: option.splits json.splits)
  moreover have "mention_attrs a \<Longrightarrow> hrefs_ok ok a"
    by (rule hrefs_ok_flat [of "[''userId'', ''label'']"])
      (auto simp: mention_attrs_def id_member_def label_member_def split: option.splits json.splits)
  moreover have "page_attrs a \<Longrightarrow> hrefs_ok ok a"
    by (rule hrefs_ok_flat [of "[''pageId'', ''label'']"])
      (auto simp: page_attrs_def id_member_def label_member_def split: option.splits json.splits)
  ultimately show ?thesis using assms(2) by blast
qed

lemma link_attrs_hrefs: "link_attrs protocol j = Some a \<Longrightarrow> hrefs_ok (safe_href protocol) a"
proof -
  assume "link_attrs protocol j = Some a"
  then have href: "case json_field ''href'' a of Some (JStr s) \<Rightarrow> SafeUrl protocol s | _ \<Rightarrow> False"
    and target: "case json_field ''target'' a of None \<Rightarrow> True | Some JNull \<Rightarrow> True
        | Some (JStr s) \<Rightarrow> s = ''_blank'' \<or> s = ''_self'' | _ \<Rightarrow> False"
    and keys: "only_keys [''href'', ''target''] a"
    unfolding link_attrs_Some by simp_all
  show ?thesis
  proof (rule hrefs_okI)
    fix h assume "json_field ''href'' a = Some h"
    then show "safe_href protocol h" using href by (auto intro: SafeUrl_safe split: json.splits)
  next
    fix k v assume v: "json_field k a = Some v"
    then have "k = ''href'' \<or> k = ''target''" using only_keysD [OF keys] by fastforce
    then have "scalar v" using v href target by (cases v) auto
    then show "hrefs_ok (safe_href protocol) v" by (rule scalar_hrefs)
  qed (use only_keys_not_array [OF keys] in simp)
qed

lemma hrefs_ok_obj:
  assumes "\<And>k v. (k, v) \<in> set kvs \<Longrightarrow> k \<noteq> ''href'' \<and> hrefs_ok ok v"
  shows "hrefs_ok ok (JObj kvs)"
  by (rule hrefs_okI) (use assms in \<open>auto dest!: map_of_SomeD\<close>)

lemma MarkSchema_hrefs: "MarkSchema protocol j = Some m \<Longrightarrow> hrefs_ok (safe_href protocol) m"
  unfolding MarkSchema_Some by (auto intro!: hrefs_ok_obj dest: link_attrs_hrefs)

lemma hrefs_ok_arr: "(\<And>c. c \<in> set cs \<Longrightarrow> hrefs_ok ok c) \<Longrightarrow> hrefs_ok ok (JArr cs)"
  by (rule hrefs_okI) auto

lemma BaseNodeSchema_hrefs:
  "BaseNodeSchema protocol j = Some n \<Longrightarrow> hrefs_ok (safe_href protocol) (rt_json n)"
proof (induction "size j" arbitrary: j n rule: less_induct)
  case less
  let ?ok = "hrefs_ok (safe_href protocol)"
  from less.prems obtain ty body attrs marks content where
    marks: "optional ''marks'' (marks_schema protocol) j = Some marks"
    and ok: "ty \<in> set NODE_TYPES" "node_refined ty body attrs"
    and content: "case json_field ''content'' j of
           None \<Rightarrow> content = None
         | Some (JArr cs) \<Rightarrow>
             (\<exists>ns. content = Some ns \<and> all_some (map (BaseNodeSchema protocol) cs) = Some ns)
         | _ \<Rightarrow> False"
    and n: "n = node_of ty body attrs marks content"
    unfolding BaseNodeSchema_Some by blast
  have "?ok a" if "attrs = Some a" for a
    using ok(2) that attributes_hrefs [of ty _ a] by (auto simp: node_refined_def split: option.splits)
  moreover have "?ok (JArr ms)" if "marks = Some ms" for ms
  proof (rule hrefs_ok_arr)
    fix m assume m: "m \<in> set ms"
    from marks that obtain x where "marks_schema protocol x = Some ms" by (auto simp: optional_cases)
    then obtain xs where "all_some (map (MarkSchema protocol) xs) = Some ms"
      by (cases x) (auto simp: marks_schema_def split: if_splits)
    from all_some_elem [OF this m] show "?ok m" by (auto intro: MarkSchema_hrefs)
  qed
  moreover have "?ok (JArr (map rt_json ns))" if "content = Some ns" for ns
  proof (rule hrefs_ok_arr)
    fix x assume "x \<in> set (map rt_json ns)"
    then obtain m where m: "m \<in> set ns" "x = rt_json m" by auto
    from content that obtain cs where cs: "json_field ''content'' j = Some (JArr cs)"
      "all_some (map (BaseNodeSchema protocol) cs) = Some ns"
      by (auto split: option.splits json.splits)
    from all_some_elem [OF cs(2) m(1)] obtain c where "c \<in> set cs" "BaseNodeSchema protocol c = Some m"
      by blast
    then show "?ok x" using less.hyps json_content_size [OF cs(1)] m(2) by blast
  qed
  ultimately show ?case
    by (auto simp: n node_of_def given_def intro!: hrefs_ok_obj split: option.splits)
qed

section \<open>Properties\<close>

text \<open>C39: a document is accepted exactly when its nodes satisfy the schema, its root is a \<open>doc\<close> and it has at
  most 10000 nodes on at most 32 levels, although the count stops at the first limit it passes. The JSON of an
  accepted document, which is what is stored, is accepted again and gives the same document.\<close>

theorem RichTextDocument_exact:
  "(RichTextDocument protocol j = Some n \<longleftrightarrow>
      BaseNodeSchema protocol j = Some n \<and> rt_type n = ''doc'' \<and> rt_count n \<le> 10000 \<and> rt_depth n \<le> 32) \<and>
   (RichTextDocument protocol j = Some n \<longrightarrow> RichTextDocument protocol (rt_json n) = Some n)"
  using BaseNodeSchema_again [of protocol j n]
  by (auto simp: RichTextDocument_Some MAX_NODES_richtext_def MAX_DEPTH_richtext_def)

definition example_document :: json where
  "example_document =
     JObj [(''content'', JArr [JObj [(''type'', JStr ''paragraph''), (''content'', JArr [
        JObj [(''text'', JStr ''docs''), (''type'', JStr ''text''),
              (''marks'', JArr [JObj [(''attrs'', JObj [(''href'', JStr ''https://a.io'')]),
                                     (''type'', JStr ''link'')]])]])]]),
      (''type'', JStr ''doc'')]"

definition example_protocol :: "string \<Rightarrow> string option" where
  "example_protocol s = (if take 6 s = ''https:'' then Some ''https:'' else None)"

definition example_node :: RichTextNode where
  "example_node =
     node_of ''doc'' None None None (Some [node_of ''paragraph'' None None None (Some
       [node_of ''text'' (Some ''docs'') None (Some [JObj [(''type'', JStr ''link''),
          (''attrs'', JObj [(''href'', JStr ''https://a.io'')])]]) None])])"

lemmas schema_defs =
  BaseNodeSchema.simps optional_def text_schema_def record_schema_def marks_schema_def node_refined_def
  NODE_TYPES_def NODE_ATTRIBUTES_def bare_def MarkSchema_def link_attrs_def in_order_def SafeUrl_def
  SAFE_SCHEMES_def example_protocol_def MAX_TEXT_LENGTH_def List.map_filter_simps

lemma example_parses: "BaseNodeSchema example_protocol example_document = Some example_node"
  by (simp add: example_document_def example_node_def schema_defs)

lemma example_accepted: "RichTextDocument example_protocol example_document = Some example_node"
  using example_parses
  by (simp add: RichTextDocument_Some MAX_NODES_richtext_def MAX_DEPTH_richtext_def)
    (simp add: example_node_def node_of_def)

theorem RichTextDocument_exact_witness:
  "RichTextDocument example_protocol example_document = Some example_node \<and>
   RichTextDocument example_protocol (rt_json example_node) = Some example_node \<and>
   rt_json example_node \<noteq> example_document"
  using RichTextDocument_exact [of example_protocol example_document example_node] example_accepted
  by (simp add: example_node_def example_document_def node_of_def given_def)

text \<open>C40: in the stored form of an accepted document, every \<open>href\<close> member of every object, however deep, is a
  string whose URL has one of the protocols http, https and mailto.\<close>

theorem stored_links_are_safe:
  assumes "RichTextDocument protocol j = Some n"
    and "json_at path (rt_json n) = Some v" and "json_field ''href'' v = Some h"
  shows "\<exists>s p. h = JStr s \<and> protocol s = Some p \<and> p \<in> {''http:'', ''https:'', ''mailto:''}"
proof -
  have "hrefs_ok (safe_href protocol) (rt_json n)"
    using assms(1) by (auto simp: RichTextDocument_Some intro: BaseNodeSchema_hrefs)
  then show ?thesis using assms(2,3) unfolding hrefs_ok_def safe_href_def by blast
qed

theorem stored_links_are_safe_witness:
  "\<exists>s p. JStr ''https://a.io'' = JStr s \<and> example_protocol s = Some p \<and> p \<in> {''http:'', ''https:'', ''mailto:''}"
  by (rule stored_links_are_safe [OF example_accepted, of
        "[Key ''content'', Index 0, Key ''content'', Index 0, Key ''marks'', Index 0, Key ''attrs'']"
        "JObj [(''href'', JStr ''https://a.io'')]"])
    (simp_all add: example_node_def node_of_def given_def)

end
