(* ===== verification/Automation_Rules.thy ===== *)
theory Automation_Rules
  imports Tenancy Relay Evaluate Work_Cards Richtext
begin

text \<open>
  The rules of the automation engine: \<open>apps/api/src/automation/automation.service.ts\<close>, which stores them,
  \<open>apps/worker/src/automation/types.ts\<close>, \<open>loop-protection.ts\<close> and \<open>repository.ts\<close>, which load and limit them,
  and \<open>apps/api/src/tenancy/role-default-grant.service.ts\<close>. An action is the JSON object a rule stores.
\<close>

section \<open>Rows and state\<close>

record AutomationRow =
  au_id :: string
  au_orgId :: string
  au_name :: string
  au_description :: "string option"
  au_triggerEvent :: string
  au_condition :: "json option"
  au_actions :: json
  au_enabled :: bool
  au_createdBy :: string
  au_updatedAt :: int

record AutomationRule =
  ru_id :: string
  ru_orgId :: string
  ru_name :: string
  ru_triggerEvent :: string
  ru_condition :: "FilterNode option"
  ru_actions :: "json list"
  ru_enabled :: bool
  ru_createdBy :: string

datatype loaded_rule = Usable AutomationRule | UnusableRule string string

text \<open>What an action may fail with: the error of a service, or a plain \<open>Error\<close> with its message.\<close>

datatype action_error = Act_App AppError | Act_Work work_error | Act_Error string

record ActionResult =
  ar_index :: nat
  ar_type :: string
  ar_error :: "action_error option"

datatype RunStatus = Succeeded | Failed | Refused | Skipped

datatype RunReason =
    Condition_Not_Met | Rule_Disabled | Org_Suspended | Depth_Exceeded | Self_Trigger
  | Budget_Exhausted | Unauthorized | Condition_Unusable | Trigger_Not_Evaluable

record RunOutcome =
  ro_automationId :: string
  ro_status :: RunStatus
  ro_reason :: "RunReason option"
  ro_actionResults :: "ActionResult list"
  ro_depth :: nat

record AutomationRun =
  run_orgId :: string
  run_eventId :: string
  run_triggerEvent :: string
  run_outcome :: RunOutcome

record RoleDefaultRow =
  rd_id :: string
  rd_orgId :: string
  rd_role :: string
  rd_permission :: string

record WebhookRow =
  wh_id :: string
  wh_orgId :: string
  wh_enabled :: bool

record DeliveryRow =
  wd_id :: string
  wd_orgId :: string
  wd_webhookId :: string
  wd_eventId :: string
  wd_eventName :: string
  wd_payload :: json

text \<open>
  The database as the engine sees it. \<open>w_budget\<close> counts the executions of an organization in an hour,
  \<open>w_dispatch\<close> is the dispatch table of the outbox, and \<open>w_draws\<close> counts what was drawn from the machine.
\<close>

record world =
  w_tenancy :: tenancy
  w_rules :: "AutomationRow list"
  w_runs :: "AutomationRun list"
  w_budget :: "string \<times> int \<Rightarrow> nat option"
  w_defaults :: "RoleDefaultRow list"
  w_webhooks :: "WebhookRow list"
  w_deliveries :: "DeliveryRow list"
  w_dispatch :: "string \<times> string \<Rightarrow> dispatch_row option"
  w_draws :: nat

section \<open>Loop protection\<close>

definition MAX_HOPS :: nat where "MAX_HOPS = 5"

definition action_type :: "json \<Rightarrow> string" where
  "action_type action = (case json_field ''type'' action of Some (JStr s) \<Rightarrow> s | _ \<Rightarrow> [])"

definition EVENTS_EMITTED_BY :: "(string \<times> string list) list" where
  "EVENTS_EMITTED_BY =
    [(''card.move'', [''card.moved'', ''card.updated'', ''list.rebalanced'']),
     (''card.set_status'', [''card.status_changed'', ''card.updated'']),
     (''card.set_priority'', [''card.updated'']),
     (''card.assign'', [''card.assigned'', ''card.updated'']),
     (''card.add_label'', [''card.labeled'', ''card.updated'']),
     (''card.remove_label'', [''card.labeled'', ''card.updated'']),
     (''card.unassign'', [''card.assigned'', ''card.updated'']),
     (''card.add_comment'', [''comment.created'', ''card.updated'']),
     (''chat.post_message'', [''message.sent'']),
     (''call_webhook'', [''webhook.delivery_queued'']),
     (''call.place'', [''call.placed'', ''call.status_changed'']),
     (''sms.send'', [''sms.sent'']),
     (''slack.post_message'', [''integration.message_posted'']),
     (''github.create_issue'', [''integration.issue_created'']),
     (''channel.add_member'', [''channel.member_added'']),
     (''channel.remove_member'', [''channel.member_removed'']),
     (''docs.grant_space_access'', [''grant.created'']),
     (''identity.revoke_sessions'', [''session.revoked'']),
     (''member_grant.revoke_all'', [''member_grant.revoked'']),
     (''cards.bulk_reassign'', [''card.bulk_reassigned'']),
     (''card.create'', [''card.created'']),
     (''member_grant.apply_role_defaults'', [''member_grant.created''])]"

definition eventsEmittedBy :: "string \<Rightarrow> string list" where
  "eventsEmittedBy ty = (case map_of EVENTS_EMITTED_BY ty of None \<Rightarrow> [] | Some names \<Rightarrow> names)"

definition checkDepth :: "nat \<Rightarrow> RunReason option" where
  "checkDepth depth = (if depth \<ge> MAX_HOPS then Some Depth_Exceeded else None)"

definition selfTriggers :: "string \<Rightarrow> json list \<Rightarrow> bool" where
  "selfTriggers triggerEvent acts =
     list_ex (\<lambda>action. triggerEvent \<in> set (eventsEmittedBy (action_type action))) acts"

text \<open>The reason of a refusal, or \<open>None\<close> when the rule may run.\<close>

definition checkLoopProtection :: "AutomationRule \<Rightarrow> nat \<Rightarrow> RunReason option" where
  "checkLoopProtection ru depth =
     (case checkDepth depth of
        Some r \<Rightarrow> Some r
      | None \<Rightarrow> if selfTriggers (ru_triggerEvent ru) (ru_actions ru) then Some Self_Trigger else None)"

section \<open>Loading rules\<close>

text \<open>\<open>parseStoredCondition\<close>: \<open>None\<close> is the value \<open>UNUSABLE\<close>. \<open>other\<close> reads the dates \<open>Date.parse\<close> is free to read.\<close>

definition parseStoredCondition ::
  "(string \<Rightarrow> int option) \<Rightarrow> string \<Rightarrow> json option \<Rightarrow> FilterNode option option" where
  "parseStoredCondition other triggerEvent stored =
     (case stored of
        None \<Rightarrow> Some None
      | Some JNull \<Rightarrow> Some None
      | Some j \<Rightarrow>
          (case FilterTree j of
             None \<Rightarrow> None
           | Some node \<Rightarrow>
               if res_ok (validate other (resourceForTrigger triggerEvent) node) then Some (Some node) else None))"

definition has_type :: "json \<Rightarrow> bool" where
  "has_type entry = (case json_field ''type'' entry of Some (JStr _) \<Rightarrow> True | _ \<Rightarrow> False)"

definition parseStoredActions :: "json \<Rightarrow> json list option" where
  "parseStoredActions stored =
     (case stored of JArr entries \<Rightarrow> if entries \<noteq> [] \<and> list_all has_type entries then Some entries else None
      | _ \<Rightarrow> None)"

definition load_rule :: "(string \<Rightarrow> int option) \<Rightarrow> AutomationRow \<Rightarrow> loaded_rule" where
  "load_rule other row =
     (case (parseStoredCondition other (au_triggerEvent row) (au_condition row),
            parseStoredActions (au_actions row)) of
        (Some condition, Some acts) \<Rightarrow>
          Usable \<lparr>ru_id = au_id row, ru_orgId = au_orgId row, ru_name = au_name row,
            ru_triggerEvent = au_triggerEvent row, ru_condition = condition, ru_actions = acts,
            ru_enabled = au_enabled row, ru_createdBy = au_createdBy row\<rparr>
      | _ \<Rightarrow> UnusableRule (au_id row) (au_name row))"

definition loadRulesFor :: "(string \<Rightarrow> int option) \<Rightarrow> string \<Rightarrow> string \<Rightarrow> world \<Rightarrow> loaded_rule list" where
  "loadRulesFor other orgId triggerEvent w =
     map (load_rule other)
       (filter (\<lambda>r. au_orgId r = orgId \<and> au_triggerEvent r = triggerEvent \<and> au_enabled r) (w_rules w))"

definition orgIsActive :: "string \<Rightarrow> world \<Rightarrow> bool" where
  "orgIsActive orgId w =
     (map_option o_status (find (\<lambda>o'. o_id o' = orgId) (orgs (w_tenancy w))) = Some ''active'')"

text \<open>The statement of \<open>packages/db/src/automation-budget.ts\<close>: insert or increment below the limit.\<close>

definition HOURLY_EXECUTION_BUDGET :: nat where "HOURLY_EXECUTION_BUDGET = 1000"

definition consumeAutomationBudget :: "string \<Rightarrow> nat \<Rightarrow> int \<Rightarrow> world \<Rightarrow> bool \<times> world" where
  "consumeAutomationBudget orgId limit now w =
     (let key = (orgId, now div 3600000) in
      case w_budget w key of
        None \<Rightarrow> (True, w\<lparr>w_budget := (w_budget w)(key \<mapsto> 1)\<rparr>)
      | Some n \<Rightarrow> if n < limit then (True, w\<lparr>w_budget := (w_budget w)(key \<mapsto> n + 1)\<rparr>) else (False, w))"

definition recordRun :: "string \<Rightarrow> string \<Rightarrow> string \<Rightarrow> RunOutcome \<Rightarrow> world \<Rightarrow> world" where
  "recordRun orgId eventId triggerEvent outcome w =
     w\<lparr>w_runs := w_runs w @ [\<lparr>run_orgId = orgId, run_eventId = eventId, run_triggerEvent = triggerEvent,
        run_outcome = outcome\<rparr>]\<rparr>"

section \<open>Storing rules\<close>

record AutomationInput =
  in_name :: string
  in_description :: "string option"
  in_triggerEvent :: string
  in_condition :: "json option"
  in_actions :: "json list"
  in_enabled :: bool

text \<open>The second copy of the table, in \<open>automation.service.ts\<close>.\<close>

definition EVENTS_EMITTED_BY_api :: "(string \<times> string list) list" where
  "EVENTS_EMITTED_BY_api =
    [(''card.move'', [''card.moved'', ''card.updated'', ''list.rebalanced'']),
     (''card.set_status'', [''card.status_changed'', ''card.updated'']),
     (''card.set_priority'', [''card.updated'']),
     (''card.assign'', [''card.assigned'', ''card.updated'']),
     (''card.add_label'', [''card.labeled'', ''card.updated'']),
     (''card.remove_label'', [''card.labeled'', ''card.updated'']),
     (''card.unassign'', [''card.assigned'', ''card.updated'']),
     (''card.add_comment'', [''comment.created'', ''card.updated'']),
     (''chat.post_message'', [''message.sent'']),
     (''call_webhook'', [''webhook.delivery_queued'']),
     (''call.place'', [''call.placed'', ''call.status_changed'']),
     (''sms.send'', [''sms.sent'']),
     (''slack.post_message'', [''integration.message_posted'']),
     (''github.create_issue'', [''integration.issue_created'']),
     (''channel.add_member'', [''channel.member_added'']),
     (''channel.remove_member'', [''channel.member_removed'']),
     (''docs.grant_space_access'', [''grant.created'']),
     (''identity.revoke_sessions'', [''session.revoked'']),
     (''member_grant.revoke_all'', [''member_grant.revoked'']),
     (''cards.bulk_reassign'', [''card.bulk_reassigned'']),
     (''card.create'', [''card.created'']),
     (''member_grant.apply_role_defaults'', [''member_grant.created''])]"

text \<open>\<open>findEvent\<close> is a parameter: the registry is filled as the modules of the process are loaded.\<close>

definition assertTriggerRegistered :: "(string \<Rightarrow> bool) \<Rightarrow> string \<Rightarrow> (AppError, unit) result" where
  "assertTriggerRegistered registered triggerEvent =
     (if registered triggerEvent then Return ()
      else Throw (validation [(''triggerEvent'', JArr [JStr
        (CHR 0x22 # triggerEvent @ CHR 0x22 # '' is not an event this system emits.'')])]
        (Some ''That trigger does not exist.'')))"

definition assertConditionUsable ::
  "(string \<Rightarrow> int option) \<Rightarrow> string \<Rightarrow> json option \<Rightarrow> (AppError, unit) result" where
  "assertConditionUsable other triggerEvent condition =
     (case condition of
        None \<Rightarrow> Return ()
      | Some j \<Rightarrow>
          (case FilterTree j of
             None \<Rightarrow> Throw (validation [(''condition'', JArr [JStr ''That condition is not a valid filter.''])] None)
           | Some node \<Rightarrow>
               (let r = validate other (resourceForTrigger triggerEvent) node in
                if res_ok r then Return ()
                else Throw (validation [(''condition'', JArr (map (JStr \<circ> ferr_message) (res_errors r)))]
                       (Some ''That condition is not valid.'')))))"

text \<open>The dash of the message is a code unit above 255 in the source.\<close>

definition assertNotSelfTriggering :: "string \<Rightarrow> json list \<Rightarrow> (AppError, unit) result" where
  "assertNotSelfTriggering triggerEvent acts =
     (if list_ex (\<lambda>action. triggerEvent \<in> set (case map_of EVENTS_EMITTED_BY_api (action_type action) of
            None \<Rightarrow> [] | Some names \<Rightarrow> names)) acts
      then Throw (validation [(''actions'', JArr [JStr (''An action here emits '' @ CHR 0x22 # triggerEvent @
              CHR 0x22 # '', which is this rule's own trigger - it would run itself in a loop.'')])]
              (Some ''That rule would trigger itself.''))
      else Return ())"

definition input_ok ::
  "(string \<Rightarrow> int option) \<Rightarrow> (string \<Rightarrow> bool) \<Rightarrow> AutomationInput \<Rightarrow> (work_error, unit) result" where
  "input_ok other registered input =
     (case bind_result (assertTriggerRegistered registered (in_triggerEvent input)) (\<lambda>_.
           bind_result (assertConditionUsable other (in_triggerEvent input) (in_condition input)) (\<lambda>_.
           assertNotSelfTriggering (in_triggerEvent input) (in_actions input))) of
        Inl e \<Rightarrow> Throw (App e) | Inr _ \<Rightarrow> Return ())"

text \<open>
  The constraints of the table (migration 0047): the checks, then one name per organization, whatever its
  case (\<open>lower\<close> as far as ASCII goes). The positive action count of the event's schema follows.
\<close>

definition row_checks :: "AutomationRow \<Rightarrow> bool" where
  "row_checks row =
     (list_ex (\<lambda>c. c \<noteq> CHR '' '') (au_name row) \<and> length (au_name row) \<le> 120 \<and>
      list_ex (\<lambda>c. c \<noteq> CHR '' '') (au_triggerEvent row) \<and>
      (case au_condition row of None \<Rightarrow> True | Some (JObj _) \<Rightarrow> True | _ \<Rightarrow> False) \<and>
      (case au_actions row of JArr as \<Rightarrow> 1 \<le> length as \<and> length as \<le> 10 | _ \<Rightarrow> False))"

definition name_key :: "AutomationRow \<Rightarrow> string \<times> string" where
  "name_key row = (au_orgId row, to_lower (au_name row))"

definition rule_constraints :: "AutomationRow list \<Rightarrow> AutomationRow \<Rightarrow> (work_error, unit) result" where
  "rule_constraints others row =
     (if \<not> row_checks row then Throw (key_error ''23514'')
      else if list_ex (\<lambda>r. au_id r = au_id row \<or> name_key r = name_key row) others
      then Throw (key_error UNIQUE_VIOLATION) else Return ())"

definition name_taken :: AppError where
  "name_taken = conflict (Some ''An automation with that name already exists.'')"

definition actor_of :: "WorkActor \<Rightarrow> Actor" where
  "actor_of actor = \<lparr>act_userId = userOf actor, act_requestId = requestId actor\<rparr>"

text \<open>The event of a rule, written in the transaction; the envelope has no depth.\<close>

definition rule_event ::
  "WorkActor \<Rightarrow> drawn \<Rightarrow> string \<Rightarrow> (string \<times> json) list \<Rightarrow> world \<Rightarrow> world" where
  "rule_event actor drawn name payload w =
     w\<lparr>w_tenancy := append_rows drawn [event_row (orgOf actor) (actor_of actor) drawn name payload] (w_tenancy w)\<rparr>"

definition count_json :: "nat \<Rightarrow> json" where "count_json n = JNum (int n) 0"

definition createAutomation ::
  "(string \<Rightarrow> int option) \<Rightarrow> (string \<Rightarrow> bool) \<Rightarrow> WorkActor \<Rightarrow> AutomationInput \<Rightarrow> string \<Rightarrow> drawn \<Rightarrow> world \<Rightarrow>
   (work_error, string \<times> world) result" where
  "createAutomation other registered actor input automationId drawn w =
     bind_result (input_ok other registered input) (\<lambda>_.
     translatingConstraints
       (let row = \<lparr>au_id = automationId, au_orgId = orgOf actor, au_name = in_name input,
              au_description = in_description input, au_triggerEvent = in_triggerEvent input,
              au_condition = in_condition input, au_actions = JArr (in_actions input),
              au_enabled = in_enabled input, au_createdBy = userOf actor, au_updatedAt = snd drawn\<rparr> in
        bind_result (rule_constraints (w_rules w) row) (\<lambda>_.
        Return (automationId, rule_event actor drawn ''automation.created''
          [(''automationId'', JStr automationId), (''name'', JStr (in_name input)),
           (''triggerEvent'', JStr (in_triggerEvent input)), (''enabled'', JBool (in_enabled input)),
           (''actionCount'', count_json (length (in_actions input)))]
          (w\<lparr>w_rules := w_rules w @ [row]\<rparr>))))
       name_taken)"

definition loadAutomation :: "string \<Rightarrow> string \<Rightarrow> world \<Rightarrow> (work_error, AutomationRow) result" where
  "loadAutomation orgId automationId w =
     (case find (\<lambda>r. au_orgId r = orgId \<and> au_id r = automationId) (w_rules w) of
        None \<Rightarrow> Throw (App (notFound None)) | Some r \<Rightarrow> Return r)"

definition actionCount :: "AutomationRow \<Rightarrow> nat" where
  "actionCount row = (case au_actions row of JArr as \<Rightarrow> length as | _ \<Rightarrow> 1)"

definition update_rule ::
  "string \<Rightarrow> string \<Rightarrow> (AutomationRow \<Rightarrow> AutomationRow) \<Rightarrow> world \<Rightarrow> world" where
  "update_rule orgId automationId change w =
     w\<lparr>w_rules := map (\<lambda>r. if au_orgId r = orgId \<and> au_id r = automationId then change r else r) (w_rules w)\<rparr>"

definition updated_payload :: "string \<Rightarrow> string \<Rightarrow> string \<Rightarrow> bool \<Rightarrow> bool \<Rightarrow> nat \<Rightarrow> (string \<times> json) list" where
  "updated_payload automationId name triggerEvent wasEnabled enabled n =
     [(''automationId'', JStr automationId), (''name'', JStr name), (''triggerEvent'', JStr triggerEvent),
      (''wasEnabled'', JBool wasEnabled), (''enabled'', JBool enabled), (''actionCount'', count_json n)]"

definition updateAutomation ::
  "(string \<Rightarrow> int option) \<Rightarrow> (string \<Rightarrow> bool) \<Rightarrow> WorkActor \<Rightarrow> string \<Rightarrow> AutomationInput \<Rightarrow> drawn \<Rightarrow> world \<Rightarrow>
   (work_error, string \<times> world) result" where
  "updateAutomation other registered actor automationId input drawn w =
     bind_result (input_ok other registered input) (\<lambda>_.
     translatingConstraints
       (bind_result (loadAutomation (orgOf actor) automationId w) (\<lambda>existing.
        let change = (\<lambda>r. r\<lparr>au_name := in_name input, au_description := in_description input,
              au_triggerEvent := in_triggerEvent input, au_condition := in_condition input,
              au_actions := JArr (in_actions input), au_enabled := in_enabled input,
              au_updatedAt := snd drawn\<rparr>) in
        bind_result (rule_constraints (filter (\<lambda>r. au_id r \<noteq> automationId) (w_rules w)) (change existing)) (\<lambda>_.
        Return (in_name input, rule_event actor drawn ''automation.updated''
          (updated_payload automationId (in_name input) (in_triggerEvent input) (au_enabled existing)
             (in_enabled input) (length (in_actions input)))
          (update_rule (orgOf actor) automationId change w)))))
       name_taken)"

definition setAutomationEnabled ::
  "WorkActor \<Rightarrow> string \<Rightarrow> bool \<Rightarrow> drawn \<Rightarrow> world \<Rightarrow> (work_error, bool \<times> world) result" where
  "setAutomationEnabled actor automationId enabled drawn w =
     bind_result (loadAutomation (orgOf actor) automationId w) (\<lambda>existing.
     Return (enabled, rule_event actor drawn ''automation.updated''
       (updated_payload automationId (au_name existing) (au_triggerEvent existing) (au_enabled existing)
          enabled (actionCount existing))
       (update_rule (orgOf actor) automationId (\<lambda>r. r\<lparr>au_enabled := enabled, au_updatedAt := snd drawn\<rparr>) w)))"

text \<open>The runs of a deleted rule go with it, by the foreign key.\<close>

definition deleteAutomation ::
  "WorkActor \<Rightarrow> string \<Rightarrow> drawn \<Rightarrow> world \<Rightarrow> (work_error, world) result" where
  "deleteAutomation actor automationId drawn w =
     bind_result (loadAutomation (orgOf actor) automationId w) (\<lambda>existing.
     Return (rule_event actor drawn ''automation.deleted''
       [(''automationId'', JStr automationId), (''name'', JStr (au_name existing))]
       (w\<lparr>w_rules := filter (\<lambda>r. \<not> (au_orgId r = orgOf actor \<and> au_id r = automationId)) (w_rules w),
          w_runs := filter (\<lambda>r. \<not> (run_orgId r = orgOf actor \<and>
             ro_automationId (run_outcome r) = automationId)) (w_runs w)\<rparr>)))"

section \<open>Role default grants\<close>

definition set_default ::
  "string \<Rightarrow> string \<Rightarrow> string \<Rightarrow> Actor \<Rightarrow> string \<Rightarrow> drawn \<Rightarrow> world \<Rightarrow> (AppError, string \<times> world) result" where
  "set_default orgId role permission actor grantId drawn w =
     (if \<not> isRole role then Throw (validation [(''role'', JStr ''Not a recognized role.'')] None)
      else if \<not> isPermission permission \<or> \<not> isGrantable permission then Throw not_grantable
      else
        (case find (\<lambda>d. rd_orgId d = orgId \<and> rd_role d = role \<and> rd_permission d = permission) (w_defaults w) of
           Some found \<Rightarrow> Return (rd_id found, w)
         | None \<Rightarrow>
             Return (grantId, w\<lparr>w_defaults := w_defaults w @
                 [\<lparr>rd_id = grantId, rd_orgId = orgId, rd_role = role, rd_permission = permission\<rparr>],
               w_tenancy := append_rows drawn [event_row orgId actor drawn ''role_default_grant.set''
                 [(''grantId'', JStr grantId), (''orgId'', JStr orgId), (''role'', JStr role),
                  (''permission'', JStr permission)]] (w_tenancy w)\<rparr>)))"

definition remove_default ::
  "string \<Rightarrow> string \<Rightarrow> string \<Rightarrow> Actor \<Rightarrow> drawn \<Rightarrow> world \<Rightarrow> world" where
  "remove_default orgId role permission actor drawn w =
     (case find (\<lambda>d. rd_orgId d = orgId \<and> rd_role d = role \<and> rd_permission d = permission) (w_defaults w) of
        None \<Rightarrow> w
      | Some row \<Rightarrow>
          w\<lparr>w_defaults := filter (\<lambda>d. \<not> (rd_orgId d = orgId \<and> rd_id d = rd_id row)) (w_defaults w),
            w_tenancy := append_rows drawn [event_row orgId actor drawn ''role_default_grant.removed''
              [(''grantId'', JStr (rd_id row)), (''orgId'', JStr orgId), (''role'', JStr role),
               (''permission'', JStr permission)]] (w_tenancy w)\<rparr>)"

definition permissionsForRole :: "string \<Rightarrow> string \<Rightarrow> world \<Rightarrow> string list" where
  "permissionsForRole orgId role w =
     map rd_permission (filter (\<lambda>d. rd_orgId d = orgId \<and> rd_role d = role) (w_defaults w))"

end
