(* ===== verification/Automation.thy ===== *)
theory Automation
  imports Automation_Rules
begin

text \<open>
  The automation engine, \<open>apps/worker/src/automation\<close>: \<open>executor.ts\<close> runs the actions of a rule through the
  services as the owner of the rule, \<open>engine.ts\<close> decides which rules run for an event, \<open>relay.ts\<close> drains the
  outbox. A \<open>machine\<close> is what the process is given: the ids and times it draws, by the number of the draw,
  what the platform's parsers answer, the text of a date in its time zone, the columns of a card that no row
  here holds (\<open>created\<close>, \<open>comments\<close>, the checklist counts), and the services whose modules are not modelled
  (labels, comments, chat, telephony, connectors, channel members, sessions).
\<close>

record TriggerEvent =
  te_id :: string
  te_orgId :: string
  te_name :: string
  te_payload :: json
  te_causationDepth :: nat

record machine =
  mc_newId :: "nat \<Rightarrow> nat \<Rightarrow> string"
  mc_clock :: "nat \<Rightarrow> int"
  mc_date :: "string \<Rightarrow> int option"
  mc_protocol :: "string \<Rightarrow> string option"
  mc_dateText :: "int \<Rightarrow> string"
  mc_columns :: "CardRow \<Rightarrow> EvaluableRow"
  mc_services :: "WorkActor \<Rightarrow> json \<Rightarrow> TriggerEvent \<Rightarrow> world \<Rightarrow> action_error option \<times> world"

definition now_of :: "machine \<Rightarrow> world \<Rightarrow> int" where "now_of mc w = mc_clock mc (w_draws w)"

definition fresh :: "machine \<Rightarrow> world \<Rightarrow> nat \<Rightarrow> string" where "fresh mc w k = mc_newId mc (w_draws w) k"

text \<open>Ids and time of the events a service appends; id 0 of a draw is for the row it creates.\<close>

definition drawn_of :: "machine \<Rightarrow> world \<Rightarrow> drawn" where
  "drawn_of mc w = ((\<lambda>k. fresh mc w (Suc k)), now_of mc w)"

section \<open>The work services on the shared database\<close>

text \<open>The events of \<open>apps/api/src/work/events.ts\<close> as the outbox holds them.\<close>

definition text_or_null :: "string option \<Rightarrow> json" where
  "text_or_null s = (case s of None \<Rightarrow> JNull | Some x \<Rightarrow> JStr x)"

definition number_or_null :: "int option \<Rightarrow> json" where
  "number_or_null n = (case n of None \<Rightarrow> JNull | Some x \<Rightarrow> JNum x 0)"

definition date_or_null :: "int option \<Rightarrow> json" where
  "date_or_null t = (case t of None \<Rightarrow> JNull | Some x \<Rightarrow> JStr (iso_text x))"

definition list_fields :: "string \<times> int option \<Rightarrow> json" where
  "list_fields s = JObj [(''name'', JStr (fst s)), (''wipLimit'', number_or_null (snd s))]"

definition card_fields :: "string \<times> int option \<times> int option \<times> string option \<Rightarrow> json" where
  "card_fields s =
     (case s of (title, due, start, priority) \<Rightarrow>
        JObj [(''title'', JStr title), (''dueDate'', date_or_null due), (''startDate'', date_or_null start),
              (''priority'', text_or_null priority)])"

definition texts :: "string list \<Rightarrow> json" where "texts ss = JArr (map JStr ss)"

fun event_wire :: "work_event \<Rightarrow> string \<times> (string \<times> json) list" where
  "event_wire (ListCreated l b name) =
     (''list.created'', [(''listId'', JStr l), (''boardId'', JStr b), (''name'', JStr name)])"
| "event_wire (ListUpdated l b old new) =
     (''list.updated'', [(''listId'', JStr l), (''boardId'', JStr b), (''before'', list_fields old),
        (''after'', list_fields new)])"
| "event_wire (ListReordered l b old new) =
     (''list.reordered'', [(''listId'', JStr l), (''boardId'', JStr b), (''fromRank'', JStr old),
        (''toRank'', JStr new)])"
| "event_wire (ListArchived l b name restored) =
     (''list.archived'', [(''listId'', JStr l), (''boardId'', JStr b), (''name'', JStr name),
        (''restored'', JBool restored)])"
| "event_wire (ListRebalanced l b n) =
     (''list.rebalanced'', [(''listId'', JStr l), (''boardId'', JStr b), (''cardCount'', count_json n)])"
| "event_wire (CardCreated c b l p reference title) =
     (''card.created'', [(''cardId'', JStr c), (''boardId'', JStr b), (''listId'', JStr l),
        (''projectId'', JStr p), (''reference'', JStr reference), (''title'', JStr title)])"
| "event_wire (CardUpdated c b changed old new) =
     (''card.updated'', [(''cardId'', JStr c), (''boardId'', JStr b), (''changed'', texts changed),
        (''before'', card_fields old), (''after'', card_fields new)])"
| "event_wire (CardMoved c b l m old new) =
     (''card.moved'', [(''cardId'', JStr c), (''boardId'', JStr b), (''fromListId'', JStr l),
        (''toListId'', JStr m), (''fromRank'', JStr old), (''toRank'', JStr new)])"
| "event_wire (CardStatusChanged c b old new) =
     (''card.status_changed'', [(''cardId'', JStr c), (''boardId'', JStr b), (''before'', text_or_null old),
        (''after'', text_or_null new)])"
| "event_wire (CardAssigned c b old new) =
     (''card.assigned'', [(''cardId'', JStr c), (''boardId'', JStr b), (''before'', texts old),
        (''after'', texts new)])"
| "event_wire (CardArchived c b l reference restored) =
     (''card.archived'', [(''cardId'', JStr c), (''boardId'', JStr b), (''listId'', JStr l),
        (''reference'', JStr reference), (''restored'', JBool restored)])"
| "event_wire (CardsBulkReassigned cs u v) =
     (''card.bulk_reassigned'', [(''cardIds'', texts cs), (''fromUserId'', JStr u), (''toUserId'', JStr v)])"

text \<open>A \<open>DomainEvent\<close> through \<open>appendToOutbox\<close>: an absent depth is stored as 0.\<close>

definition outbox_row :: "int \<Rightarrow> DomainEvent \<Rightarrow> OutboxRow" where
  "outbox_row now e =
     \<lparr>ob_id = [], ob_orgId = env_orgId (ev_envelope e), ob_name = fst (event_wire (ev_payload e)),
      ob_version = 1, ob_actorId = Some (env_actorId (ev_envelope e)),
      ob_requestId = Some (env_requestId (ev_envelope e)), ob_occurredAt = now,
      ob_causationDepth = (case env_causationDepth (ev_envelope e) of None \<Rightarrow> 0 | Some d \<Rightarrow> d),
      ob_payload = JObj (snd (event_wire (ev_payload e)))\<rparr>"

text \<open>The memberships the work services read are those of the tenancy.\<close>

definition work_view :: "tenancy \<Rightarrow> database" where
  "work_view t = (work t)\<lparr>memberships :=
     map (\<lambda>m. \<lparr>m_orgId = mb_orgId m, m_userId = mb_userId m, m_status = mb_status m\<rparr>) (members t)\<rparr>"

definition publish :: "drawn \<Rightarrow> database \<Rightarrow> database \<Rightarrow> tenancy \<Rightarrow> tenancy" where
  "publish drawn db db1 t =
     append_rows drawn (map (outbox_row (snd drawn)) (drop (length (outbox db)) (outbox db1))) (t\<lparr>work := db1\<rparr>)"

text \<open>A service of the work module: a new id, the time, and the database. An error rolls back.\<close>

definition run_work ::
  "machine \<Rightarrow> (string \<Rightarrow> int \<Rightarrow> database \<Rightarrow> (action_error, database) result) \<Rightarrow> world \<Rightarrow>
   action_error option \<times> world" where
  "run_work mc service w =
     (let t = w_tenancy w; db = work_view t in
      case service (fresh mc w 0) (now_of mc w) db of
        Inl e \<Rightarrow> (Some e, w)
      | Inr db1 \<Rightarrow> (None, w\<lparr>w_tenancy := publish (drawn_of mc w) db db1 t, w_draws := Suc (w_draws w)\<rparr>))"

definition done_work :: "(work_error, 'a \<times> database) result \<Rightarrow> (action_error, database) result" where
  "done_work r = (case r of Inl e \<Rightarrow> Throw (Act_Work e) | Inr (_, db) \<Rightarrow> Return db)"

definition getCard :: "WorkActor \<Rightarrow> string \<Rightarrow> database \<Rightarrow> (work_error, CardRow) result" where
  "getCard actor cardId db =
     (case filter (\<lambda>c. c_orgId c = orgOf actor \<and> c_id c = cardId \<and> c_deletedAt c = None \<and>
             list_ex (\<lambda>p. p_orgId p = orgOf actor \<and> p_id p = c_projectId c) (projects db)) (cards db) of
        [] \<Rightarrow> Throw (App (notFound None))
      | row # _ \<Rightarrow> bind_result (enforce_card actor ''card:read'' row) (\<lambda>_. Return row))"

definition descriptionOf :: "machine \<Rightarrow> json option \<Rightarrow> (action_error, RichTextNode option) result" where
  "descriptionOf mc stored =
     (case stored of
        None \<Rightarrow> Return None
      | Some JNull \<Rightarrow> Return None
      | Some j \<Rightarrow>
          (case RichTextDocument (mc_protocol mc) j of
             None \<Rightarrow> Throw (Act_Error ''this card's description is not valid rich text, so it cannot be rewritten'')
           | Some node \<Rightarrow> Return (Some node)))"

definition set_priority ::
  "machine \<Rightarrow> WorkActor \<Rightarrow> string \<Rightarrow> string \<Rightarrow> int \<Rightarrow> database \<Rightarrow> (action_error, database) result" where
  "set_priority mc actor cardId priority now db =
     (case getCard actor cardId db of
        Inl e \<Rightarrow> Throw (Act_Work e)
      | Inr row \<Rightarrow>
          bind_result (descriptionOf mc (c_description row)) (\<lambda>description.
          done_work (updateCard actor cardId (c_version row) (c_title row) description (c_dueDate row)
            (c_startDate row) (Some priority) now db)))"

text \<open>The assignees are read first and written back with one added or removed; no change is no call.\<close>

definition assign_one :: "WorkActor \<Rightarrow> string \<Rightarrow> string \<Rightarrow> int \<Rightarrow> database \<Rightarrow> (action_error, database) result" where
  "assign_one actor cardId addition now db =
     (case getCard actor cardId db of
        Inl e \<Rightarrow> Throw (Act_Work e)
      | Inr row \<Rightarrow>
          if addition \<in> set (c_assigneeIds row) then Return db
          else done_work (assignCard actor cardId (c_assigneeIds row @ [addition]) now db))"

definition unassign_one :: "WorkActor \<Rightarrow> string \<Rightarrow> string \<Rightarrow> int \<Rightarrow> database \<Rightarrow> (action_error, database) result" where
  "unassign_one actor cardId removal now db =
     (case getCard actor cardId db of
        Inl e \<Rightarrow> Throw (Act_Work e)
      | Inr row \<Rightarrow>
          if removal \<notin> set (c_assigneeIds row) then Return db
          else done_work (assignCard actor cardId (filter (\<lambda>i. i \<noteq> removal) (c_assigneeIds row)) now db))"

section \<open>Running one action\<close>

definition no_member :: action_error where
  "no_member = Act_Error ''the rule owner is no longer an active member of this organization''"

text \<open>\<open>cardIdOf\<close> and \<open>userIdOf\<close>: the card and the member the trigger names.\<close>

definition named_in ::
  "string \<Rightarrow> TriggerEvent \<Rightarrow> (string \<Rightarrow> world \<Rightarrow> action_error option \<times> world) \<Rightarrow> world \<Rightarrow>
   action_error option \<times> world" where
  "named_in key event k w =
     (case json_field key (te_payload event) of
        Some (JStr s) \<Rightarrow> k s w
      | _ \<Rightarrow> (Some (Act_Error (te_name event @ '' carries no '' @ key @ '', so this action has nothing to act on'')), w))"

text \<open>
  A member of a stored action. The routes store complete actions only; what a service would do with an
  undefined argument is not modelled, the action fails.
\<close>

definition given_text ::
  "string \<Rightarrow> json \<Rightarrow> (string \<Rightarrow> world \<Rightarrow> action_error option \<times> world) \<Rightarrow> world \<Rightarrow> action_error option \<times> world" where
  "given_text key action k w =
     (case json_field key action of
        Some (JStr s) \<Rightarrow> k s w | _ \<Rightarrow> (Some (Act_Error (''missing '' @ key)), w))"

text \<open>A tenancy service: its own transaction, with the id of the row it creates and what it draws.\<close>

definition run_tenancy ::
  "machine \<Rightarrow> (string \<Rightarrow> drawn \<Rightarrow> tenancy \<Rightarrow> (AppError, 'a \<times> tenancy) result) \<Rightarrow> world \<Rightarrow>
   action_error option \<times> world" where
  "run_tenancy mc service w =
     (case service (fresh mc w 0) (drawn_of mc w) (w_tenancy w) of
        Inl e \<Rightarrow> (Some (Act_App e), w)
      | Inr (_, t) \<Rightarrow> (None, w\<lparr>w_tenancy := t, w_draws := Suc (w_draws w)\<rparr>))"

definition may_manage_members ::
  "WorkActor \<Rightarrow> string \<Rightarrow> (world \<Rightarrow> action_error option \<times> world) \<Rightarrow> world \<Rightarrow> action_error option \<times> world" where
  "may_manage_members actor message k w =
     (if dec_allowed (can (subject actor) ''member:manage'' None) then k w
      else (Some (Act_App (forbidden (Some message))), w))"

fun grant_each ::
  "machine \<Rightarrow> WorkActor \<Rightarrow> string \<Rightarrow> string list \<Rightarrow> world \<Rightarrow> action_error option \<times> world" where
  "grant_each mc actor userId [] w = (None, w)"
| "grant_each mc actor userId (p # ps) w =
     (case run_tenancy mc (grant_member (orgOf actor) userId p (actor_of actor)) w of
        (Some e, w1) \<Rightarrow> (Some e, w1)
      | (None, w1) \<Rightarrow> grant_each mc actor userId ps w1)"

definition apply_role_defaults ::
  "machine \<Rightarrow> WorkActor \<Rightarrow> string \<Rightarrow> world \<Rightarrow> action_error option \<times> world" where
  "apply_role_defaults mc actor userId w =
     (case resolveOrgMembership userId (orgOf actor) (now_of mc w) (w_tenancy w) of
        Inl e \<Rightarrow> (Some (Act_App e), w)
      | Inr None \<Rightarrow>
          (Some (Act_Error ''the target member is no longer an active member of this organization''), w)
      | Inr (Some m) \<Rightarrow> grant_each mc actor userId (permissionsForRole (orgOf actor) (om_role m) w) w)"

text \<open>\<open>enqueueWebhookDelivery\<close> of \<open>apps/api/src/automation/webhook.service.ts\<close>.\<close>

definition enqueueWebhookDelivery ::
  "machine \<Rightarrow> WorkActor \<Rightarrow> string \<Rightarrow> TriggerEvent \<Rightarrow> world \<Rightarrow> action_error option \<times> world" where
  "enqueueWebhookDelivery mc actor webhookId event w =
     (if \<not> dec_allowed (can (subject actor) ''webhook:manage'' None)
      then (Some (Act_App (forbidden (Some ''Only members who can manage webhooks may make a rule call them.''))), w)
      else
        (case find (\<lambda>h. wh_orgId h = orgOf actor \<and> wh_id h = webhookId) (w_webhooks w) of
           None \<Rightarrow> (Some (Act_App (notFound None)), w)
         | Some h \<Rightarrow>
             if \<not> wh_enabled h then (Some (Act_App (conflict (Some ''That webhook is disabled.''))), w)
             else if list_ex (\<lambda>d. wd_orgId d = orgOf actor \<and> wd_webhookId d = webhookId \<and> wd_eventId d = te_id event)
                       (w_deliveries w) then (None, w)
             else
               (let deliveryId = fresh mc w 0;
                    body = JObj [(''eventId'', JStr (te_id event)), (''eventName'', JStr (te_name event)),
                      (''orgId'', JStr (orgOf actor)), (''occurredAt'', JStr (iso_text (now_of mc w))),
                      (''payload'', te_payload event)]
                in (None, w\<lparr>w_deliveries := w_deliveries w @
                      [\<lparr>wd_id = deliveryId, wd_orgId = orgOf actor, wd_webhookId = webhookId,
                        wd_eventId = te_id event, wd_eventName = te_name event, wd_payload = body\<rparr>],
                    w_tenancy := append_rows (drawn_of mc w)
                      [event_row (orgOf actor) (actor_of actor) (drawn_of mc w) ''webhook.delivery_queued''
                        [(''webhookId'', JStr webhookId), (''deliveryId'', JStr deliveryId),
                         (''eventId'', JStr (te_id event)), (''eventName'', JStr (te_name event))]] (w_tenancy w),
                    w_draws := Suc (w_draws w)\<rparr>))))"

definition OTHER_SERVICES :: "string list" where
  "OTHER_SERVICES =
    [''card.add_label'', ''card.remove_label'', ''card.add_comment'', ''chat.post_message'', ''call.place'',
     ''sms.send'', ''slack.post_message'', ''github.create_issue'', ''channel.add_member'',
     ''channel.remove_member'', ''identity.revoke_sessions'']"

text \<open>A type no branch names falls through the \<open>switch\<close>.\<close>

definition runAction ::
  "machine \<Rightarrow> WorkActor \<Rightarrow> json \<Rightarrow> TriggerEvent \<Rightarrow> world \<Rightarrow> action_error option \<times> world" where
  "runAction mc actor action event w =
     (let ty = action_type action in
      if ty = ''card.move'' then
        named_in ''cardId'' event (\<lambda>cardId. given_text ''listId'' action (\<lambda>listId.
          run_work mc (\<lambda>_ now db. done_work (moveCard actor cardId listId None None now db)))) w
      else if ty = ''card.set_status'' then
        named_in ''cardId'' event (\<lambda>cardId. given_text ''statusId'' action (\<lambda>statusId.
          run_work mc (\<lambda>_ now db. done_work (setCardStatus actor cardId (Some statusId) now db)))) w
      else if ty = ''card.set_priority'' then
        named_in ''cardId'' event (\<lambda>cardId. given_text ''priority'' action (\<lambda>priority.
          run_work mc (\<lambda>_. set_priority mc actor cardId priority))) w
      else if ty = ''card.assign'' then
        named_in ''cardId'' event (\<lambda>cardId. given_text ''userId'' action (\<lambda>userId.
          run_work mc (\<lambda>_. assign_one actor cardId userId))) w
      else if ty = ''card.unassign'' then
        named_in ''cardId'' event (\<lambda>cardId. given_text ''userId'' action (\<lambda>userId.
          run_work mc (\<lambda>_. unassign_one actor cardId userId))) w
      else if ty = ''call_webhook'' then
        given_text ''webhookId'' action (\<lambda>webhookId. enqueueWebhookDelivery mc actor webhookId event) w
      else if ty = ''docs.grant_space_access'' then
        may_manage_members actor ''The rule owner may not grant access to this organization.''
          (named_in ''userId'' event (\<lambda>userId. given_text ''spaceId'' action (\<lambda>spaceId.
             run_tenancy mc (\<lambda>tupleId drawn. grant (mc_date mc) (orgOf actor)
               \<lparr>gi_subjectType = ''user'', gi_subjectId = userId, gi_relation = ''viewer'',
                gi_objectType = ''space'', gi_objectId = spaceId, gi_expiresAt = None, gi_isGuest = None\<rparr>
               (actor_of actor) tupleId drawn)))) w
      else if ty = ''member_grant.revoke_all'' then
        may_manage_members actor ''The rule owner may not revoke another member's permission grants.''
          (named_in ''userId'' event (\<lambda>userId.
             run_tenancy mc (\<lambda>_. revokeAll (orgOf actor) userId (actor_of actor)))) w
      else if ty = ''cards.bulk_reassign'' then
        named_in ''userId'' event (\<lambda>fromUserId. given_text ''toUserId'' action (\<lambda>toUserId.
          run_work mc (\<lambda>_ now db. done_work (bulkReassignCards actor fromUserId toUserId now db)))) w
      else if ty = ''card.create'' then
        given_text ''listId'' action (\<lambda>listId. given_text ''title'' action (\<lambda>title.
          run_work mc (\<lambda>cardId now db. done_work (createCard actor listId title None cardId now db)))) w
      else if ty = ''member_grant.apply_role_defaults'' then
        named_in ''userId'' event (apply_role_defaults mc actor) w
      else if ty = ''identity.revoke_sessions'' then
        may_manage_members actor ''The rule owner may not end another member's sessions.''
          (named_in ''userId'' event (\<lambda>_. mc_services mc actor action event)) w
      else if ty \<in> {''card.add_label'', ''card.remove_label'', ''card.add_comment''} then
        named_in ''cardId'' event (\<lambda>_. mc_services mc actor action event) w
      else if ty \<in> {''channel.add_member'', ''channel.remove_member''} then
        named_in ''userId'' event (\<lambda>_. mc_services mc actor action event) w
      else if ty \<in> set OTHER_SERVICES then mc_services mc actor action event w
      else (None, w))"

section \<open>Running a rule\<close>

text \<open>The actions in order, up to the first that fails.\<close>

fun run_actions ::
  "machine \<Rightarrow> WorkActor \<Rightarrow> TriggerEvent \<Rightarrow> nat \<Rightarrow> json list \<Rightarrow> world \<Rightarrow> ActionResult list \<times> world" where
  "run_actions mc actor event index [] w = ([], w)"
| "run_actions mc actor event index (action # acts) w =
     (case runAction mc actor action event w of
        (Some e, w1) \<Rightarrow> ([\<lparr>ar_index = index, ar_type = action_type action, ar_error = Some e\<rparr>], w1)
      | (None, w1) \<Rightarrow>
          (let (rs, w2) = run_actions mc actor event (Suc index) acts w1
           in (\<lparr>ar_index = index, ar_type = action_type action, ar_error = None\<rparr> # rs, w2)))"

text \<open>The owner of the rule, with the role of the live membership; its individual grants are not passed.\<close>

definition rule_actor :: "AutomationRule \<Rightarrow> OrgMembership \<Rightarrow> TriggerEvent \<Rightarrow> nat \<Rightarrow> WorkActor" where
  "rule_actor ru m event nextDepth =
     \<lparr>subject = \<lparr>sub_orgId = om_orgId m, sub_userId = ru_createdBy ru, sub_role = om_role m,
         sub_tuples = om_tuples m, sub_memberGrants = None\<rparr>,
      requestId = te_id event, causationDepth = Some nextDepth\<rparr>"

text \<open>\<open>resolveMembership\<close> may throw, which \<open>execute\<close> does not catch.\<close>

definition execute ::
  "machine \<Rightarrow> AutomationRule \<Rightarrow> TriggerEvent \<Rightarrow> nat \<Rightarrow> world \<Rightarrow> (AppError, ActionResult list) result \<times> world" where
  "execute mc ru event nextDepth w =
     (case resolveOrgMembership (ru_createdBy ru) (ru_orgId ru) (now_of mc w) (w_tenancy w) of
        Inl e \<Rightarrow> (Throw e, w)
      | Inr None \<Rightarrow>
          (Return (map (\<lambda>(i, a). \<lparr>ar_index = i, ar_type = action_type a, ar_error = Some no_member\<rparr>)
             (List.enumerate 0 (ru_actions ru))), w)
      | Inr (Some m) \<Rightarrow>
          (let (rs, w1) = run_actions mc (rule_actor ru m event nextDepth) event 0 (ru_actions ru) w
           in (Return rs, w1)))"

section \<open>Deciding\<close>

text \<open>The row of a condition: the fields of a connector event, or the card read again.\<close>

definition card_row :: "machine \<Rightarrow> CardRow \<Rightarrow> EvaluableRow" where
  "card_row mc c =
     (let text = (\<lambda>v. case v of None \<Rightarrow> RNull | Some s \<Rightarrow> RString s);
          date = (\<lambda>v. case v of None \<Rightarrow> RNull | Some t \<Rightarrow> RDate (Some t) (mc_dateText mc t)) in
      (mc_columns mc c)(
        ''title'' := RString (c_title c), ''description'' := text (c_descriptionText c),
        ''list'' := RString (c_listId c), ''status'' := text (c_statusId c), ''priority'' := text (c_priority c),
        ''board'' := RString (c_boardId c), ''project'' := RString (c_projectId c),
        ''number'' := RNumber (normalise (c_number c) 0), ''assignee'' := RArray (map RString (c_assigneeIds c)),
        ''creator'' := RString (c_createdBy c), ''due'' := date (c_dueDate c), ''start'' := date (c_startDate c),
        ''updated'' := date (Some (c_updatedAt c)), ''archived'' := RBool (c_archivedAt c \<noteq> None)))"

definition evaluableRowFor :: "machine \<Rightarrow> Resource \<Rightarrow> TriggerEvent \<Rightarrow> world \<Rightarrow> EvaluableRow option" where
  "evaluableRowFor mc resource event w =
     (if resource = Connector then
        (case (json_field ''providerEvent'' (te_payload event), json_field ''providerScope'' (te_payload event)) of
           (Some (JStr e), Some (JStr s)) \<Rightarrow>
             Some ((\<lambda>_. RUndefined)(''provider_event'' := RString e, ''provider_scope'' := RString s))
         | _ \<Rightarrow> None)
      else
        (case json_field ''cardId'' (te_payload event) of
           Some (JStr cardId) \<Rightarrow>
             map_option (card_row mc)
               (find (\<lambda>c. c_orgId c = te_orgId event \<and> c_id c = cardId) (cards (work (w_tenancy w))))
         | _ \<Rightarrow> None))"

definition outcome_of :: "AutomationRule \<Rightarrow> TriggerEvent \<Rightarrow> RunStatus \<Rightarrow> RunReason option \<Rightarrow> ActionResult list \<Rightarrow> RunOutcome" where
  "outcome_of ru event status reason results =
     \<lparr>ro_automationId = ru_id ru, ro_status = status, ro_reason = reason, ro_actionResults = results,
      ro_depth = te_causationDepth event\<rparr>"

text \<open>The condition: a reason not to go on, or none. A symbolic date out of range throws.\<close>

definition condition_verdict ::
  "machine \<Rightarrow> AutomationRule \<Rightarrow> TriggerEvent \<Rightarrow> world \<Rightarrow> (date_error, (RunStatus \<times> RunReason) option) result" where
  "condition_verdict mc ru event w =
     (case ru_condition ru of
        None \<Rightarrow> Return None
      | Some node \<Rightarrow>
          (let resource = resourceForTrigger (te_name event) in
           case evaluableRowFor mc resource event w of
             None \<Rightarrow> Return (Some (Refused, Trigger_Not_Evaluable))
           | Some row \<Rightarrow>
               bind_result (evaluate (mc_date mc) (now_of mc w) resource node row
                   \<lparr>ev_viewerId = None, ev_now = None\<rparr>) (\<lambda>met.
               Return (if met then None else Some (Skipped, Condition_Not_Met)))))"

definition act ::
  "machine \<Rightarrow> AutomationRule \<Rightarrow> TriggerEvent \<Rightarrow> world \<Rightarrow> RunOutcome \<times> world" where
  "act mc ru event w =
     (case execute mc ru event (te_causationDepth event + 1) w of
        (Inr rs, w1) \<Rightarrow>
          (outcome_of ru event (if list_ex (\<lambda>r. ar_error r \<noteq> None) rs then Failed else Succeeded) None rs, w1)
      | (Inl e, w1) \<Rightarrow>
          (outcome_of ru event Failed None
             [\<lparr>ar_index = 0, ar_type = (case ru_actions ru of [] \<Rightarrow> ''unknown'' | a # _ \<Rightarrow> action_type a),
               ar_error = Some (Act_App e)\<rparr>], w1))"

definition runOne ::
  "machine \<Rightarrow> AutomationRule \<Rightarrow> TriggerEvent \<Rightarrow> world \<Rightarrow> (date_error, RunOutcome) result \<times> world" where
  "runOne mc ru event w =
     (case checkLoopProtection ru (te_causationDepth event) of
        Some reason \<Rightarrow> (Return (outcome_of ru event Refused (Some reason) []), w)
      | None \<Rightarrow>
          (case condition_verdict mc ru event w of
             Inl e \<Rightarrow> (Throw e, w)
           | Inr (Some (status, reason)) \<Rightarrow> (Return (outcome_of ru event status (Some reason) []), w)
           | Inr None \<Rightarrow>
               (case consumeAutomationBudget (ru_orgId ru) HOURLY_EXECUTION_BUDGET (now_of mc w) w of
                  (False, w1) \<Rightarrow> (Return (outcome_of ru event Refused (Some Budget_Exhausted) []), w1)
                | (True, w1) \<Rightarrow> (let (outcome, w2) = act mc ru event w1 in (Return outcome, w2)))))"

section \<open>Processing events\<close>

definition safeRecord :: "TriggerEvent \<Rightarrow> RunOutcome \<Rightarrow> world \<Rightarrow> world" where
  "safeRecord event outcome w = recordRun (te_orgId event) (te_id event) (te_name event) outcome w"

text \<open>The rules of one event; the number that executed, unless an error of \<open>evaluate\<close> ends the loop.\<close>

fun process_rules ::
  "machine \<Rightarrow> TriggerEvent \<Rightarrow> loaded_rule list \<Rightarrow> world \<Rightarrow> (date_error, nat) result \<times> world" where
  "process_rules mc event [] w = (Return 0, w)"
| "process_rules mc event (UnusableRule i name # rules) w =
     process_rules mc event rules (safeRecord event
       \<lparr>ro_automationId = i, ro_status = Refused, ro_reason = Some Condition_Unusable, ro_actionResults = [],
        ro_depth = te_causationDepth event\<rparr> w)"
| "process_rules mc event (Usable ru # rules) w =
     (case runOne mc ru event w of
        (Inl e, w1) \<Rightarrow> (Throw e, w1)
      | (Inr outcome, w1) \<Rightarrow>
          (let (r, w2) = process_rules mc event rules (safeRecord event outcome w1)
           in (bind_result r (\<lambda>n. Return (n + (if ro_status outcome \<in> {Succeeded, Failed} then 1 else 0))), w2)))"

text \<open>\<open>considered\<close> and \<open>executed\<close>.\<close>

definition processEvent ::
  "machine \<Rightarrow> TriggerEvent \<Rightarrow> world \<Rightarrow> (date_error, nat \<times> nat) result \<times> world" where
  "processEvent mc event w =
     (if \<not> orgIsActive (te_orgId event) w then (Return (0, 0), w)
      else
        (let rules = loadRulesFor (mc_date mc) (te_orgId event) (te_name event) w;
             (r, w1) = process_rules mc event rules w
         in (bind_result r (\<lambda>n. Return (length rules, n)), w1)))"

definition AUTOMATION_CONSUMER :: string where "AUTOMATION_CONSUMER = ''automation''"

definition toTriggerEvent :: "OutboxRow \<Rightarrow> TriggerEvent option" where
  "toTriggerEvent row =
     (if (case ob_payload row of JObj _ \<Rightarrow> True | JArr _ \<Rightarrow> True | _ \<Rightarrow> False)
      then Some \<lparr>te_id = ob_id row, te_orgId = ob_orgId row, te_name = ob_name row,
        te_payload = ob_payload row, te_causationDepth = ob_causationDepth row\<rparr>
      else None)"

fun process_batch :: "machine \<Rightarrow> OutboxRow list \<Rightarrow> world \<Rightarrow> (date_error, nat) result \<times> world" where
  "process_batch mc [] w = (Return 0, w)"
| "process_batch mc (row # rows) w =
     (case toTriggerEvent row of
        None \<Rightarrow> process_batch mc rows w
      | Some event \<Rightarrow>
          (case processEvent mc event w of
             (Inl e, w1) \<Rightarrow> (Throw e, w1)
           | (Inr (_, n), w1) \<Rightarrow>
               (let (r, w2) = process_batch mc rows w1 in (bind_result r (\<lambda>m. Return (n + m)), w2))))"

definition automation_queue :: "world \<Rightarrow> queue" where
  "automation_queue w = \<lparr>q_rows = events (w_tenancy w), q_dispatch = w_dispatch w\<rparr>"

text \<open>
  One batch. The claim transaction holds the marks only; the services committed their own, so an error
  leaves what they did and takes back the marks.
\<close>

definition drainAutomations ::
  "machine \<Rightarrow> nat \<Rightarrow> world \<Rightarrow> (date_error, nat \<times> nat) result \<times> world" where
  "drainAutomations mc limit w =
     (let claimed = claimPending AUTOMATION_CONSUMER limit (automation_queue w) in
      if claimed = [] then (Return (0, 0), w)
      else
        (case process_batch mc claimed w of
           (Inl e, w1) \<Rightarrow> (Throw e, w1)
         | (Inr n, w1) \<Rightarrow>
             (Return (length claimed, n),
              w1\<lparr>w_dispatch := q_dispatch (markDispatched AUTOMATION_CONSUMER (map ob_id claimed) (now_of mc w1)
                                  (automation_queue w1))\<rparr>)))"

fun drainAutomationsFully ::
  "machine \<Rightarrow> nat \<Rightarrow> nat \<Rightarrow> world \<Rightarrow> (date_error, nat \<times> nat) result \<times> world" where
  "drainAutomationsFully mc batchSize 0 w = (Return (0, 0), w)"
| "drainAutomationsFully mc batchSize (Suc batches) w =
     (case drainAutomations mc batchSize w of
        (Inl e, w1) \<Rightarrow> (Throw e, w1)
      | (Inr (n, k), w1) \<Rightarrow>
          if n < batchSize then (Return (n, k), w1)
          else (let (r, w2) = drainAutomationsFully mc batchSize batches w1
                in (bind_result r (\<lambda>(m, l). Return (n + m, k + l)), w2)))"

text \<open>A tick of \<open>startAutomationEngine\<close>, when none is running: an error is logged.\<close>

definition engine_tick :: "machine \<Rightarrow> world \<Rightarrow> world" where
  "engine_tick mc w = snd (drainAutomationsFully mc 50 20 w)"

end
