(* ===== verification/Automation_Emits.thy ===== *)
theory Automation_Emits
  imports Automation Work_Correct
begin

text \<open>
  What an action leaves in the outbox: a work service appends events in the envelope of its actor, so their
  rows carry the depth the engine gave it. From there, rule by rule and row by row, what a drain appends.
\<close>

section \<open>The work services\<close>

definition emits :: "WorkActor \<Rightarrow> database \<Rightarrow> database \<Rightarrow> bool" where
  "emits actor db db' \<longleftrightarrow> (\<exists>es. outbox db' = outbox db @ es \<and> (\<forall>e \<in> set es. ev_envelope e = envelopeOf actor))"

lemma emits_refl [simp]: "emits actor db db" by (simp add: emits_def)

lemma emits_events:
  "outbox db1 = outbox db \<Longrightarrow> (\<And>e. e \<in> set es \<Longrightarrow> ev_envelope e = envelopeOf actor) \<Longrightarrow>
   emits actor db (append_events es db1)"
  by (simp add: emits_def append_events_def)

lemma envelope_created [simp]: "ev_envelope (createEvent p c) = c" by (simp add: createEvent_def)

lemma outbox_update_card_keys: "update_card_keys c f db = Inr db1 \<Longrightarrow> outbox db1 = outbox db"
  by (auto simp: update_card_keys_def split: if_splits)

lemma outbox_insert_card: "insert_card c db = Inr db1 \<Longrightarrow> outbox db1 = outbox db"
  by (auto simp: insert_card_Inr)

lemma moveCard_emits: "moveCard actor i l before after now db = Inr (m, db') \<Longrightarrow> emits actor db db'"
proof -
  assume "moveCard actor i l before after now db = Inr (m, db')"
  from moveCard_Inr [OF this] obtain c target n db1 db2 where
    pl: "place (orgOf actor) l i before after db = Inr (mv_rank m, n, db1)" and
    up: "update_card_keys c (\<lambda>d. d\<lparr>c_listId := l, c_boardId := l_boardId target,
        c_projectId := c_projectId c, c_rank := mv_rank m, c_updatedAt := now\<rparr>) db1 = Inr db2" and
    db': "db' = append_events (moved_events actor c target (mv_rank m) n) db2"
    by blast
  show ?thesis unfolding db'
    using place_confined [OF pl] outbox_update_card_keys [OF up]
    by (intro emits_events) (auto simp: moved_events_def split: option.splits)
qed

lemma createCard_emits: "createCard actor l title desc i now db = Inr (x, db') \<Longrightarrow> emits actor db db'"
  by (auto simp: createCard_def Let_def dest!: next_number_confined outbox_insert_card intro!: emits_events)

lemma updateCard_emits:
  "updateCard actor i v title desc due start prio now db = Inr (n, db') \<Longrightarrow> emits actor db db'"
  by (auto simp: updateCard_def Let_def split: if_splits intro!: emits_events)

lemma setCardStatus_emits: "setCardStatus actor i st now db = Inr (s, db') \<Longrightarrow> emits actor db db'"
  by (auto simp: setCardStatus_def split: if_splits dest!: outbox_update_card_keys intro!: emits_events)

lemma assignCard_emits: "assignCard actor i ids now db = Inr (as, db') \<Longrightarrow> emits actor db db'"
  by (auto simp: assignCard_def Let_def split: if_splits intro!: emits_events)

lemma bulk_emits: "bulkReassignCards actor from to now db = Inr (x, db') \<Longrightarrow> emits actor db db'"
  by (auto simp: bulkReassignCards_def Let_def split: if_splits prod.splits
      dest!: reassign_loop_confined intro!: emits_events)

lemma done_work_Inr: "done_work r = Inr db \<longleftrightarrow> (\<exists>x. r = Inr (x, db))"
  by (cases r) (auto simp: done_work_def)

section \<open>One action\<close>

text \<open>The actions whose events keep the depth: those of the work services, and types no branch names.\<close>

definition depth_dropping :: "string list" where
  "depth_dropping =
    [''call_webhook'', ''docs.grant_space_access'', ''member_grant.revoke_all'',
     ''member_grant.apply_role_defaults''] @ OTHER_SERVICES"

text \<open>Nothing but new outbox rows of a given depth, as far as a drain can tell.\<close>

definition grows :: "nat \<Rightarrow> world \<Rightarrow> world \<Rightarrow> bool" where
  "grows d w w' \<longleftrightarrow> w_rules w' = w_rules w \<and> w_dispatch w' = w_dispatch w \<and>
     (\<exists>rows. events (w_tenancy w') = events (w_tenancy w) @ rows \<and> (\<forall>r \<in> set rows. ob_causationDepth r = d))"

lemma grows_refl [simp]: "grows d w w" by (simp add: grows_def)

lemma grows_trans: "grows d w w1 \<Longrightarrow> grows d w1 w2 \<Longrightarrow> grows d w w2"
  by (auto simp: grows_def)

lemma events_publish:
  "events (publish drawn db db1 t) = events t @ map2 (\<lambda>k row. row\<lparr>ob_id := fst drawn k\<rparr>)
     [0..<length (drop (length (outbox db)) (outbox db1))]
     (map (outbox_row (snd drawn)) (drop (length (outbox db)) (outbox db1)))"
  by (simp add: publish_def append_rows_def)

lemma run_work_grows:
  assumes "\<And>i now db db'. service i now db = Inr db' \<Longrightarrow> emits actor db db'" "causationDepth actor = Some d"
  shows "grows d w (snd (run_work mc service w))"
proof (cases "service (fresh mc w 0) (now_of mc w) (work_view (w_tenancy w))")
  case (Inr db1)
  from assms(1) [OF this] obtain es where es: "outbox db1 = outbox (work_view (w_tenancy w)) @ es"
    "\<And>e. e \<in> set es \<Longrightarrow> ev_envelope e = envelopeOf actor"
    by (auto simp: emits_def)
  have "ob_causationDepth r = d" if "(k, r) \<in> set (zip ks (map (outbox_row now) es))" for k r ks now
  proof -
    from that obtain e where "e \<in> set es" "r = outbox_row now e" by (auto dest!: set_zip_rightD)
    then show ?thesis using es(2) assms(2) by (simp add: outbox_row_def envelopeOf_def)
  qed
  then show ?thesis using es(1) by (auto simp: run_work_def Let_def Inr grows_def events_publish)
qed (simp add: run_work_def Let_def)

lemma named_in_cases: "named_in key event k w = r \<Longrightarrow> snd r = w \<or> (\<exists>s. r = k s w)"
  by (auto simp: named_in_def split: option.splits json.splits)

lemma named_in_grows: "(\<And>s. grows d w (snd (k s w))) \<Longrightarrow> grows d w (snd (named_in key event k w))"
  by (auto simp: named_in_def split: option.splits json.splits)

lemma given_text_grows: "(\<And>s. grows d w (snd (k s w))) \<Longrightarrow> grows d w (snd (given_text key action k w))"
  by (auto simp: given_text_def split: option.splits json.splits)

lemma set_priority_emits: "set_priority mc actor i p now db = Inr db' \<Longrightarrow> emits actor db db'"
  by (auto simp: set_priority_def done_work_Inr split: sum.splits dest!: updateCard_emits)

lemma assign_one_emits: "assign_one actor i u now db = Inr db' \<Longrightarrow> emits actor db db'"
  by (auto simp: assign_one_def done_work_Inr split: sum.splits if_splits dest!: assignCard_emits)

lemma unassign_one_emits: "unassign_one actor i u now db = Inr db' \<Longrightarrow> emits actor db db'"
  by (auto simp: unassign_one_def done_work_Inr split: sum.splits if_splits dest!: assignCard_emits)

lemma runAction_grows:
  assumes "action_type action \<notin> set depth_dropping" "causationDepth actor = Some d"
  shows "grows d w (snd (runAction mc actor action event w))"
proof -
  note work = run_work_grows [OF _ assms(2)]
  show ?thesis using assms(1) unfolding runAction_def Let_def
    by (auto simp: depth_dropping_def OTHER_SERVICES_def done_work_Inr intro!: named_in_grows given_text_grows work
        dest: moveCard_emits setCardStatus_emits set_priority_emits assign_one_emits unassign_one_emits
          bulk_emits createCard_emits)
qed

lemma run_actions_grows:
  "list_all (\<lambda>a. action_type a \<notin> set depth_dropping) acts \<Longrightarrow> causationDepth actor = Some d \<Longrightarrow>
   grows d w (snd (run_actions mc actor event n acts w))"
proof (induction acts arbitrary: n w)
  case (Cons a acts)
  then have "grows d w (snd (runAction mc actor a event w))" by (simp add: runAction_grows)
  moreover have "grows d w1 (snd (run_actions mc actor event (Suc n) acts w1))" for w1
    using Cons by simp
  ultimately show ?case
    by (auto split: prod.splits option.splits intro: grows_trans) (metis grows_trans snd_conv)
qed simp


section \<open>A rule, an event, a batch\<close>

text \<open>The actions of a rule keep the depth, and its condition never throws.\<close>

definition keeps_depth :: "machine \<Rightarrow> AutomationRule \<Rightarrow> bool" where
  "keeps_depth mc ru \<longleftrightarrow>
     (\<forall>a \<in> set (ru_actions ru). action_type a \<notin> set depth_dropping) \<and>
     (\<forall>event w. \<exists>v. condition_verdict mc ru event w = Inr v)"

lemma execute_grows:
  assumes "keeps_depth mc ru" "execute mc ru event d w = (r, w')"
  shows "grows d w w'"
proof -
  have "grows d w w1" if "run_actions mc (rule_actor ru m event d) event 0 (ru_actions ru) w = (rs, w1)" for m rs w1
    using run_actions_grows [of "ru_actions ru" "rule_actor ru m event d" d w mc event 0] assms(1) that
    by (auto simp: keeps_depth_def list_all_iff rule_actor_def)
  then show ?thesis using assms(2)
    by (auto simp: execute_def split: sum.splits option.splits prod.splits)
qed

lemma act_grows: "keeps_depth mc ru \<Longrightarrow> act mc ru event w = (r, w') \<Longrightarrow> grows (Suc (te_causationDepth event)) w w'"
  by (auto simp: act_def split: sum.splits prod.splits dest: execute_grows)

lemma budget_same:
  assumes "consumeAutomationBudget orgId limit now w = (b, w')"
  shows "w_rules w' = w_rules w" "w_dispatch w' = w_dispatch w" "w_tenancy w' = w_tenancy w"
    "w_runs w' = w_runs w" "w_draws w' = w_draws w"
  using assms by (auto simp: consumeAutomationBudget_def Let_def split: option.splits if_splits)

text \<open>A rule may append rows one deeper than its event, and none when the event is as deep as the cap.\<close>

definition spawns :: "nat list \<Rightarrow> world \<Rightarrow> world \<Rightarrow> bool" where
  "spawns ds w w' \<longleftrightarrow> w_rules w' = w_rules w \<and> w_dispatch w' = w_dispatch w \<and>
     (\<exists>rows. events (w_tenancy w') = events (w_tenancy w) @ rows \<and>
        (\<forall>r \<in> set rows. \<exists>d \<in> set ds. d < MAX_HOPS \<and> ob_causationDepth r = Suc d))"

lemma spawns_refl [simp]: "spawns ds w w" by (simp add: spawns_def)

lemma spawns_trans: "spawns ds w w1 \<Longrightarrow> spawns ds w1 w2 \<Longrightarrow> spawns ds w w2"
  unfolding spawns_def by force

lemma spawns_mono: "spawns ds w w' \<Longrightarrow> set ds \<subseteq> set ds' \<Longrightarrow> spawns ds' w w'"
  unfolding spawns_def by blast

lemma spawns_recordRun [simp]:
  "spawns ds w (safeRecord event outcome w') \<longleftrightarrow> spawns ds w w'"
  "spawns ds (safeRecord event outcome w) w' \<longleftrightarrow> spawns ds w w'"
  by (simp_all add: spawns_def safeRecord_def recordRun_def)

lemma runOne_spawns:
  assumes "keeps_depth mc ru" "runOne mc ru event w = (r, w')"
  shows "spawns [te_causationDepth event] w w' \<and> (\<exists>out. r = Inr out)"
proof (cases "checkLoopProtection ru (te_causationDepth event)")
  case (Some reason)
  then show ?thesis using assms(2) by (auto simp: runOne_def)
next
  case None
  then have low: "te_causationDepth event < MAX_HOPS"
    by (auto simp: checkLoopProtection_def checkDepth_def split: if_splits option.splits)
  obtain v where v: "condition_verdict mc ru event w = Inr v" using assms(1) unfolding keeps_depth_def by blast
  obtain b w1 where b: "consumeAutomationBudget (ru_orgId ru) HOURLY_EXECUTION_BUDGET (now_of mc w) w = (b, w1)"
    by (cases "consumeAutomationBudget (ru_orgId ru) HOURLY_EXECUTION_BUDGET (now_of mc w) w")
  note same = budget_same [OF b]
  have "spawns [te_causationDepth event] w w2" if "act mc ru event w1 = (out, w2)" for out w2
    using act_grows [OF assms(1) that] low same by (auto simp: grows_def spawns_def)
  moreover have "spawns [te_causationDepth event] w w1" using same by (simp add: spawns_def)
  ultimately show ?thesis using assms(2) None v b
    by (auto simp: runOne_def split: option.splits bool.splits prod.splits)
qed

lemma process_rules_spawns:
  "\<forall>r \<in> set rules. \<forall>ru. r = Usable ru \<longrightarrow> keeps_depth mc ru \<Longrightarrow>
   process_rules mc event rules w = (r, w') \<Longrightarrow>
   spawns [te_causationDepth event] w w' \<and> (\<exists>n. r = Inr n)"
proof (induction mc event rules w arbitrary: r w' rule: process_rules.induct)
  case (3 mc event ru rules w)
  obtain out w1 where one: "runOne mc ru event w = (Inr out, w1)" "spawns [te_causationDepth event] w w1"
    using runOne_spawns [of mc ru event w] 3(2) by (cases "runOne mc ru event w") auto
  obtain r2 w2 where rest: "process_rules mc event rules (safeRecord event out w1) = (r2, w2)"
    by (cases "process_rules mc event rules (safeRecord event out w1)")
  have "spawns [te_causationDepth event] (safeRecord event out w1) w2 \<and> (\<exists>n. r2 = Inr n)"
    using 3(1) [OF one(1) [symmetric] refl _ rest] 3(2) by simp
  then show ?case using 3(3) one rest by (auto intro: spawns_trans)
next
  case (2 mc event i name rules w)
  then show ?case by auto
qed auto

end
