(* ===== verification/Automation_Cascade.thy ===== *)
theory Automation_Cascade
  imports Automation_Emits "HOL-Library.Multiset_Order"
begin

text \<open>
  The causation depth ends a cascade: when every rule keeps the depth, each drain replaces some waiting rows
  by rows nearer to the cap, which the multiset order on the distances to the cap makes finite.
\<close>

definition all_keep_depth :: "machine \<Rightarrow> AutomationRow list \<Rightarrow> bool" where
  "all_keep_depth mc rules \<longleftrightarrow>
     (\<forall>row \<in> set rules. \<forall>ru. load_rule (mc_date mc) row = Usable ru \<longrightarrow> keeps_depth mc ru)"

lemma processEvent_spawns:
  assumes "all_keep_depth mc (w_rules w)" "processEvent mc event w = (r, w')"
  shows "spawns [te_causationDepth event] w w' \<and> (\<exists>n. r = Inr n)"
proof -
  have "\<forall>x \<in> set (loadRulesFor (mc_date mc) orgId name w). \<forall>ru. x = Usable ru \<longrightarrow> keeps_depth mc ru" for orgId name
    using assms(1) by (auto simp: loadRulesFor_def all_keep_depth_def)
  note process_rules_spawns [OF this]
  then show ?thesis using assms(2)
    by (auto simp: processEvent_def Let_def split: if_splits prod.splits)
qed

lemma toTriggerEvent_depth: "toTriggerEvent row = Some event \<Longrightarrow> te_causationDepth event = ob_causationDepth row"
  by (auto simp: toTriggerEvent_def split: if_splits)

lemma process_batch_spawns:
  "all_keep_depth mc (w_rules w) \<Longrightarrow> process_batch mc rows w = (r, w') \<Longrightarrow>
   spawns (map ob_causationDepth rows) w w' \<and> (\<exists>n. r = Inr n)"
proof (induction rows arbitrary: w r w')
  case (Cons row rows)
  show ?case
  proof (cases "toTriggerEvent row")
    case None
    then show ?thesis using Cons.IH [OF Cons.prems(1), of r w'] Cons.prems(2)
      by (auto elim!: spawns_mono)
  next
    case (Some event)
    obtain n w1 where e: "processEvent mc event w = (Inr n, w1)" "spawns [ob_causationDepth row] w w1"
      using processEvent_spawns [OF Cons.prems(1), of event] toTriggerEvent_depth [OF Some]
      by (cases "processEvent mc event w") auto
    obtain r2 w2 where rest: "process_batch mc rows w1 = (r2, w2)" by (cases "process_batch mc rows w1")
    have "w_rules w1 = w_rules w" using e(2) by (simp add: spawns_def)
    then have "spawns (map ob_causationDepth rows) w1 w2 \<and> (\<exists>n. r2 = Inr n)"
      using Cons.IH [OF _ rest] Cons.prems(1) by simp
    then have "spawns (map ob_causationDepth (row # rows)) w w2 \<and> (\<exists>n. r2 = Inr n)"
      using e(2) by (auto intro!: spawns_trans [of _ w w1 w2] elim!: spawns_mono)
    then show ?thesis using Cons.prems(2) Some e(1) rest by (auto split: prod.splits)
  qed
qed auto

section \<open>The rows that wait\<close>

definition waiting :: "world \<Rightarrow> OutboxRow list" where
  "waiting w = pending AUTOMATION_CONSUMER (automation_queue w)"

definition distances :: "OutboxRow list \<Rightarrow> nat multiset" where
  "distances rows = mset (map (\<lambda>r. MAX_HOPS - ob_causationDepth r) rows)"

lemma mset_pending: "mset (pending consumer q) = filter_mset (undispatched consumer q) (mset (q_rows q))"
  by (simp add: pending_def oldest_first_def mset_filter)

lemma undispatched_cong: "q_dispatch q' = q_dispatch q \<Longrightarrow> undispatched consumer q' = undispatched consumer q"
  by (rule ext) (simp add: undispatched_def)

text \<open>What waits after a drain: what waited and was not claimed, and the new rows, unless an id is reused.\<close>

lemma waiting_marked:
  assumes "events (w_tenancy w1) = events (w_tenancy w) @ new" "w_dispatch w1 = w_dispatch w"
    and "w' = w1\<lparr>w_dispatch := q_dispatch (markDispatched AUTOMATION_CONSUMER
           (map ob_id (take limit (waiting w))) now (automation_queue w1))\<rparr>"
  shows "mset (waiting w') =
    filter_mset (\<lambda>r. ob_id r \<notin> ob_id ` set (take limit (waiting w))) (mset (drop limit (waiting w))) +
    filter_mset (\<lambda>r. ob_id r \<notin> ob_id ` set (take limit (waiting w)) \<and>
      undispatched AUTOMATION_CONSUMER (automation_queue w) r) (mset new)"
proof -
  let ?ids = "set (map ob_id (take limit (waiting w)))"
  let ?new = "\<lambda>r. ob_id r \<notin> ?ids"
  let ?old = "undispatched AUTOMATION_CONSUMER (automation_queue w)"
  have und: "undispatched AUTOMATION_CONSUMER (automation_queue w') r \<longleftrightarrow> ?new r \<and> ?old r" for r
  proof -
    have "undispatched AUTOMATION_CONSUMER (automation_queue w') =
      undispatched AUTOMATION_CONSUMER (markDispatched AUTOMATION_CONSUMER
        (map ob_id (take limit (waiting w))) now (automation_queue w1))"
      by (rule undispatched_cong) (simp add: assms(3) automation_queue_def)
    moreover have "undispatched AUTOMATION_CONSUMER (automation_queue w1) = ?old"
      by (rule undispatched_cong) (simp add: assms(2) automation_queue_def)
    ultimately show ?thesis by (simp add: markDispatched_undispatched)
  qed
  have "mset (waiting w') = filter_mset (\<lambda>r. ?new r \<and> ?old r) (mset (events (w_tenancy w))) +
      filter_mset (\<lambda>r. ?new r \<and> ?old r) (mset new)"
    unfolding waiting_def mset_pending und using assms(1) by (simp add: assms(3) automation_queue_def)
  also have "filter_mset (\<lambda>r. ?new r \<and> ?old r) (mset (events (w_tenancy w))) =
      filter_mset ?new (mset (waiting w))"
    unfolding waiting_def mset_pending by (simp add: automation_queue_def filter_filter_mset conj_commute)
  also have "mset (waiting w) = mset (take limit (waiting w)) + mset (drop limit (waiting w))"
    by (metis append_take_drop_id mset_append)
  also have "filter_mset ?new (mset (take limit (waiting w)) + mset (drop limit (waiting w))) =
      filter_mset ?new (mset (drop limit (waiting w)))"
    by (auto simp: filter_mset_eq_conv)
  finally show ?thesis by simp
qed

lemma waiting_after:
  assumes "events (w_tenancy w1) = events (w_tenancy w) @ new" "w_dispatch w1 = w_dispatch w"
    and "w' = w1\<lparr>w_dispatch := q_dispatch (markDispatched AUTOMATION_CONSUMER
           (map ob_id (take limit (waiting w))) now (automation_queue w1))\<rparr>"
  shows "mset (waiting w') \<subseteq># mset (drop limit (waiting w)) + mset new"
  unfolding waiting_marked [OF assms] by (intro subset_mset.add_mono multiset_filter_subset)

lemma drain_shrinks:
  assumes keep: "all_keep_depth mc (w_rules w)" and limit: "0 < limit" and some: "waiting w \<noteq> []"
    and drain: "drainAutomations mc limit w = (r, w')"
  shows "distances (waiting w') < distances (waiting w) \<and> w_rules w' = w_rules w \<and>
    (\<exists>k. r = Inr (length (take limit (waiting w)), k))"
proof -
  let ?claimed = "take limit (waiting w)"
  have claimed: "claimPending AUTOMATION_CONSUMER limit (automation_queue w) = ?claimed" "?claimed \<noteq> []"
    using limit some by (simp_all add: claimPending_def waiting_def)
  obtain n w1 where batch: "process_batch mc ?claimed w = (Inr n, w1)"
    and sp: "spawns (map ob_causationDepth ?claimed) w w1"
    using process_batch_spawns [OF keep, of ?claimed] by (cases "process_batch mc ?claimed w") auto
  have r: "r = Inr (length ?claimed, n)" and w': "w' = w1\<lparr>w_dispatch := q_dispatch
      (markDispatched AUTOMATION_CONSUMER (map ob_id ?claimed) (now_of mc w1) (automation_queue w1))\<rparr>"
    using drain claimed batch by (auto simp: drainAutomations_def)
  from sp obtain new where new: "events (w_tenancy w1) = events (w_tenancy w) @ new"
    "\<forall>x \<in> set new. \<exists>d \<in> set (map ob_causationDepth ?claimed). d < MAX_HOPS \<and> ob_causationDepth x = Suc d"
    and same: "w_rules w1 = w_rules w" "w_dispatch w1 = w_dispatch w"
    by (auto simp: spawns_def)
  let ?f = "\<lambda>r. MAX_HOPS - ob_causationDepth r"
  have "distances (waiting w') \<subseteq># distances (drop limit (waiting w)) + distances new"
    using image_mset_subseteq_mono [OF waiting_after [OF new(1) same(2) w'], of ?f]
    by (simp add: distances_def)
  moreover have "distances (drop limit (waiting w)) + distances new <
      distances (drop limit (waiting w)) + distances ?claimed"
  proof -
    have "\<exists>j \<in># distances ?claimed. k < j" if "k \<in># distances new" for k
    proof -
      from that obtain x where "x \<in> set new" "k = ?f x" by (auto simp: distances_def)
      with new(2) obtain c where "c \<in> set ?claimed" "ob_causationDepth c < MAX_HOPS"
        "ob_causationDepth x = Suc (ob_causationDepth c)" by auto
      then have "?f c \<in># distances ?claimed" "k < ?f c"
        using \<open>k = ?f x\<close> by (auto simp: distances_def)
      then show ?thesis by blast
    qed
    moreover have "distances ?claimed \<noteq> {#}" using claimed(2) by (simp add: distances_def)
    ultimately show ?thesis
      unfolding less_multiset_def by (intro one_step_implies_multp) auto
  qed
  moreover have "distances (drop limit (waiting w)) + distances ?claimed = distances (waiting w)"
    unfolding distances_def by (metis append_take_drop_id add.commute map_append mset_append)
  ultimately have "distances (waiting w') < distances (waiting w)"
    by (metis subset_eq_imp_le_multiset order_le_less_trans)
  then show ?thesis using r w' same(1) by simp
qed

lemma drain_idle: "waiting w = [] \<Longrightarrow> drainAutomations mc limit w = (Return (0, 0), w)"
  by (simp add: drainAutomations_def claimPending_def waiting_def)

lemma drainFully_shrinks:
  "all_keep_depth mc (w_rules w) \<Longrightarrow> 0 < limit \<Longrightarrow> drainAutomationsFully mc limit batches w = (r, w') \<Longrightarrow>
   distances (waiting w') \<le> distances (waiting w) \<and> w_rules w' = w_rules w \<and> (\<exists>x. r = Inr x) \<and>
   (0 < batches \<longrightarrow> waiting w \<noteq> [] \<longrightarrow> distances (waiting w') < distances (waiting w))"
proof (induction batches arbitrary: w r w')
  case (Suc batches)
  obtain d w1 where d: "drainAutomations mc limit w = (d, w1)" by (cases "drainAutomations mc limit w")
  show ?case
  proof (cases "waiting w = []")
    case True
    then have "d = Inr (0, 0)" "w1 = w" using drain_idle [of w mc limit] d by simp_all
    moreover from this have "r = Inr (0, 0) \<and> w' = w" using Suc.prems(2,3) drain_idle [OF True] by simp
    ultimately show ?thesis using True by simp
  next
    case False
    obtain k where less: "distances (waiting w1) < distances (waiting w)" and rules: "w_rules w1 = w_rules w"
      and k: "d = Inr (length (take limit (waiting w)), k)"
      using drain_shrinks [OF Suc.prems(1,2) False d] by blast
    obtain r2 w2 where rest: "drainAutomationsFully mc limit batches w1 = (r2, w2)"
      by (cases "drainAutomationsFully mc limit batches w1")
    have "distances (waiting w2) \<le> distances (waiting w1) \<and> w_rules w2 = w_rules w1 \<and> (\<exists>x. r2 = Inr x)"
      using Suc.IH [OF _ Suc.prems(2) rest] Suc.prems(1) rules by simp
    then show ?thesis using Suc.prems(3) d k rest less rules
      by (auto split: if_splits prod.splits)
  qed
qed auto

lemma ticks_end:
  "all_keep_depth mc (w_rules w) \<Longrightarrow> \<exists>n. waiting ((engine_tick mc ^^ n) w) = []"
proof (induction "distances (waiting w)" arbitrary: w rule: less_induct)
  case less
  show ?case
  proof (cases "waiting w = []")
    case True
    then have "waiting ((engine_tick mc ^^ 0) w) = []" by simp
    then show ?thesis by blast
  next
    case False
    have "distances (waiting (engine_tick mc w)) < distances (waiting w) \<and>
        w_rules (engine_tick mc w) = w_rules w"
      using drainFully_shrinks [OF less.prems, of 50 20] False
      unfolding engine_tick_def by (metis prod.collapse zero_less_numeral)
    then obtain n where "waiting ((engine_tick mc ^^ n) (engine_tick mc w)) = []"
      using less.hyps [of "engine_tick mc w"] less.prems by auto
    then have "waiting ((engine_tick mc ^^ Suc n) w) = []" by (simp only: funpow_Suc_right o_apply)
    then show ?thesis by blast
  qed
qed

end
