(* ===== verification/Automation_Runs.thy ===== *)
theory Automation_Runs
  imports Automation_Cascade
begin

text \<open>
  What the engine records and what an executor reports: one run per rule in the order of the rules, the
  results of the actions up to the first that fails, and the hourly budget no organization passes.
\<close>

section \<open>What an action cannot reach\<close>

text \<open>The services whose modules are not modelled leave the tables of the engine alone.\<close>

definition quiet_services :: "machine \<Rightarrow> bool" where
  "quiet_services mc \<longleftrightarrow> (\<forall>actor action event w. let w' = snd (mc_services mc actor action event w) in
     w_runs w' = w_runs w \<and> w_budget w' = w_budget w \<and> w_rules w' = w_rules w \<and> w_dispatch w' = w_dispatch w)"

definition engine_same :: "world \<Rightarrow> world \<Rightarrow> bool" where
  "engine_same w w' \<longleftrightarrow> w_runs w' = w_runs w \<and> w_budget w' = w_budget w \<and> w_rules w' = w_rules w \<and>
     w_dispatch w' = w_dispatch w"

lemma engine_same_refl [simp]: "engine_same w w" by (simp add: engine_same_def)

lemma engine_same_trans: "engine_same w w1 \<Longrightarrow> engine_same w1 w2 \<Longrightarrow> engine_same w w2"
  by (simp add: engine_same_def)

lemma run_work_same: "engine_same w (snd (run_work mc service w))"
  by (auto simp: run_work_def Let_def engine_same_def split: sum.splits)

lemma run_tenancy_same: "engine_same w (snd (run_tenancy mc service w))"
  by (auto simp: run_tenancy_def engine_same_def split: sum.splits)

lemma named_in_same: "(\<And>s. engine_same w (snd (k s w))) \<Longrightarrow> engine_same w (snd (named_in key event k w))"
  by (auto simp: named_in_def split: option.splits json.splits)

lemma given_text_same: "(\<And>s. engine_same w (snd (k s w))) \<Longrightarrow> engine_same w (snd (given_text key action k w))"
  by (auto simp: given_text_def split: option.splits json.splits)

lemma may_manage_same: "engine_same w (snd (k w)) \<Longrightarrow> engine_same w (snd (may_manage_members actor m k w))"
  by (simp add: may_manage_members_def)

lemma grant_each_same: "engine_same w (snd (grant_each mc actor u ps w))"
proof (induction ps arbitrary: w)
  case (Cons p ps)
  have "engine_same w w1" if "run_tenancy mc (grant_member (orgOf actor) u p (actor_of actor)) w = (r, w1)" for r w1
    using run_tenancy_same [of w mc "grant_member (orgOf actor) u p (actor_of actor)"] that by simp
  then show ?case using Cons by (auto split: prod.splits option.splits intro: engine_same_trans)
qed simp

lemma apply_defaults_same: "engine_same w (snd (apply_role_defaults mc actor u w))"
  by (auto simp: apply_role_defaults_def grant_each_same split: sum.splits option.splits)

lemma webhook_same: "engine_same w (snd (enqueueWebhookDelivery mc actor i event w))"
  by (auto simp: enqueueWebhookDelivery_def Let_def engine_same_def split: option.splits)

lemma services_same: "quiet_services mc \<Longrightarrow> engine_same w (snd (mc_services mc actor action event w))"
  by (simp add: quiet_services_def engine_same_def Let_def)

lemma runAction_same: "quiet_services mc \<Longrightarrow> engine_same w (snd (runAction mc actor action event w))"
  unfolding runAction_def Let_def
  by (auto intro!: named_in_same given_text_same run_work_same run_tenancy_same may_manage_same
      apply_defaults_same webhook_same services_same)

lemma run_actions_same: "quiet_services mc \<Longrightarrow> engine_same w (snd (run_actions mc actor event n acts w))"
proof (induction acts arbitrary: n w)
  case (Cons a acts)
  have "engine_same w w1" if "runAction mc actor a event w = (r, w1)" for r w1
    using runAction_same [OF Cons.prems, of w actor a event] that by simp
  moreover have "engine_same w1 w2" if "run_actions mc actor event (Suc n) acts w1 = (rs, w2)" for rs w1 w2
    using Cons.IH [OF Cons.prems, of w1 "Suc n"] that by simp
  ultimately show ?case by (auto split: prod.splits option.splits intro: engine_same_trans)
qed simp

lemma execute_same:
  assumes "quiet_services mc" "execute mc ru event d w = (r, w')"
  shows "engine_same w w'"
proof -
  have "engine_same w w1" if "run_actions mc a event 0 (ru_actions ru) w = (rs, w1)" for a rs w1
    using run_actions_same [OF assms(1), of w a event 0 "ru_actions ru"] that by simp
  then show ?thesis using assms(2)
    by (auto simp: execute_def split: sum.splits option.splits prod.splits)
qed

lemma act_same: "quiet_services mc \<Longrightarrow> act mc ru event w = (out, w') \<Longrightarrow> engine_same w w'"
  by (auto simp: act_def split: sum.splits prod.splits dest: execute_same)

section \<open>The budget\<close>

definition within_budget :: "world \<Rightarrow> bool" where
  "within_budget w \<longleftrightarrow> (\<forall>key n. w_budget w key = Some n \<longrightarrow> n \<le> HOURLY_EXECUTION_BUDGET)"

lemma consume_within:
  "within_budget w \<Longrightarrow> consumeAutomationBudget orgId HOURLY_EXECUTION_BUDGET now w = (b, w') \<Longrightarrow> within_budget w'"
  by (auto simp: within_budget_def consumeAutomationBudget_def Let_def HOURLY_EXECUTION_BUDGET_def
      split: option.splits if_splits)

lemma within_fields [simp]:
  "within_budget (w\<lparr>w_runs := rs\<rparr>) = within_budget w" "within_budget (w\<lparr>w_dispatch := d\<rparr>) = within_budget w"
  by (simp_all add: within_budget_def)

text \<open>A law of the world that spending, recording, marking and the actions keep is kept by the engine.\<close>

locale engine_invariant =
  fixes P :: "world \<Rightarrow> bool"
  assumes spend: "P w \<Longrightarrow> consumeAutomationBudget orgId HOURLY_EXECUTION_BUDGET now w = (b, w') \<Longrightarrow> P w'"
    and same: "P w \<Longrightarrow> engine_same w w' \<Longrightarrow> P w'"
    and record_run: "P w \<Longrightarrow> P (safeRecord event out w)"
    and mark: "P w \<Longrightarrow> P (w\<lparr>w_dispatch := d\<rparr>)"
begin

lemma runOne_keeps:
  assumes "quiet_services mc" "P w" "runOne mc ru event w = (r, w')"
  shows "P w'"
proof -
  have "P w2" if "act mc ru event w1 = (out, w2)" "P w1" for out w1 w2
    using same [OF that(2) act_same [OF assms(1) that(1)]] .
  then show ?thesis using assms(2,3) spend [OF assms(2)]
    by (fastforce simp: runOne_def split: option.splits sum.splits prod.splits bool.splits)
qed

lemma process_rules_keeps:
  "quiet_services mc \<Longrightarrow> P w \<Longrightarrow> process_rules mc event rules w = (r, w') \<Longrightarrow> P w'"
proof (induction mc event rules w arbitrary: r w' rule: process_rules.induct)
  case (3 mc event ru rules w)
  obtain r1 w1 where one: "runOne mc ru event w = (r1, w1)" by (cases "runOne mc ru event w")
  have "P w1" using runOne_keeps [OF 3(2,3) one] .
  then show ?case using 3(1) [OF one [symmetric]] 3(2,4) one
    by (auto split: sum.splits prod.splits intro: record_run)
qed (auto intro: record_run)

lemma processEvent_keeps: "quiet_services mc \<Longrightarrow> P w \<Longrightarrow> processEvent mc event w = (r, w') \<Longrightarrow> P w'"
  by (auto simp: processEvent_def Let_def split: if_splits prod.splits dest: process_rules_keeps)

lemma process_batch_keeps: "quiet_services mc \<Longrightarrow> P w \<Longrightarrow> process_batch mc rows w = (r, w') \<Longrightarrow> P w'"
proof (induction rows arbitrary: w r w')
  case (Cons row rows)
  then show ?case
    by (auto split: option.splits sum.splits prod.splits dest: processEvent_keeps)
qed auto

lemma drain_keeps: "quiet_services mc \<Longrightarrow> P w \<Longrightarrow> drainAutomations mc limit w = (r, w') \<Longrightarrow> P w'"
  by (auto simp: drainAutomations_def Let_def split: if_splits sum.splits prod.splits
      dest: process_batch_keeps intro: mark)

lemma drainFully_keeps:
  "quiet_services mc \<Longrightarrow> P w \<Longrightarrow> drainAutomationsFully mc limit batches w = (r, w') \<Longrightarrow> P w'"
proof (induction batches arbitrary: w r w')
  case (Suc batches)
  then show ?case
    by (auto split: sum.splits prod.splits if_splits dest: drain_keeps)
qed simp

lemma tick_keeps: "quiet_services mc \<Longrightarrow> P w \<Longrightarrow> P (engine_tick mc w)"
  using drainFully_keeps [of mc w 50 20] by (simp add: engine_tick_def) (metis prod.collapse)

lemma ticks_keep: "quiet_services mc \<Longrightarrow> P w \<Longrightarrow> P ((engine_tick mc ^^ n) w)"
  by (induction n) (simp_all add: tick_keeps)

end

interpretation budget: engine_invariant within_budget
proof
  show "within_budget w \<Longrightarrow> engine_same w w' \<Longrightarrow> within_budget w'" for w w'
    by (simp add: engine_same_def within_budget_def)
qed (auto intro: consume_within simp: safeRecord_def recordRun_def)

interpretation rules: engine_invariant "\<lambda>w. w_rules w = rs" for rs
  by unfold_locales (auto simp: engine_same_def safeRecord_def recordRun_def budget_same)

section \<open>The runs\<close>

definition rule_id :: "loaded_rule \<Rightarrow> string" where
  "rule_id r = (case r of Usable ru \<Rightarrow> ru_id ru | UnusableRule i _ \<Rightarrow> i)"

lemma rule_id_simps [simp]: "rule_id (Usable ru) = ru_id ru" "rule_id (UnusableRule i name) = i"
  by (simp_all add: rule_id_def)

definition executed :: "AutomationRun \<Rightarrow> bool" where
  "executed run \<longleftrightarrow> ro_status (run_outcome run) \<in> {Succeeded, Failed}"

lemma executed_row [simp]:
  "executed \<lparr>run_orgId = i, run_eventId = e, run_triggerEvent = t, run_outcome = out\<rparr> \<longleftrightarrow>
     ro_status out \<in> {Succeeded, Failed}"
  by (simp add: executed_def)

lemma runs_recordRun [simp]:
  "w_runs (safeRecord event out w) = w_runs w @ [\<lparr>run_orgId = te_orgId event, run_eventId = te_id event,
     run_triggerEvent = te_name event, run_outcome = out\<rparr>]"
  by (simp add: safeRecord_def recordRun_def)

lemma act_rule: "act mc ru event w = (out, w') \<Longrightarrow>
    ro_automationId out = ru_id ru \<and> ro_depth out = te_causationDepth event"
  by (auto simp: act_def outcome_of_def split: sum.splits prod.splits)

lemma runOne_runs:
  assumes "quiet_services mc" "runOne mc ru event w = (Inr out, w')"
  shows "w_runs w' = w_runs w \<and> ro_automationId out = ru_id ru \<and> ro_depth out = te_causationDepth event"
proof -
  have a: "w_runs w2 = w_runs w1 \<and> ro_automationId o1 = ru_id ru \<and> ro_depth o1 = te_causationDepth event"
    if "act mc ru event w1 = (o1, w2)" for o1 w1 w2
    using act_same [OF assms(1) that] act_rule [OF that] by (simp add: engine_same_def)
  show ?thesis using assms(2) 
    by (auto simp: runOne_def outcome_of_def split: option.splits sum.splits prod.splits bool.splits
        dest!: a budget_same(4))
qed

lemma process_rules_runs:
  "quiet_services mc \<Longrightarrow> process_rules mc event rules w = (Inr n, w') \<Longrightarrow>
   \<exists>runs. w_runs w' = w_runs w @ runs \<and> map (ro_automationId \<circ> run_outcome) runs = map rule_id rules \<and>
     n = length (filter executed runs) \<and>
     (\<forall>run \<in> set runs. run_orgId run = te_orgId event \<and> run_eventId run = te_id event \<and>
        run_triggerEvent run = te_name event \<and> ro_depth (run_outcome run) = te_causationDepth event)"
proof (induction mc event rules w arbitrary: n w' rule: process_rules.induct)
  case (2 mc event i name rules w)
  then obtain runs where "w_runs w' = w_runs (safeRecord event \<lparr>ro_automationId = i, ro_status = Refused,
        ro_reason = Some Condition_Unusable, ro_actionResults = [], ro_depth = te_causationDepth event\<rparr> w) @ runs"
    "map (ro_automationId \<circ> run_outcome) runs = map rule_id rules" "n = length (filter executed runs)"
    "\<forall>run \<in> set runs. run_orgId run = te_orgId event \<and> run_eventId run = te_id event \<and>
        run_triggerEvent run = te_name event \<and> ro_depth (run_outcome run) = te_causationDepth event"
    by fastforce
  then show ?case by (auto simp: comp_def)
next
  case (3 mc event ru rules w)
  obtain out w1 where one: "runOne mc ru event w = (Inr out, w1)"
    using 3(3) by (cases "runOne mc ru event w") (auto split: sum.splits)
  obtain m where m: "process_rules mc event rules (safeRecord event out w1) = (Inr m, w')"
    "n = m + (if ro_status out \<in> {Succeeded, Failed} then 1 else 0)"
    using 3(3) one by (auto split: prod.splits)
  obtain runs where "w_runs w' = w_runs (safeRecord event out w1) @ runs"
    "map (ro_automationId \<circ> run_outcome) runs = map rule_id rules" "m = length (filter executed runs)"
    "\<forall>run \<in> set runs. run_orgId run = te_orgId event \<and> run_eventId run = te_id event \<and>
        run_triggerEvent run = te_name event \<and> ro_depth (run_outcome run) = te_causationDepth event"
    using 3(1) [OF one [symmetric] refl 3(2) m(1)] by blast
  then show ?case using runOne_runs [OF 3(2) one] m(2) by (auto simp: comp_def)
qed simp

section \<open>The results of the actions\<close>

text \<open>The world after a list of actions run one after the other, whatever they report.\<close>

definition after :: "machine \<Rightarrow> WorkActor \<Rightarrow> TriggerEvent \<Rightarrow> json list \<Rightarrow> world \<Rightarrow> world" where
  "after mc actor event acts w = fold (\<lambda>a w. snd (runAction mc actor a event w)) acts w"

definition reported :: "machine \<Rightarrow> WorkActor \<Rightarrow> TriggerEvent \<Rightarrow> json list \<Rightarrow> world \<Rightarrow> nat \<Rightarrow> action_error option" where
  "reported mc actor event acts w k = fst (runAction mc actor (acts ! k) event (after mc actor event (take k acts) w))"

lemma run_actions_spec:
  assumes "run_actions mc actor event i acts w = (rs, w')"
  shows "length rs \<le> length acts \<and> w' = after mc actor event (take (length rs) acts) w \<and>
    (\<forall>k < length rs. rs ! k = \<lparr>ar_index = i + k, ar_type = action_type (acts ! k),
       ar_error = reported mc actor event acts w k\<rparr> \<and> (Suc k < length rs \<longrightarrow> ar_error (rs ! k) = None)) \<and>
    (length rs < length acts \<longrightarrow> rs \<noteq> [] \<and> ar_error (last rs) \<noteq> None)"
  using assms
proof (induction acts arbitrary: i w rs w')
  case Nil
  then show ?case by (simp add: after_def)
next
  case (Cons a acts)
  obtain r w1 where a: "runAction mc actor a event w = (r, w1)" by (cases "runAction mc actor a event w")
  show ?case
  proof (cases r)
    case (Some e)
    then have "rs = [\<lparr>ar_index = i, ar_type = action_type a, ar_error = Some e\<rparr>]" "w' = w1"
      using Cons.prems a by auto
    then show ?thesis using a Some by (simp add: after_def reported_def)
  next
    case None
    obtain rs1 where rs1: "run_actions mc actor event (Suc i) acts w1 = (rs1, w')"
      and rs: "rs = \<lparr>ar_index = i, ar_type = action_type a, ar_error = None\<rparr> # rs1"
      using Cons.prems a None by (auto split: prod.splits)
    have rep: "reported mc actor event (a # acts) w (Suc k) = reported mc actor event acts w1 k" for k
      using a by (simp add: reported_def after_def)
    have rep0: "reported mc actor event (a # acts) w 0 = None" using a None by (simp add: reported_def after_def)
    note IH = Cons.IH [OF rs1]
    have "rs ! k = \<lparr>ar_index = i + k, ar_type = action_type ((a # acts) ! k),
       ar_error = reported mc actor event (a # acts) w k\<rparr> \<and> (Suc k < length rs \<longrightarrow> ar_error (rs ! k) = None)"
      if "k < length rs" for k
      using that IH rep rep0 by (cases k) (auto simp: rs)
    moreover have "w' = after mc actor event (take (length rs) (a # acts)) w"
      using IH a by (simp add: rs after_def)
    moreover have "length rs \<le> length (a # acts)" "length rs < length (a # acts) \<longrightarrow> rs \<noteq> [] \<and> ar_error (last rs) \<noteq> None"
      using IH by (auto simp: rs)
    ultimately show ?thesis by blast
  qed
qed

end
