(* ===== verification/Automation_Loop.thy ===== *)
theory Automation_Loop
  imports Automation_Runs Policy_Correct
begin

text \<open>
  A pair of rules the depth cap never sees: one revokes the grants of a member who is granted a permission,
  the other restores the defaults of the role when a grant is revoked. The tenancy services write their
  events without the depth, so every hop starts again at 0.
\<close>

section \<open>An organization with two rules\<close>

definition hq :: string where "hq = ''10000000-0000-4000-8000-0000000000a1''"
definition chief :: string where "chief = ''20000000-0000-4000-8000-0000000000a1''"
definition staff :: string where "staff = ''20000000-0000-4000-8000-0000000000a2''"

text \<open>The ids of draw \<open>d\<close> are different from those of every other draw.\<close>

definition hq_machine :: machine where
  "hq_machine =
     \<lparr>mc_newId = (\<lambda>d k. replicate (Suc d) (CHR ''x'') @ replicate k (CHR ''y'')), mc_clock = (\<lambda>_. 0),
      mc_date = (\<lambda>_. None), mc_protocol = (\<lambda>_. None), mc_dateText = (\<lambda>_. []), mc_columns = (\<lambda>_ _. RUndefined),
      mc_services = (\<lambda>_ _ _ w. (None, w))\<rparr>"

definition hq_members :: "MemberRow list" where
  "hq_members =
    [\<lparr>mb_id = ''m1'', mb_orgId = hq, mb_userId = chief, mb_role = ''owner'', mb_status = ''active'', mb_updatedAt = 0\<rparr>,
     \<lparr>mb_id = ''m2'', mb_orgId = hq, mb_userId = staff, mb_role = ''member'', mb_status = ''active'', mb_updatedAt = 0\<rparr>]"

definition no_work :: database where
  "no_work = \<lparr>cards = [], lists = [], boards = [], projects = [], statuses = [], memberships = [], outbox = []\<rparr>"

definition hq_tenancy :: tenancy where
  "hq_tenancy =
     \<lparr>users = [], orgs = [\<lparr>o_id = hq, o_status = ''active''\<rparr>], members = hq_members, teams = [], teamMembers = [],
      tuples = [], memberGrants = [], channels = [], calls = [], sessions = [], participants = [], events = [],
      work = no_work\<rparr>"

definition hq_world :: "tenancy \<Rightarrow> AutomationRow list \<Rightarrow> nat \<Rightarrow> world" where
  "hq_world t rules n =
     \<lparr>w_tenancy = t, w_rules = rules, w_runs = [], w_budget = (\<lambda>_. None),
      w_defaults = [\<lparr>rd_id = ''d1'', rd_orgId = hq, rd_role = ''member'', rd_permission = ''call:place''\<rparr>],
      w_webhooks = [], w_deliveries = [], w_dispatch = (\<lambda>_. None), w_draws = n\<rparr>"

definition the_chief :: WorkActor where
  "the_chief =
     \<lparr>subject = \<lparr>sub_orgId = hq, sub_userId = chief, sub_role = ''owner'', sub_tuples = [], sub_memberGrants = None\<rparr>,
      requestId = ''q1'', causationDepth = None\<rparr>"

definition plain_input :: "string \<Rightarrow> string \<Rightarrow> json \<Rightarrow> AutomationInput" where
  "plain_input name trigger action =
     \<lparr>in_name = name, in_description = None, in_triggerEvent = trigger, in_condition = None,
      in_actions = [action], in_enabled = True\<rparr>"

definition typed :: "string \<Rightarrow> json" where "typed ty = JObj [(''type'', JStr ty)]"

definition stored_row :: "string \<Rightarrow> AutomationInput \<Rightarrow> AutomationRow" where
  "stored_row i input =
     \<lparr>au_id = i, au_orgId = hq, au_name = in_name input, au_description = in_description input,
      au_triggerEvent = in_triggerEvent input, au_condition = in_condition input,
      au_actions = JArr (in_actions input), au_enabled = in_enabled input, au_createdBy = chief, au_updatedAt = 0\<rparr>"

definition revoke_input :: AutomationInput where
  "revoke_input = plain_input ''revoke'' ''member_grant.created'' (typed ''member_grant.revoke_all'')"

definition restore_input :: AutomationInput where
  "restore_input = plain_input ''restore'' ''member_grant.revoked'' (typed ''member_grant.apply_role_defaults'')"

definition loop_rules :: "AutomationRow list" where
  "loop_rules = [stored_row ''a1'' revoke_input, stored_row ''a2'' restore_input]"

text \<open>The chief grants the member one permission, which starts it.\<close>

definition granted :: tenancy where
  "granted = (case grant_member hq staff ''call:place'' (actor_of the_chief) (mc_newId hq_machine 0 0)
       ((\<lambda>k. mc_newId hq_machine 0 (Suc k)), 0) hq_tenancy of Inr (_, t) \<Rightarrow> t | Inl _ \<Rightarrow> hq_tenancy)"

definition loop_world :: world where "loop_world = hq_world granted loop_rules 1"

section \<open>One hop\<close>

definition revoke_ru :: AutomationRule where
  "revoke_ru = \<lparr>ru_id = ''a1'', ru_orgId = hq, ru_name = ''revoke'', ru_triggerEvent = ''member_grant.created'',
     ru_condition = None, ru_actions = [typed ''member_grant.revoke_all''], ru_enabled = True, ru_createdBy = chief\<rparr>"

definition restore_ru :: AutomationRule where
  "restore_ru = \<lparr>ru_id = ''a2'', ru_orgId = hq, ru_name = ''restore'', ru_triggerEvent = ''member_grant.revoked'',
     ru_condition = None, ru_actions = [typed ''member_grant.apply_role_defaults''], ru_enabled = True,
     ru_createdBy = chief\<rparr>"

lemma loop_loads:
  "w_rules w = loop_rules \<Longrightarrow> loadRulesFor other hq ''member_grant.created'' w = [Usable revoke_ru]"
  "w_rules w = loop_rules \<Longrightarrow> loadRulesFor other hq ''member_grant.revoked'' w = [Usable restore_ru]"
  by (simp_all add: loadRulesFor_def loop_rules_def stored_row_def revoke_input_def restore_input_def
      plain_input_def typed_def load_rule_def parseStoredCondition_def parseStoredActions_def has_type_def
      revoke_ru_def restore_ru_def)

lemma loop_passes: "checkLoopProtection revoke_ru 0 = None" "checkLoopProtection restore_ru 0 = None"
  by code_simp+

lemma chief_resolves:
  "members t = hq_members \<Longrightarrow> orgs t = [\<lparr>o_id = hq, o_status = ''active''\<rparr>] \<Longrightarrow>
   \<exists>m. resolveOrgMembership chief hq 0 t = Inr (Some m) \<and> om_orgId m = hq \<and> om_role m = ''owner''"
proof -
  assume t: "members t = hq_members" "orgs t = [\<lparr>o_id = hq, o_status = ''active''\<rparr>]"
  have "idSchema hq = Some hq" by code_simp
  then show ?thesis
    by (simp add: resolveOrgMembership_def t hq_members_def chief_def staff_def isRole_def ROLES_def)
qed

lemma staff_resolves:
  "members t = hq_members \<Longrightarrow> orgs t = [\<lparr>o_id = hq, o_status = ''active''\<rparr>] \<Longrightarrow>
   \<exists>m. resolveOrgMembership staff hq 0 t = Inr (Some m) \<and> om_orgId m = hq \<and> om_role m = ''member''"
proof -
  assume t: "members t = hq_members" "orgs t = [\<lparr>o_id = hq, o_status = ''active''\<rparr>]"
  have "idSchema hq = Some hq" by code_simp
  then show ?thesis
    by (simp add: resolveOrgMembership_def t hq_members_def chief_def staff_def isRole_def ROLES_def)
qed

lemma staff_active:
  "members t = hq_members \<Longrightarrow> findActiveMembership hq staff t =
     Some \<lparr>mb_id = ''m2'', mb_orgId = hq, mb_userId = staff, mb_role = ''member'', mb_status = ''active'', mb_updatedAt = 0\<rparr>"
  by (simp add: findActiveMembership_def hq_members_def chief_def staff_def)

lemma owner_manages: "sub_role s = ''owner'' \<Longrightarrow> dec_allowed (can s ''member:manage'' None)"
  unfolding can_allowed_iff by (cases s) (simp add: policy_allows_def, code_simp)

definition live :: "world \<Rightarrow> MemberGrantRow list" where
  "live w = filter (held_grant hq ''m2'') (memberGrants (w_tenancy w))"

definition about_staff :: "string \<Rightarrow> OutboxRow \<Rightarrow> bool" where
  "about_staff name row \<longleftrightarrow> ob_orgId row = hq \<and> ob_name row = name \<and> ob_causationDepth row = 0 \<and>
     (\<exists>kvs. ob_payload row = JObj kvs \<and> json_field ''userId'' (JObj kvs) = Some (JStr staff))"

definition settled :: "world \<Rightarrow> bool" where
  "settled w \<longleftrightarrow> members (w_tenancy w) = hq_members \<and> orgs (w_tenancy w) = [\<lparr>o_id = hq, o_status = ''active''\<rparr>] \<and>
     w_defaults w = [\<lparr>rd_id = ''d1'', rd_orgId = hq, rd_role = ''member'', rd_permission = ''call:place''\<rparr>]"

text \<open>One run: it succeeds, and appends one event without a depth.\<close>

definition hops :: "world \<Rightarrow> string \<Rightarrow> RunOutcome \<times> world \<Rightarrow> bool" where
  "hops w name res \<longleftrightarrow> (case res of (out, w') \<Rightarrow> ro_status out = Succeeded \<and> ro_depth out = 0 \<and>
     engine_same w w' \<and> settled w' \<and> w_draws w' = Suc (w_draws w) \<and>
     (\<exists>row. events (w_tenancy w') = events (w_tenancy w) @ [row] \<and> about_staff name row \<and>
        ob_id row = mc_newId hq_machine (w_draws w) 1))"

lemma payload_user [simp]: "map_of (member_grant_payload g m u p) ''userId'' = Some (JStr u)"
  by (simp add: member_grant_payload_def)

lemma append_one [simp]: "events (append_rows drawn [row] t) = events t @ [row\<lparr>ob_id := fst drawn 0\<rparr>]"
  by (simp add: append_rows_def)

lemma about_event [simp]:
  "about_staff name (event_row hq actor drawn name (member_grant_payload g m staff p)\<lparr>ob_id := i\<rparr>)"
  by (simp add: about_staff_def event_row_def)

lemma drawn_hq [simp]: "drawn_of hq_machine w = ((\<lambda>k. mc_newId hq_machine (w_draws w) (Suc k)), 0)"
  by (simp add: drawn_of_def fresh_def now_of_def hq_machine_def)

lemma now_hq [simp]: "now_of hq_machine w = 0" by (simp add: now_of_def hq_machine_def)

lemma revoke_hops:
  assumes "settled w" "te_orgId ev = hq" "json_field ''userId'' (te_payload ev) = Some (JStr staff)"
    "te_causationDepth ev = 0" "live w = [g]"
  shows "hops w ''member_grant.revoked'' (act hq_machine revoke_ru ev w) \<and>
    live (snd (act hq_machine revoke_ru ev w)) = []"
proof -
  have t: "members (w_tenancy w) = hq_members" "orgs (w_tenancy w) = [\<lparr>o_id = hq, o_status = ''active''\<rparr>]"
    using assms(1) by (simp_all add: settled_def)
  obtain m where m: "resolveOrgMembership chief hq 0 (w_tenancy w) = Inr (Some m)" "om_orgId m = hq" "om_role m = ''owner''"
    using chief_resolves [OF t] by blast
  let ?actor = "rule_actor revoke_ru m ev 1"
  have actor: "orgOf ?actor = hq" "dec_allowed (can (subject ?actor) ''member:manage'' None)"
    using m(2,3) owner_manages by (simp_all add: orgOf_def rule_actor_def)
  let ?t = "revoke_grants (held_grant hq ''m2'') 0 (w_tenancy w)"
  let ?row = "event_row hq (actor_of ?actor) (drawn_of hq_machine w) ''member_grant.revoked''
     (member_grant_payload (mg_id g) ''m2'' staff (mg_permission g))"
  let ?w = "w\<lparr>w_tenancy := append_rows (drawn_of hq_machine w) [?row] ?t, w_draws := Suc (w_draws w)\<rparr>"
  have "revokeAll hq staff (actor_of ?actor) (drawn_of hq_machine w) (w_tenancy w) =
      Inr ([mg_permission g], append_rows (drawn_of hq_machine w) [?row] ?t)"
    using assms(5) by (simp add: revokeAll_def staff_active [OF t(1)] live_def)
  then have run: "runAction hq_machine ?actor (typed ''member_grant.revoke_all'') ev w = (None, ?w)"
    using actor assms(3) by (simp add: runAction_def typed_def action_type_def may_manage_members_def
        named_in_def run_tenancy_def)
  have "filter (held_grant hq ''m2'') (memberGrants ?t) = []"
    by (auto simp: revoke_grants_def filter_empty_conv held_grant_def)
  then have "live ?w = []" by (simp add: live_def append_rows_def)
  moreover have "settled ?w" using assms(1) by (simp add: settled_def append_rows_def revoke_grants_def)
  moreover have "engine_same w ?w" by (simp add: engine_same_def)
  moreover have "events ?t = events (w_tenancy w)" by (simp add: revoke_grants_def)
  moreover have "act hq_machine revoke_ru ev w =
      (outcome_of revoke_ru ev Succeeded None [\<lparr>ar_index = 0, ar_type = ''member_grant.revoke_all'', ar_error = None\<rparr>], ?w)"
    using m run assms(4)
    by (simp add: act_def execute_def revoke_ru_def typed_def action_type_def)
  ultimately show ?thesis using assms(4) by (simp add: hops_def outcome_of_def)
qed

lemma restore_hops:
  assumes "settled w" "te_orgId ev = hq" "json_field ''userId'' (te_payload ev) = Some (JStr staff)"
    "te_causationDepth ev = 0" "live w = []"
  shows "hops w ''member_grant.created'' (act hq_machine restore_ru ev w) \<and>
    (\<exists>g. live (snd (act hq_machine restore_ru ev w)) = [g])"
proof -
  have t: "members (w_tenancy w) = hq_members" "orgs (w_tenancy w) = [\<lparr>o_id = hq, o_status = ''active''\<rparr>]"
    using assms(1) by (simp_all add: settled_def)
  obtain m where m: "resolveOrgMembership chief hq 0 (w_tenancy w) = Inr (Some m)" "om_orgId m = hq" "om_role m = ''owner''"
    using chief_resolves [OF t] by blast
  obtain k where k: "resolveOrgMembership staff hq 0 (w_tenancy w) = Inr (Some k)" "om_role k = ''member''"
    using staff_resolves [OF t] by blast
  let ?actor = "rule_actor restore_ru m ev 1"
  have actor: "orgOf ?actor = hq" using m(2) by (simp add: orgOf_def rule_actor_def)
  let ?i = "fresh hq_machine w 0"
  let ?g = "\<lparr>mg_id = ?i, mg_orgId = hq, mg_membershipId = ''m2'', mg_permission = ''call:place'', mg_revokedAt = None\<rparr>"
  let ?t = "(w_tenancy w)\<lparr>memberGrants := memberGrants (w_tenancy w) @ [?g]\<rparr>"
  let ?row = "event_row hq (actor_of ?actor) (drawn_of hq_machine w) ''member_grant.created''
     (member_grant_payload ?i ''m2'' staff ''call:place'')"
  let ?w = "w\<lparr>w_tenancy := append_rows (drawn_of hq_machine w) [?row] ?t, w_draws := Suc (w_draws w)\<rparr>"
  have none: "\<not> held_grant hq ''m2'' g" if "g \<in> set (memberGrants (w_tenancy w))" for g
    using assms(5) that by (auto simp: live_def filter_empty_conv)
  have may: "isPermission ''call:place''" "isGrantable ''call:place''" by code_simp+
  have "find (\<lambda>g. held_grant hq ''m2'' g \<and> mg_permission g = ''call:place'') (memberGrants (w_tenancy w)) = None"
    using none by (auto simp: find_None_iff)
  then have "grant_member hq staff ''call:place'' (actor_of ?actor) ?i (drawn_of hq_machine w) (w_tenancy w) =
      Inr (?i, append_rows (drawn_of hq_machine w) [?row] ?t)"
    by (simp add: grant_member_def may staff_active [OF t(1)])
  moreover have "permissionsForRole hq ''member'' w = [''call:place'']"
    using assms(1) by (simp add: permissionsForRole_def settled_def)
  ultimately have run: "runAction hq_machine ?actor (typed ''member_grant.apply_role_defaults'') ev w = (None, ?w)"
    using actor assms(3) k by (simp add: runAction_def typed_def action_type_def named_in_def run_tenancy_def
        apply_role_defaults_def)
  have "live ?w = [?g]" using assms(5) by (simp add: live_def append_rows_def held_grant_def)
  moreover have "settled ?w" using assms(1) by (simp add: settled_def append_rows_def)
  moreover have "engine_same w ?w" by (simp add: engine_same_def)
  moreover have "act hq_machine restore_ru ev w =
      (outcome_of restore_ru ev Succeeded None [\<lparr>ar_index = 0, ar_type = ''member_grant.apply_role_defaults'',
         ar_error = None\<rparr>], ?w)"
    using m run assms(4) by (simp add: act_def execute_def restore_ru_def typed_def action_type_def)
  ultimately show ?thesis using assms(4) by (simp add: hops_def outcome_of_def)
qed

section \<open>A thousand hops\<close>

definition used :: "nat \<Rightarrow> string \<Rightarrow> bool" where
  "used n i \<longleftrightarrow> (\<exists>d < n. \<exists>k. i = mc_newId hq_machine d k)"

lemma newId_draw: "mc_newId hq_machine d k = mc_newId hq_machine d' k' \<Longrightarrow> d = d'"
proof -
  assume "mc_newId hq_machine d k = mc_newId hq_machine d' k'"
  then have "length (filter (\<lambda>c. c = CHR ''x'') (mc_newId hq_machine d k)) =
      length (filter (\<lambda>c. c = CHR ''x'') (mc_newId hq_machine d' k'))" by simp
  then show ?thesis by (simp add: hq_machine_def)
qed

lemma fresh_unused: "\<not> used n (mc_newId hq_machine n k)"
  by (auto simp: used_def dest: newId_draw)

lemma used_mono: "used n i \<Longrightarrow> used (Suc n) i" by (auto simp: used_def less_Suc_eq)

text \<open>After \<open>n\<close> hops: one event waits, the next of the two, with depth 0.\<close>

definition looping :: "nat \<Rightarrow> world \<Rightarrow> bool" where
  "looping n w \<longleftrightarrow> settled w \<and> w_rules w = loop_rules \<and>
     w_budget w (hq, 0) = (if n = 0 then None else Some n) \<and>
     length (w_runs w) = n \<and>
     (\<forall>run \<in> set (w_runs w). ro_status (run_outcome run) = Succeeded \<and> ro_depth (run_outcome run) = 0) \<and>
     (\<forall>i c. w_dispatch w (i, c) \<noteq> None \<longrightarrow> used (w_draws w) i) \<and>
     (\<exists>row. waiting w = [row] \<and> used (w_draws w) (ob_id row) \<and>
        about_staff (if even n then ''member_grant.created'' else ''member_grant.revoked'') row) \<and>
     (if even n then \<exists>g. live w = [g] else live w = [])"

text \<open>One hop of the loop.\<close>

definition hopped :: "nat \<Rightarrow> string \<Rightarrow> (MemberGrantRow list \<Rightarrow> bool) \<Rightarrow> world \<Rightarrow> world \<Rightarrow> bool" where
  "hopped n name L w w' \<longleftrightarrow> settled w' \<and> w_rules w' = w_rules w \<and> w_budget w' (hq, 0) = Some (Suc n) \<and>
     (\<exists>run. w_runs w' = w_runs w @ [run] \<and> ro_status (run_outcome run) = Succeeded \<and>
        ro_depth (run_outcome run) = 0) \<and>
     (\<forall>i c. w_dispatch w' (i, c) \<noteq> None \<longrightarrow> used (w_draws w') i) \<and>
     (\<exists>row. waiting w' = [row] \<and> used (w_draws w') (ob_id row) \<and> about_staff name row) \<and> L (live w')"

lemma hop_drain:
  assumes wait: "waiting w = [row]" "used (w_draws w) (ob_id row)" "about_staff name row"
    and disp: "\<forall>i c. w_dispatch w (i, c) \<noteq> None \<longrightarrow> used (w_draws w) i"
    and set: "settled w" and budget: "w_budget w (hq, 0) = (if n = 0 then None else Some n)" "n < HOURLY_EXECUTION_BUDGET"
    and rule: "loadRulesFor (mc_date hq_machine) hq name w = [Usable ru]" "ru_orgId ru = hq" "ru_condition ru = None"
      "checkLoopProtection ru 0 = None"
    and hop: "\<And>ev w1. w1 = w\<lparr>w_budget := (w_budget w)((hq, 0) \<mapsto> Suc n)\<rparr> \<Longrightarrow> te_orgId ev = hq \<Longrightarrow>
      json_field ''userId'' (te_payload ev) = Some (JStr staff) \<Longrightarrow> te_causationDepth ev = 0 \<Longrightarrow>
      hops w1 name' (act hq_machine ru ev w1) \<and> L (live (snd (act hq_machine ru ev w1)))"
  shows "hopped n name' L w (snd (drainAutomations hq_machine 50 w))"
proof -
  obtain kvs where row: "ob_orgId row = hq" "ob_name row = name" "ob_causationDepth row = 0" "ob_payload row = JObj kvs"
    "json_field ''userId'' (JObj kvs) = Some (JStr staff)"
    using wait(3) by (auto simp: about_staff_def)
  let ?ev = "\<lparr>te_id = ob_id row, te_orgId = hq, te_name = name, te_payload = JObj kvs, te_causationDepth = 0\<rparr>"
  have ev: "toTriggerEvent row = Some ?ev" using row by (simp add: toTriggerEvent_def)
  let ?w1 = "w\<lparr>w_budget := (w_budget w)((hq, 0) \<mapsto> Suc n)\<rparr>"
  have spend: "consumeAutomationBudget hq HOURLY_EXECUTION_BUDGET 0 w = (True, ?w1)"
    using budget by (simp add: consumeAutomationBudget_def)
  obtain out w2 where act: "act hq_machine ru ?ev ?w1 = (out, w2)" by (cases "act hq_machine ru ?ev ?w1")
  from hop [of ?w1 ?ev] row(5) act have hops: "hops ?w1 name' (out, w2)" and L: "L (live w2)" by simp_all
  from hops obtain new where new: "events (w_tenancy w2) = events (w_tenancy w) @ [new]" "about_staff name' new"
      "ob_id new = mc_newId hq_machine (w_draws w) 1"
    and out: "ro_status out = Succeeded" "ro_depth out = 0" and same: "engine_same ?w1 w2" "settled w2"
      "w_draws w2 = Suc (w_draws w)"
    by (auto simp: hops_def)
  let ?w3 = "safeRecord ?ev out w2"
  have one: "runOne hq_machine ru ?ev w = (Inr out, w2)"
    using rule spend act by (simp add: runOne_def condition_verdict_def)
  have active: "orgIsActive hq w" using set by (simp add: orgIsActive_def settled_def)
  have "processEvent hq_machine ?ev w = (Inr (1, 1), ?w3)"
    using active rule(1) one out(1) by (simp add: processEvent_def)
  then have batch: "process_batch hq_machine [row] w = (Inr 1, ?w3)" using ev by simp
  define w4 where "w4 = ?w3\<lparr>w_dispatch := q_dispatch (markDispatched AUTOMATION_CONSUMER
      (map ob_id (take 50 (waiting w))) (now_of hq_machine ?w3) (automation_queue ?w3))\<rparr>"
  have claimed: "claimPending AUTOMATION_CONSUMER 50 (automation_queue w) = [row]"
    using wait(1) by (simp add: claimPending_def waiting_def)
  have drain: "drainAutomations hq_machine 50 w = (Inr (1, 1), w4)"
    using batch by (simp add: drainAutomations_def claimed wait(1) w4_def)
  have three: "w_dispatch ?w3 = w_dispatch w" "events (w_tenancy ?w3) = events (w_tenancy w) @ [new]"
    using same(1) new(1) by (simp_all add: safeRecord_def recordRun_def engine_same_def)
  have fresh: "ob_id new \<noteq> ob_id row" "w_dispatch w (ob_id new, AUTOMATION_CONSUMER) = None"
    using wait(2) disp fresh_unused [of "w_draws w" 1] new(3) by (metis, metis)
  then have "mset (waiting w4) = {#new#}"
    using waiting_marked [OF three(2,1) w4_def]
    by (simp add: wait(1) undispatched_def automation_queue_def)
  then have waits: "waiting w4 = [new]" by simp
  have used4: "used (w_draws w4) i" if "w_dispatch w4 (i, c) \<noteq> None" for i c
    using that wait(1,2) disp three(1) same(3)
    by (auto simp: w4_def markDispatched_def automation_queue_def safeRecord_def recordRun_def intro: used_mono split: if_splits)
  have "used (w_draws w4) (ob_id new)" using new(3) same(3) by (auto simp: w4_def used_def safeRecord_def recordRun_def)
  moreover have "settled w4" "w_rules w4 = w_rules w" "w_budget w4 (hq, 0) = Some (Suc n)" "live w4 = live w2"
    using same by (simp_all add: w4_def safeRecord_def recordRun_def settled_def engine_same_def live_def)
  moreover obtain run where "w_runs w4 = w_runs w @ [run]" "run_outcome run = out"
    using same(1) by (simp add: w4_def engine_same_def)
  ultimately show ?thesis unfolding drain snd_conv hopped_def using waits used4 new(2) out L by metis
qed

lemma rule_facts:
  "ru_orgId revoke_ru = hq" "ru_condition revoke_ru = None" "ru_orgId restore_ru = hq" "ru_condition restore_ru = None"
  by (simp_all add: revoke_ru_def restore_ru_def)

lemma loop_hop:
  assumes "looping n w" "n < HOURLY_EXECUTION_BUDGET"
  shows "looping (Suc n) (snd (drainAutomations hq_machine 50 w))"
proof -
  from assms(1) obtain row where row: "waiting w = [row]" "used (w_draws w) (ob_id row)"
      "about_staff (if even n then ''member_grant.created'' else ''member_grant.revoked'') row"
    and inv: "settled w" "w_rules w = loop_rules" "w_budget w (hq, 0) = (if n = 0 then None else Some n)"
      "length (w_runs w) = n"
      "\<forall>run \<in> set (w_runs w). ro_status (run_outcome run) = Succeeded \<and> ro_depth (run_outcome run) = 0"
      "\<forall>i c. w_dispatch w (i, c) \<noteq> None \<longrightarrow> used (w_draws w) i"
    by (auto simp: looping_def simp del: split_paired_All split_paired_Ex)
  let ?w = "snd (drainAutomations hq_machine 50 w)"
  let ?w1 = "w\<lparr>w_budget := (w_budget w)((hq, 0) \<mapsto> Suc n)\<rparr>"
  have w1: "settled ?w1" "live ?w1 = live w" using inv(1) by (simp_all add: settled_def live_def)
  show ?thesis
  proof (cases "even n")
    case True
    then obtain g where g: "live ?w1 = [g]" using assms(1) w1(2) by (auto simp: looping_def)
    have "hopped n ''member_grant.revoked'' (\<lambda>l. l = []) w ?w"
      using True row revoke_hops [OF w1(1) _ _ _ g]
      by (intro hop_drain [OF _ _ _ inv(6,1,3) assms(2) loop_loads(1) [OF inv(2)] rule_facts(1,2) loop_passes(1)]) auto
    then show ?thesis using True inv unfolding looping_def hopped_def by auto
  next
    case False
    then have g: "live ?w1 = []" using assms(1) w1(2) by (auto simp: looping_def)
    have "hopped n ''member_grant.created'' (\<lambda>l. \<exists>g. l = [g]) w ?w"
      using False row restore_hops [OF w1(1) _ _ _ g]
      by (intro hop_drain [OF _ _ _ inv(6,1,3) assms(2) loop_loads(2) [OF inv(2)] rule_facts(3,4) loop_passes(2)]) auto
    then show ?thesis using False inv unfolding looping_def hopped_def by auto
  qed
qed

lemma loop_starts: "looping 0 loop_world"
proof -
  have "waiting loop_world = [event_row hq (actor_of the_chief) ((\<lambda>_. []), 0) ''member_grant.created''
      (member_grant_payload (mc_newId hq_machine 0 0) ''m2'' staff ''call:place'')\<lparr>ob_id := mc_newId hq_machine 0 1\<rparr>]"
    by code_simp
  moreover have "used 1 (mc_newId hq_machine 0 1)" by (auto simp: used_def)
  moreover have "live loop_world = [\<lparr>mg_id = mc_newId hq_machine 0 0, mg_orgId = hq, mg_membershipId = ''m2'',
      mg_permission = ''call:place'', mg_revokedAt = None\<rparr>]" by code_simp
  moreover have "members (w_tenancy loop_world) = hq_members"
    "orgs (w_tenancy loop_world) = [\<lparr>o_id = hq, o_status = ''active''\<rparr>]" by code_simp+
  ultimately show ?thesis
    by (simp add: looping_def loop_world_def hq_world_def settled_def)
qed

definition loop_after :: "nat \<Rightarrow> world" where
  "loop_after n = ((\<lambda>w. snd (drainAutomations hq_machine 50 w)) ^^ n) loop_world"

lemma loop_goes_on: "n \<le> HOURLY_EXECUTION_BUDGET \<Longrightarrow> looping n (loop_after n)"
  by (induction n) (simp_all add: loop_after_def loop_starts loop_hop)

text \<open>What \<open>createAutomation\<close> stores for the two inputs.\<close>

definition accepted_rules :: "AutomationRow list" where
  "accepted_rules =
     (let save = (\<lambda>i input w. case createAutomation (mc_date hq_machine)
             (\<lambda>name. name = ''member_grant.created'' \<or> name = ''member_grant.revoked'') the_chief input i ((\<lambda>_. i), 0) w of
           Inr (_, w') \<Rightarrow> w' | Inl _ \<Rightarrow> w)
      in w_rules (save ''a2'' restore_input (save ''a1'' revoke_input (hq_world hq_tenancy [] 0))))"

lemma loop_accepted: "accepted_rules = loop_rules"
  by code_simp

end
