(* ===== verification/Automation_Stall.thy ===== *)
theory Automation_Stall
  imports Automation_Loop Tenancy_Access
begin

text \<open>
  A condition that is accepted and cannot be evaluated: an offset so large that the date is out of range. The
  engine evaluates conditions outside every \<open>try\<close>, so the batch ends there, with nothing marked.
\<close>

definition rival :: string where "rival = ''10000000-0000-4000-8000-0000000000b1''"
definition mole :: string where "mole = ''20000000-0000-4000-8000-0000000000b1''"

definition welcome_input :: AutomationInput where
  "welcome_input = plain_input ''welcome'' ''member.added''
     (JObj [(''type'', JStr ''card.create''), (''listId'', JStr ''l1''), (''title'', JStr ''Show them around'')])"

definition poison_input :: AutomationInput where
  "poison_input = (plain_input ''poison'' ''card.created'' (typed ''cards.bulk_reassign''))
     \<lparr>in_condition := Some (JObj [(''kind'', JStr ''comparison''), (''field'', JStr ''due''), (''operator'', JStr ''lt''),
        (''value'', JStr ''+999999999d'')])\<rparr>"

definition the_mole :: WorkActor where
  "the_mole =
     \<lparr>subject = \<lparr>sub_orgId = rival, sub_userId = mole, sub_role = ''owner'', sub_tuples = [], sub_memberGrants = None\<rparr>,
      requestId = ''q2'', causationDepth = None\<rparr>"

definition a_card :: CardRow where
  "a_card =
     \<lparr>c_id = ''c9'', c_orgId = rival, c_projectId = ''p9'', c_boardId = ''b9'', c_listId = ''l9'', c_number = 1,
      c_title = ''x'', c_description = None, c_descriptionText = None, c_rank = ''a0'', c_assigneeIds = [],
      c_statusId = None, c_sprintId = None, c_priority = None, c_dueDate = None, c_startDate = None, c_version = 1,
      c_createdBy = mole, c_archivedAt = None, c_deletedAt = None, c_updatedAt = 0\<rparr>"

definition stall_db :: database where
  "stall_db =
     \<lparr>cards = [a_card],
      lists = [\<lparr>l_id = ''l1'', l_orgId = hq, l_projectId = ''p1'', l_boardId = ''b1'', l_name = ''Inbox'', l_rank = ''a0'',
        l_wipLimit = None, l_archivedAt = None, l_deletedAt = None, l_updatedAt = 0\<rparr>],
      boards = [\<lparr>b_id = ''b1'', b_orgId = hq, b_projectId = ''p1'', b_deletedAt = None\<rparr>],
      projects = [\<lparr>p_id = ''p1'', p_orgId = hq, p_key = ''HQ'', p_nextCardNumber = 1\<rparr>], statuses = [],
      memberships = [], outbox = []\<rparr>"

definition raw_event :: "string \<Rightarrow> string \<Rightarrow> string \<Rightarrow> (string \<times> json) list \<Rightarrow> OutboxRow" where
  "raw_event i org name payload =
     \<lparr>ob_id = i, ob_orgId = org, ob_name = name, ob_version = 1, ob_actorId = None, ob_requestId = None,
      ob_occurredAt = 0, ob_causationDepth = 0, ob_payload = JObj payload\<rparr>"

definition stall_world :: world where
  "stall_world = hq_world
     (hq_tenancy\<lparr>orgs := [\<lparr>o_id = hq, o_status = ''active''\<rparr>, \<lparr>o_id = rival, o_status = ''active''\<rparr>],
        work := stall_db,
        events := [raw_event ''e1'' hq ''member.added'' [(''userId'', JStr staff)],
                   raw_event ''e2'' rival ''card.created'' [(''cardId'', JStr ''c9'')]]\<rparr>)
     [stored_row ''a1'' welcome_input] 2"

text \<open>The rule of the rival organization is saved.\<close>

definition poisoned :: "(work_error, world) result" where
  "poisoned = bind_result (createAutomation (mc_date hq_machine) (\<lambda>name. name = ''card.created'') the_mole poison_input
     ''a9'' ((\<lambda>_. ''z''), 0) (stall_world)) (\<lambda>(_, w). Return w)"

definition ticks :: "nat \<Rightarrow> world" where
  "ticks n = (engine_tick hq_machine ^^ n) (case poisoned of Inr w \<Rightarrow> w | Inl _ \<Rightarrow> stall_world)"

definition hq_cards :: "world \<Rightarrow> nat" where
  "hq_cards w = length (filter (\<lambda>c. c_orgId c = hq) (cards (work (w_tenancy w))))"

lemma poison_accepted: "case poisoned of Inr w \<Rightarrow> map au_id (w_rules w) = [''a1'', ''a9''] | Inl _ \<Rightarrow> False"
  by code_simp

lemma first_card: "hq_cards (ticks 1) = 1"
  by code_simp

section \<open>The batch that comes again\<close>

definition welcome_ru :: AutomationRule where
  "welcome_ru = \<lparr>ru_id = ''a1'', ru_orgId = hq, ru_name = ''welcome'', ru_triggerEvent = ''member.added'',
     ru_condition = None, ru_actions = in_actions welcome_input, ru_enabled = True, ru_createdBy = chief\<rparr>"

definition poison_ru :: AutomationRule where
  "poison_ru = \<lparr>ru_id = ''a9'', ru_orgId = rival, ru_name = ''poison'', ru_triggerEvent = ''card.created'',
     ru_condition = Some (ComparisonNode ''due'' Lt (Some (Scalar (FString ''+999999999d'')))),
     ru_actions = [typed ''cards.bulk_reassign''], ru_enabled = True, ru_createdBy = mole\<rparr>"

definition stall_rules :: "AutomationRow list" where
  "stall_rules = [stored_row ''a1'' welcome_input,
     (stored_row ''a9'' poison_input)\<lparr>au_orgId := rival, au_createdBy := mole\<rparr>]"

lemma stall_loads:
  "w_rules w = stall_rules \<Longrightarrow> loadRulesFor (mc_date hq_machine) hq ''member.added'' w = [Usable welcome_ru]"
  "w_rules w = stall_rules \<Longrightarrow> loadRulesFor (mc_date hq_machine) rival ''card.created'' w = [Usable poison_ru]"
proof -
  have "load_rule (mc_date hq_machine) (stored_row ''a1'' welcome_input) = Usable welcome_ru"
    "load_rule (mc_date hq_machine) ((stored_row ''a9'' poison_input)\<lparr>au_orgId := rival, au_createdBy := mole\<rparr>) =
       Usable poison_ru"
    by code_simp+
  moreover have "hq \<noteq> rival" by code_simp
  ultimately show
    "w_rules w = stall_rules \<Longrightarrow> loadRulesFor (mc_date hq_machine) hq ''member.added'' w = [Usable welcome_ru]"
    "w_rules w = stall_rules \<Longrightarrow> loadRulesFor (mc_date hq_machine) rival ''card.created'' w = [Usable poison_ru]"
    by (simp_all add: loadRulesFor_def stall_rules_def stored_row_def welcome_input_def poison_input_def plain_input_def)
qed

text \<open>Both rows come first, nothing is marked, and the card of the second can be read.\<close>

definition steady :: "world \<Rightarrow> bool" where
  "steady w \<longleftrightarrow> w_rules w = stall_rules \<and> w_dispatch w = (\<lambda>_. None) \<and>
     orgs (w_tenancy w) = [\<lparr>o_id = hq, o_status = ''active''\<rparr>, \<lparr>o_id = rival, o_status = ''active''\<rparr>] \<and>
     find (\<lambda>c. c_orgId c = rival \<and> c_id c = ''c9'') (cards (work (w_tenancy w))) = Some a_card \<and>
     (\<exists>rest. events (w_tenancy w) = raw_event ''e1'' hq ''member.added'' [(''userId'', JStr staff)] #
        raw_event ''e2'' rival ''card.created'' [(''cardId'', JStr ''c9'')] # rest \<and>
        (\<forall>r \<in> set rest. ''e2'' \<le> ob_id r \<and> ob_occurredAt r = 0))"

lemma sorted_two:
  fixes f :: "'a \<Rightarrow> 'b :: linorder"
  assumes "f a \<le> f b" "\<forall>x \<in> set xs. f b \<le> f x"
  shows "sort_key f (a # b # xs) = a # b # sort_key f xs"
proof -
  have "insort_key f b (sort_key f xs) = b # sort_key f xs" using assms(2) by (intro insort_is_Cons) simp
  moreover have "insort_key f a (b # sort_key f xs) = a # b # sort_key f xs" using assms(1) by simp
  ultimately show ?thesis by simp
qed

lemma steady_waits:
  assumes "steady w"
  shows "\<exists>rest. waiting w = raw_event ''e1'' hq ''member.added'' [(''userId'', JStr staff)] #
    raw_event ''e2'' rival ''card.created'' [(''cardId'', JStr ''c9'')] # rest"
proof -
  let ?e1 = "raw_event ''e1'' hq ''member.added'' [(''userId'', JStr staff)]"
  let ?e2 = "raw_event ''e2'' rival ''card.created'' [(''cardId'', JStr ''c9'')]"
  from assms obtain rest where rest: "events (w_tenancy w) = ?e1 # ?e2 # rest"
    "\<forall>r \<in> set rest. ''e2'' \<le> ob_id r \<and> ob_occurredAt r = 0" by (auto simp: steady_def)
  have le: "ob_id ?e1 = ''e1''" "ob_id ?e2 = ''e2''" "ob_occurredAt ?e1 = 0" "ob_occurredAt ?e2 = 0" "''e1'' \<le> ''e2''"
    by (simp_all add: raw_event_def)
  have "sort_key ob_id (?e1 # ?e2 # rest) = ?e1 # ?e2 # sort_key ob_id rest"
    by (rule sorted_two) (use rest(2) le in simp_all)
  moreover have "sort_key ob_occurredAt (?e1 # ?e2 # sort_key ob_id rest) =
      ?e1 # ?e2 # sort_key ob_occurredAt (sort_key ob_id rest)"
    by (rule sorted_two) (use rest(2) le in simp_all)
  ultimately show ?thesis using assms rest(1)
    by (simp add: waiting_def pending_def oldest_first_def automation_queue_def undispatched_def steady_def)
qed

lemma id_after: "''e2'' \<le> mc_newId hq_machine d k"
  by (simp add: hq_machine_def)

lemma next_number_cards: "next_number orgId pid db = Some (p, db1) \<Longrightarrow> cards db1 = cards db"
  by (auto simp: next_number_def Let_def split: list.splits)

lemma createCard_rows:
  "createCard actor l title desc i now db = Inr (x, db') \<Longrightarrow> \<exists>c. cards db' = cards db @ [c]"
  by (auto simp: createCard_def Let_def insert_card_Inr dest!: next_number_cards)

lemma published: "work (publish drawn db db1 t) = db1" "orgs (publish drawn db db1 t) = orgs t"
  by (simp_all add: publish_def append_rows_def)

lemma steady_created:
  assumes "steady w" "done_work (createCard actor l title None i 0 (work_view (w_tenancy w))) = Inr db"
  shows "steady (w\<lparr>w_tenancy := publish (drawn_of hq_machine w) (work_view (w_tenancy w)) db (w_tenancy w), w_draws := n\<rparr>)"
proof -
  from assms(2) obtain x where c: "createCard actor l title None i 0 (work_view (w_tenancy w)) = Inr (x, db)"
    by (auto simp: done_work_Inr)
  obtain c where cards: "cards db = cards (work (w_tenancy w)) @ [c]"
    using createCard_rows [OF c] by (auto simp: work_view_def)
  have "''e2'' \<le> ob_id r \<and> ob_occurredAt r = 0"
    if "r \<in> set (map2 (\<lambda>k row. row\<lparr>ob_id := fst (drawn_of hq_machine w) k\<rparr>) ks
          (map (outbox_row (snd (drawn_of hq_machine w))) es))" for r ks es
    using that id_after by (auto simp: outbox_row_def dest!: set_zip_rightD)
  then have new: "\<exists>rows. events (publish (drawn_of hq_machine w) (work_view (w_tenancy w)) db (w_tenancy w)) =
      events (w_tenancy w) @ rows \<and> (\<forall>r \<in> set rows. ''e2'' \<le> ob_id r \<and> ob_occurredAt r = 0)"
    unfolding events_publish by blast
  have "find (\<lambda>c. c_orgId c = rival \<and> c_id c = ''c9'') (cards db) = Some a_card"
    unfolding cards using assms(1) by (intro find_append_Some) (simp add: steady_def)
  moreover have "\<exists>rest. events (publish (drawn_of hq_machine w) (work_view (w_tenancy w)) db (w_tenancy w)) =
      raw_event ''e1'' hq ''member.added'' [(''userId'', JStr staff)] #
      raw_event ''e2'' rival ''card.created'' [(''cardId'', JStr ''c9'')] # rest \<and>
      (\<forall>r \<in> set rest. ''e2'' \<le> ob_id r \<and> ob_occurredAt r = 0)"
  proof -
    obtain rest where "events (w_tenancy w) = raw_event ''e1'' hq ''member.added'' [(''userId'', JStr staff)] #
        raw_event ''e2'' rival ''card.created'' [(''cardId'', JStr ''c9'')] # rest"
      "\<forall>r \<in> set rest. ''e2'' \<le> ob_id r \<and> ob_occurredAt r = 0"
      using assms(1) unfolding steady_def by blast
    moreover obtain rows where "events (publish (drawn_of hq_machine w) (work_view (w_tenancy w)) db (w_tenancy w)) =
        events (w_tenancy w) @ rows" "\<forall>r \<in> set rows. ''e2'' \<le> ob_id r \<and> ob_occurredAt r = 0"
      using new by blast
    ultimately show ?thesis by (intro exI [of _ "rest @ rows"]) (simp only: append_Cons set_append ball_Un simp_thms)
  qed
  moreover have "w_rules w = stall_rules" "w_dispatch w = (\<lambda>_. None)"
    "orgs (w_tenancy w) = [\<lparr>o_id = hq, o_status = ''active''\<rparr>, \<lparr>o_id = rival, o_status = ''active''\<rparr>]"
    using assms(1) unfolding steady_def by blast+
  moreover have "w_rules (w\<lparr>w_tenancy := t, w_draws := n\<rparr>) = w_rules w"
    "w_dispatch (w\<lparr>w_tenancy := t, w_draws := n\<rparr>) = w_dispatch w" "w_tenancy (w\<lparr>w_tenancy := t, w_draws := n\<rparr>) = t" for t
    by simp_all
  ultimately show ?thesis by (simp only: steady_def published simp_thms)
qed

lemma steady_welcome:
  assumes "steady w" "act hq_machine welcome_ru ev w = (out, w')"
  shows "steady w' \<and> w_runs w' = w_runs w"
proof -
  have "steady w1" if "run_actions hq_machine a ev 0 (ru_actions welcome_ru) w = (rs, w1)" for a rs w1
  proof -
    let ?service = "\<lambda>i now db. done_work (createCard a ''l1'' ''Show them around'' None i now db)"
    have "w1 = snd (run_work hq_machine ?service w)"
      using that by (auto simp: welcome_ru_def welcome_input_def plain_input_def runAction_def action_type_def
          given_text_def split: option.splits prod.splits)
    then show ?thesis using assms(1) steady_created
      by (auto simp: run_work_def Let_def split: sum.splits)
  qed
  then have "steady w'" using assms
    by (auto simp: act_def execute_def split: sum.splits option.splits prod.splits)
  moreover have "quiet_services hq_machine" by (simp add: quiet_services_def hq_machine_def)
  ultimately show ?thesis using act_same assms(2) by (simp add: engine_same_def)
qed

definition welcome_event :: TriggerEvent where
  "welcome_event = \<lparr>te_id = ''e1'', te_orgId = hq, te_name = ''member.added'',
     te_payload = JObj [(''userId'', JStr staff)], te_causationDepth = 0\<rparr>"

definition poison_event :: TriggerEvent where
  "poison_event = \<lparr>te_id = ''e2'', te_orgId = rival, te_name = ''card.created'',
     te_payload = JObj [(''cardId'', JStr ''c9'')], te_causationDepth = 0\<rparr>"

lemma steady_active: "steady w \<Longrightarrow> orgIsActive hq w \<and> orgIsActive rival w"
proof -
  have "hq \<noteq> rival" by code_simp
  then show "steady w \<Longrightarrow> orgIsActive hq w \<and> orgIsActive rival w"
    by (simp add: steady_def orgIsActive_def)
qed

lemma steady_spent: "steady w \<Longrightarrow> consumeAutomationBudget o' limit now w = (b, w') \<Longrightarrow> steady w'"
  using budget_same [of o' limit now w b w'] by (simp add: steady_def)

lemma welcome_once:
  assumes "steady w"
  shows "\<exists>r w' run. processEvent hq_machine welcome_event w = (Inr r, w') \<and> steady w' \<and>
    w_runs w' = w_runs w @ [run] \<and> run_eventId run = ''e1''"
proof -
  have pass: "checkLoopProtection welcome_ru 0 = None" by code_simp
  have cond: "condition_verdict hq_machine welcome_ru welcome_event w = Inr None"
    by (simp add: condition_verdict_def welcome_ru_def)
  have one: "\<exists>out w1. runOne hq_machine welcome_ru welcome_event w = (Inr out, w1) \<and> steady w1 \<and> w_runs w1 = w_runs w"
  proof (cases "consumeAutomationBudget (ru_orgId welcome_ru) HOURLY_EXECUTION_BUDGET (now_of hq_machine w) w")
    case (Pair b w1)
    note spent = steady_spent [OF assms Pair] budget_same(4) [OF Pair]
    obtain out w2 where act: "act hq_machine welcome_ru welcome_event w1 = (out, w2)"
      by (cases "act hq_machine welcome_ru welcome_event w1")
    show ?thesis using steady_welcome [OF spent(1) act] spent pass cond Pair act
      by (cases b) (auto simp: runOne_def welcome_event_def)
  qed
  then obtain out w1 where "runOne hq_machine welcome_ru welcome_event w = (Inr out, w1)" "steady w1" "w_runs w1 = w_runs w"
    by blast
  moreover have "loadRulesFor (mc_date hq_machine) (te_orgId welcome_event) (te_name welcome_event) w = [Usable welcome_ru]"
    using stall_loads(1) assms by (simp add: steady_def welcome_event_def)
  moreover have "orgIsActive (te_orgId welcome_event) w" using steady_active [OF assms] by (simp add: welcome_event_def)
  moreover have "steady (safeRecord welcome_event out w1) = steady w1" by (simp add: steady_def safeRecord_def recordRun_def)
  ultimately show ?thesis by (auto simp: processEvent_def welcome_event_def)
qed

lemma poison_throws:
  assumes "steady w"
  shows "processEvent hq_machine poison_event w = (Inl InvalidTimeValue, w)"
proof -
  have pass: "checkLoopProtection poison_ru 0 = None" by code_simp
  have "resourceForTrigger ''card.created'' = Card" by code_simp
  then have row: "evaluableRowFor hq_machine (resourceForTrigger (te_name poison_event)) poison_event w = Some (card_row hq_machine a_card)"
    using assms by (simp add: evaluableRowFor_def poison_event_def steady_def)
  have "evaluate (mc_date hq_machine) 0 (resourceForTrigger (te_name poison_event))
      (ComparisonNode ''due'' Lt (Some (Scalar (FString ''+999999999d'')))) (card_row hq_machine a_card)
      \<lparr>ev_viewerId = None, ev_now = None\<rparr> = Inl InvalidTimeValue"
    by code_simp
  then have "condition_verdict hq_machine poison_ru poison_event w = Inl InvalidTimeValue"
    using row by (simp add: condition_verdict_def poison_ru_def)
  then have "runOne hq_machine poison_ru poison_event w = (Inl InvalidTimeValue, w)"
    using pass by (simp add: runOne_def poison_event_def)
  moreover have "loadRulesFor (mc_date hq_machine) (te_orgId poison_event) (te_name poison_event) w = [Usable poison_ru]"
    using stall_loads(2) assms by (simp add: steady_def poison_event_def)
  ultimately show ?thesis using steady_active [OF assms] by (simp add: processEvent_def poison_event_def)
qed

lemma steady_tick:
  assumes "steady w"
  shows "steady (engine_tick hq_machine w) \<and>
    (\<exists>run. w_runs (engine_tick hq_machine w) = w_runs w @ [run] \<and> run_eventId run = ''e1'')"
proof -
  obtain rest where rest: "waiting w = raw_event ''e1'' hq ''member.added'' [(''userId'', JStr staff)] #
      raw_event ''e2'' rival ''card.created'' [(''cardId'', JStr ''c9'')] # rest"
    using steady_waits [OF assms] by blast
  then have claimed: "claimPending AUTOMATION_CONSUMER 50 (automation_queue w) =
      raw_event ''e1'' hq ''member.added'' [(''userId'', JStr staff)] #
      raw_event ''e2'' rival ''card.created'' [(''cardId'', JStr ''c9'')] # take 48 rest"
    by (simp add: claimPending_def waiting_def)
  obtain r w' run where first: "processEvent hq_machine welcome_event w = (Inr r, w')" "steady w'"
    "w_runs w' = w_runs w @ [run]" "run_eventId run = ''e1''"
    using welcome_once [OF assms] by blast
  have events: "toTriggerEvent (raw_event ''e1'' hq ''member.added'' [(''userId'', JStr staff)]) = Some welcome_event"
    "toTriggerEvent (raw_event ''e2'' rival ''card.created'' [(''cardId'', JStr ''c9'')]) = Some poison_event"
    by (simp_all add: toTriggerEvent_def raw_event_def welcome_event_def poison_event_def)
  have "drainAutomations hq_machine 50 w = (Inl InvalidTimeValue, w')"
    using first(1) poison_throws [OF first(2)] events by (cases r) (simp add: drainAutomations_def claimed)
  then have "engine_tick hq_machine w = w'" by (simp add: engine_tick_def eval_nat_numeral)
  then show ?thesis using first by blast
qed

lemma stall_starts: "steady (ticks 0) \<and> w_runs (ticks 0) = []"
proof -
  obtain w where w: "poisoned = Inr w" using poison_accepted by (auto split: sum.splits)
  then have zero: "ticks 0 = w" unfolding ticks_def w by simp
  obtain r where "createAutomation (mc_date hq_machine) (\<lambda>name. name = ''card.created'') the_mole poison_input
     ''a9'' ((\<lambda>_. ''z''), 0) stall_world = Inr (r, w)"
    using w by (auto simp: poisoned_def)
  then have "w_dispatch w = (\<lambda>_. None)"
    by (auto simp: createAutomation_def rule_event_def Let_def stall_world_def hq_world_def)
  moreover have "w_rules (ticks 0) = stall_rules" "w_runs (ticks 0) = []"
    "orgs (w_tenancy (ticks 0)) = [\<lparr>o_id = hq, o_status = ''active''\<rparr>, \<lparr>o_id = rival, o_status = ''active''\<rparr>]"
    "find (\<lambda>c. c_orgId c = rival \<and> c_id c = ''c9'') (cards (work (w_tenancy (ticks 0)))) = Some a_card"
    by code_simp+
  moreover have "take 2 (events (w_tenancy (ticks 0))) = [raw_event ''e1'' hq ''member.added'' [(''userId'', JStr staff)],
      raw_event ''e2'' rival ''card.created'' [(''cardId'', JStr ''c9'')]]"
    "list_all (\<lambda>r. ''e2'' \<le> ob_id r \<and> ob_occurredAt r = 0) (drop 2 (events (w_tenancy (ticks 0))))"
    by code_simp+
  moreover have "events (w_tenancy w) = take 2 (events (w_tenancy w)) @ drop 2 (events (w_tenancy w))" by simp
  ultimately show ?thesis unfolding zero steady_def list_all_iff by auto
qed

lemma stall_lasts:
  "steady (ticks n) \<and> length (filter (\<lambda>run. run_eventId run = ''e1'') (w_runs (ticks n))) = n"
proof (induction n)
  case 0
  then show ?case using stall_starts by simp
next
  case (Suc n)
  have "ticks (Suc n) = engine_tick hq_machine (ticks n)" by (simp add: ticks_def)
  then show ?case using steady_tick [of "ticks n"] Suc by auto
qed

lemma stall_rows: "map ob_id (take 2 (waiting (ticks n))) = [''e1'', ''e2'']"
proof -
  obtain rest where "waiting (ticks n) = raw_event ''e1'' hq ''member.added'' [(''userId'', JStr staff)] #
      raw_event ''e2'' rival ''card.created'' [(''cardId'', JStr ''c9'')] # rest"
    using steady_waits stall_lasts by blast
  then show ?thesis by (simp add: raw_event_def)
qed

end
