(* ===== verification/Automation_Store.thy ===== *)
theory Automation_Store
  imports Automation_Runs
begin

text \<open>
  What storing a rule establishes: the constraints of the table are invariants, nobody's service touches the
  rules of another organization or the owner of a rule, and a rule that was accepted is one the engine loads.
\<close>

section \<open>Accepted rules load\<close>

lemma emitted_tables: "EVENTS_EMITTED_BY_api = EVENTS_EMITTED_BY"
  by (simp add: EVENTS_EMITTED_BY_api_def EVENTS_EMITTED_BY_def)

definition stores_input :: "AutomationInput \<Rightarrow> AutomationRow \<Rightarrow> bool" where
  "stores_input input row \<longleftrightarrow> au_name row = in_name input \<and> au_triggerEvent row = in_triggerEvent input \<and>
     au_condition row = in_condition input \<and> au_actions row = JArr (in_actions input) \<and>
     au_enabled row = in_enabled input"

text \<open>The rule loads as it was given, and loop protection stops it for its depth only.\<close>

definition loads_as :: "(string \<Rightarrow> int option) \<Rightarrow> AutomationInput \<Rightarrow> AutomationRow \<Rightarrow> bool" where
  "loads_as other input row \<longleftrightarrow> (\<exists>ru. load_rule other row = Usable ru \<and>
     ru_id ru = au_id row \<and> ru_orgId ru = au_orgId row \<and> ru_createdBy ru = au_createdBy row \<and>
     ru_triggerEvent ru = in_triggerEvent input \<and> ru_actions ru = in_actions input \<and>
     ru_condition ru = Option.bind (in_condition input) FilterTree \<and>
     (ru_condition ru = None \<longleftrightarrow> in_condition input = None) \<and>
     (\<forall>depth. checkLoopProtection ru depth = checkDepth depth))"

lemma input_ok_Inr:
  "input_ok other registered input = Inr () \<longleftrightarrow>
     assertTriggerRegistered registered (in_triggerEvent input) = Inr () \<and>
     assertConditionUsable other (in_triggerEvent input) (in_condition input) = Inr () \<and>
     assertNotSelfTriggering (in_triggerEvent input) (in_actions input) = Inr ()"
  by (auto simp: input_ok_def split: sum.splits)

lemma accepted_loads:
  assumes "input_ok other registered input = Inr ()" "stores_input input row"
    "in_actions input \<noteq> []" "list_all has_type (in_actions input)"
  shows "loads_as other input row"
proof -
  have quiet: "\<not> selfTriggers (in_triggerEvent input) (in_actions input)"
    using assms(1) by (auto simp: input_ok_Inr assertNotSelfTriggering_def selfTriggers_def eventsEmittedBy_def
        emitted_tables list_ex_iff split: if_splits)
  have acts: "parseStoredActions (JArr (in_actions input)) = Some (in_actions input)"
    using assms(3,4) by (simp add: parseStoredActions_def)
  have cond: "parseStoredCondition other (in_triggerEvent input) (in_condition input) =
      Some (Option.bind (in_condition input) FilterTree) \<and>
      (Option.bind (in_condition input) FilterTree = None \<longleftrightarrow> in_condition input = None)"
  proof (cases "in_condition input")
    case (Some j)
    obtain node where n: "FilterTree j = Some node"
      "res_ok (validate other (resourceForTrigger (in_triggerEvent input)) node)"
      using assms(1) Some
      by (auto simp: input_ok_Inr assertConditionUsable_def Let_def split: option.splits if_splits)
    have "j \<noteq> JNull" using n(1) by (auto simp: FilterTree_def FilterNodeSchema.simps ComparisonSchema_def)
    then show ?thesis using n Some by (cases j) (simp_all add: parseStoredCondition_def)
  qed (simp add: parseStoredCondition_def)
  show ?thesis using assms(2) acts cond quiet
    by (auto simp: loads_as_def load_rule_def stores_input_def checkLoopProtection_def split: option.splits)
qed

section \<open>The table\<close>

definition rules_ok :: "AutomationRow list \<Rightarrow> bool" where
  "rules_ok rows \<longleftrightarrow> distinct (map au_id rows) \<and> distinct (map name_key rows) \<and> (\<forall>r \<in> set rows. row_checks r)"

text \<open>A call of one of the services, or a tick of the engine, by the organization that acts.\<close>

inductive rule_step :: "string \<Rightarrow> world \<Rightarrow> world \<Rightarrow> bool" where
  Rule_Created: "createAutomation other registered actor input i drawn w = Inr (r, w') \<Longrightarrow>
    rule_step (orgOf actor) w w'"
| Rule_Updated: "updateAutomation other registered actor i input drawn w = Inr (r, w') \<Longrightarrow>
    rule_step (orgOf actor) w w'"
| Rule_Switched: "setAutomationEnabled actor i enabled drawn w = Inr (r, w') \<Longrightarrow> rule_step (orgOf actor) w w'"
| Rule_Deleted: "deleteAutomation actor i drawn w = Inr w' \<Longrightarrow> rule_step (orgOf actor) w w'"
| Engine_Ticks: "quiet_services mc \<Longrightarrow> rule_step orgId w (engine_tick mc w)"

text \<open>Every rule keeps its owner and organization, and other organizations keep their rules.\<close>

definition owners_kept :: "AutomationRow list \<Rightarrow> AutomationRow list \<Rightarrow> bool" where
  "owners_kept rows rows' \<longleftrightarrow> (\<forall>r \<in> set rows. \<forall>r' \<in> set rows'. au_id r = au_id r' \<longrightarrow>
     au_createdBy r' = au_createdBy r \<and> au_orgId r' = au_orgId r)"

definition others_kept :: "string \<Rightarrow> AutomationRow list \<Rightarrow> AutomationRow list \<Rightarrow> bool" where
  "others_kept orgId rows rows' \<longleftrightarrow>
     filter (\<lambda>r. au_orgId r \<noteq> orgId) rows' = filter (\<lambda>r. au_orgId r \<noteq> orgId) rows"

lemma rules_of_event [simp]: "w_rules (rule_event actor drawn name payload w) = w_rules w"
  by (simp add: rule_event_def)

lemma rules_ok_unique: "rules_ok rows \<Longrightarrow> r \<in> set rows \<Longrightarrow> r' \<in> set rows \<Longrightarrow> au_id r = au_id r' \<Longrightarrow> r = r'"
  by (meson distinct_map inj_onD rules_ok_def)

lemma owners_same: "rules_ok rows \<Longrightarrow> owners_kept rows rows"
  unfolding owners_kept_def using rules_ok_unique by blast

lemma constraints_Inr:
  "rule_constraints others row = Inr u \<longleftrightarrow>
     row_checks row \<and> (\<forall>r \<in> set others. au_id r \<noteq> au_id row \<and> name_key r \<noteq> name_key row)"
  by (auto simp: rule_constraints_def list_ex_iff split: if_splits)

lemma checks_actions: "row_checks row \<Longrightarrow> au_actions row = JArr as \<Longrightarrow> as \<noteq> []"
  by (auto simp: row_checks_def)

lemma created_Inr:
  assumes "createAutomation other registered actor input i drawn w = Inr (r, w')"
  shows "\<exists>row. w_rules w' = w_rules w @ [row] \<and> stores_input input row \<and> au_id row = i \<and>
    au_orgId row = orgOf actor \<and> au_createdBy row = userOf actor \<and>
    rule_constraints (w_rules w) row = Inr () \<and> input_ok other registered input = Inr ()"
  using assms by (auto simp: createAutomation_def Let_def stores_input_def)

lemma load_Inr: "loadAutomation orgId i w = Inr e \<Longrightarrow> e \<in> set (w_rules w) \<and> au_orgId e = orgId \<and> au_id e = i"
  by (auto simp: loadAutomation_def find_Some_iff split: option.splits)

lemma updated_Inr:
  assumes "updateAutomation other registered actor i input drawn w = Inr (s, w')"
  shows "\<exists>row \<in> set (w_rules w'). stores_input input row \<and> au_id row = i \<and> au_orgId row = orgOf actor \<and>
    in_actions input \<noteq> [] \<and> input_ok other registered input = Inr ()"
proof -
  obtain e where e: "loadAutomation (orgOf actor) i w = Inr e" using assms by (auto simp: updateAutomation_def)
  let ?change = "\<lambda>r. r\<lparr>au_name := in_name input, au_description := in_description input,
     au_triggerEvent := in_triggerEvent input, au_condition := in_condition input,
     au_actions := JArr (in_actions input), au_enabled := in_enabled input, au_updatedAt := snd drawn\<rparr>"
  have "w_rules w' = map (\<lambda>r. if au_orgId r = orgOf actor \<and> au_id r = i then ?change r else r) (w_rules w)"
    "in_actions input \<noteq> []" "input_ok other registered input = Inr ()"
    using assms e by (auto simp: updateAutomation_def Let_def update_rule_def constraints_Inr dest!: checks_actions)
  moreover have "?change e \<in> set (w_rules w')" using load_Inr [OF e] calculation(1) by force
  moreover have "au_id e = i" "au_orgId e = orgOf actor" using load_Inr [OF e] by simp_all
  ultimately show ?thesis by (intro bexI [of _ "?change e"]) (simp_all add: stores_input_def)
qed

text \<open>A change of the one row an id names.\<close>

lemma changed_rows:
  assumes "rules_ok rows" "e \<in> set rows" "au_orgId e = orgId" "au_id e = i"
    and "au_id (change e) = i" "au_orgId (change e) = orgId" "au_createdBy (change e) = au_createdBy e"
    and "rule_constraints (filter (\<lambda>r. au_id r \<noteq> i) rows) (change e) = Inr ()"
  defines "rows' \<equiv> map (\<lambda>r. if au_orgId r = orgId \<and> au_id r = i then change r else r) rows"
  shows "rules_ok rows' \<and> owners_kept rows rows' \<and> others_kept orgId rows rows'"
proof -
  have hit: "au_orgId r = orgId \<and> au_id r = i \<longleftrightarrow> r = e" if "r \<in> set rows" for r
    using rules_ok_unique [OF assms(1) that assms(2)] assms(3,4) by auto
  then have rows': "rows' = map (\<lambda>r. if r = e then change e else r) rows"
    unfolding rows'_def by (intro map_cong) auto
  have ids: "map au_id rows' = map au_id rows" using assms(4,5) by (simp add: rows')
  obtain xs ys where split: "rows = xs @ e # ys" using assms(2) split_list by metis
  have "distinct rows" using assms(1) by (auto simp: rules_ok_def distinct_map)
  then have new: "rows' = xs @ change e # ys" using split by (auto simp: rows' intro!: map_idI)
  have out: "e \<notin> set xs \<union> set ys" using \<open>distinct rows\<close> split by auto
  have "au_id x \<noteq> i" if "x \<in> set xs \<union> set ys" for x
    using rules_ok_unique [OF assms(1), of x e] that assms(2,4) out split by auto
  then have "filter (\<lambda>r. au_id r \<noteq> i) xs = xs" "filter (\<lambda>r. au_id r \<noteq> i) ys = ys" by simp_all
  then have rest: "filter (\<lambda>r. au_id r \<noteq> i) rows = xs @ ys" using assms(4) by (simp add: split)
  have "rules_ok rows'"
    using assms(1,8) ids unfolding rest constraints_Inr by (auto simp: rules_ok_def split new)
  moreover have "owners_kept rows rows'"
    unfolding owners_kept_def
  proof (intro ballI impI)
    fix r r' assume r: "r \<in> set rows" "r' \<in> set rows'" "au_id r = au_id r'"
    then obtain q where q: "q \<in> set rows" "r' = (if q = e then change e else q)" by (auto simp: rows')
    then have "au_id q = au_id r" using r(3) assms(4,5) by (auto split: if_splits)
    then have "q = r" using rules_ok_unique [OF assms(1) q(1) r(1)] by simp
    then show "au_createdBy r' = au_createdBy r \<and> au_orgId r' = au_orgId r" using q(2) assms(3,6,7) by simp
  qed
  moreover have "others_kept orgId rows rows'"
    using assms(3,6) by (simp add: others_kept_def split new)
  ultimately show ?thesis by simp
qed

lemma own_constraints:
  assumes "rules_ok rows" "e \<in> set rows" "au_id e' = au_id e" "au_orgId e' = au_orgId e" "au_name e' = au_name e"
    "au_actions e' = au_actions e" "au_triggerEvent e' = au_triggerEvent e" "au_condition e' = au_condition e"
  shows "rule_constraints (filter (\<lambda>r. au_id r \<noteq> au_id e) rows) e' = Inr ()"
proof -
  have "inj_on name_key (set rows)" using assms(1) by (simp add: rules_ok_def distinct_map)
  then have "r = e" if "r \<in> set rows" "name_key r = name_key e" for r
    using that assms(2) by (auto dest: inj_onD)
  moreover have "name_key e' = name_key e" using assms(4,5) by (simp add: name_key_def)
  moreover have "row_checks e'" using assms(1,2) assms(5-8) by (auto simp: rules_ok_def row_checks_def)
  ultimately show ?thesis unfolding constraints_Inr using assms(3) by auto
qed

lemma added_row:
  assumes "rules_ok rows" "rule_constraints rows row = Inr ()" "au_orgId row = orgId"
  shows "rules_ok (rows @ [row]) \<and> owners_kept rows (rows @ [row]) \<and> others_kept orgId rows (rows @ [row])"
proof -
  have new: "\<And>r. r \<in> set rows \<Longrightarrow> au_id r \<noteq> au_id row"
    "\<And>r. r \<in> set rows \<Longrightarrow> name_key r \<noteq> name_key row" "row_checks row"
    using assms(2) unfolding constraints_Inr by blast+
  have "au_id row \<notin> set (map au_id rows)" by (auto dest: new(1))
  moreover have "name_key row \<notin> set (map name_key rows)"
    by (auto dest: new(2))
  ultimately have "rules_ok (rows @ [row])" using assms(1) new(3) unfolding rules_ok_def by simp
  moreover have "owners_kept rows (rows @ [row])"
    unfolding owners_kept_def
  proof (intro ballI impI)
    fix r r' assume r: "r \<in> set rows" "r' \<in> set (rows @ [row])" "au_id r = au_id r'"
    have "r' \<noteq> row" using new(1) [OF r(1)] r(3) by blast
    then have "r' \<in> set rows" using r(2) by simp
    then have "r = r'" using rules_ok_unique [OF assms(1) r(1)] r(3) by blast
    then show "au_createdBy r' = au_createdBy r \<and> au_orgId r' = au_orgId r" by simp
  qed
  moreover have "others_kept orgId rows (rows @ [row])" using assms(3) by (simp add: others_kept_def)
  ultimately show ?thesis by blast
qed

lemma rule_step_keeps:
  "rule_step orgId w w' \<Longrightarrow> rules_ok (w_rules w) \<Longrightarrow>
   rules_ok (w_rules w') \<and> owners_kept (w_rules w) (w_rules w') \<and> others_kept orgId (w_rules w) (w_rules w')"
proof (induction rule: rule_step.induct)
  case (Rule_Created other registered actor input i drawn w r w')
  then obtain row where "w_rules w' = w_rules w @ [row]" "au_orgId row = orgOf actor"
    "rule_constraints (w_rules w) row = Inr ()"
    using created_Inr by blast
  then show ?case using added_row [OF Rule_Created(2)] by simp
next
  case (Rule_Updated other registered actor i input drawn w r w')
  then obtain e where e: "loadAutomation (orgOf actor) i w = Inr e"
    by (auto simp: updateAutomation_def)
  let ?change = "\<lambda>r. r\<lparr>au_name := in_name input, au_description := in_description input,
     au_triggerEvent := in_triggerEvent input, au_condition := in_condition input,
     au_actions := JArr (in_actions input), au_enabled := in_enabled input, au_updatedAt := snd drawn\<rparr>"
  have "rule_constraints (filter (\<lambda>r. au_id r \<noteq> i) (w_rules w)) (?change e) = Inr ()"
    "w_rules w' = map (\<lambda>r. if au_orgId r = orgOf actor \<and> au_id r = i then ?change r else r) (w_rules w)"
    using Rule_Updated(1) e by (auto simp: updateAutomation_def Let_def update_rule_def)
  then show ?case using changed_rows [OF Rule_Updated(2), of e "orgOf actor" i ?change] load_Inr [OF e] by simp
next
  case (Rule_Switched actor i enabled drawn w r w')
  then obtain e where e: "loadAutomation (orgOf actor) i w = Inr e"
    by (auto simp: setAutomationEnabled_def)
  let ?change = "\<lambda>r. r\<lparr>au_enabled := enabled, au_updatedAt := snd drawn\<rparr>"
  have "rule_constraints (filter (\<lambda>r. au_id r \<noteq> i) (w_rules w)) (?change e) = Inr ()"
    using own_constraints [OF Rule_Switched(2), of e "?change e"] load_Inr [OF e] by simp
  then show ?case
    using changed_rows [OF Rule_Switched(2), of e "orgOf actor" i ?change] load_Inr [OF e] Rule_Switched(1) e
    by (auto simp: setAutomationEnabled_def update_rule_def)
next
  case (Rule_Deleted actor i drawn w w')
  then have rows: "w_rules w' = filter (\<lambda>r. \<not> (au_orgId r = orgOf actor \<and> au_id r = i)) (w_rules w)"
    by (auto simp: deleteAutomation_def)
  have "rules_ok (w_rules w')" using Rule_Deleted(2) unfolding rows rules_ok_def
    by (auto simp: distinct_map_filter)
  moreover have "owners_kept (w_rules w) (w_rules w')"
    using owners_same [OF Rule_Deleted(2)] unfolding rows owners_kept_def by (meson filter_is_subset subsetD)
  moreover have "others_kept (orgOf actor) (w_rules w) (w_rules w')"
    unfolding others_kept_def rows filter_filter by (intro filter_cong) auto
  ultimately show ?case by blast
next
  case (Engine_Ticks mc orgId w)
  then have "w_rules (engine_tick mc w) = w_rules w" using rules.tick_keeps by blast
  then show ?case using owners_same [OF Engine_Ticks(2)] Engine_Ticks(2) by (simp add: others_kept_def)
qed

end
