(* ===== verification/Automation_Correct.thy ===== *)
theory Automation_Correct
  imports Automation_Stall Automation_Store
begin

text \<open>
  The properties of the automation engine: when a cascade ends and how it does not, what is recorded, what an
  executor reports, who owns the rules, and a rule that stops the engine.
\<close>

section \<open>Cascades\<close>

text \<open>C30: with rules that keep the depth (actions of the work services, conditions that can be evaluated)
  every cascade ends: whatever waits in the outbox, after finitely many ticks nothing waits for the engine any
  more, and from then on a tick changes nothing. The depth cap is what makes it so: a drain replaces the rows
  it takes by rows that are nearer to the cap.\<close>

theorem cascade_ends:
  assumes "all_keep_depth mc (w_rules w)"
  shows "\<exists>n. waiting ((engine_tick mc ^^ n) w) = [] \<and>
    (\<forall>k. (engine_tick mc ^^ (k + n)) w = (engine_tick mc ^^ n) w)"
proof -
  obtain n where n: "waiting ((engine_tick mc ^^ n) w) = []" using ticks_end [OF assms] by blast
  then have "engine_tick mc ((engine_tick mc ^^ n) w) = (engine_tick mc ^^ n) w"
    by (simp add: engine_tick_def eval_nat_numeral drain_idle)
  then have "(engine_tick mc ^^ (k + n)) w = (engine_tick mc ^^ n) w" for k by (induction k) simp_all
  with n show ?thesis by blast
qed

definition pingpong_rules :: "AutomationRow list" where
  "pingpong_rules =
    [stored_row ''a1'' (plain_input ''ping'' ''card.moved''
       (JObj [(''type'', JStr ''card.set_status''), (''statusId'', JStr ''s1'')])),
     stored_row ''a2'' (plain_input ''pong'' ''card.status_changed''
       (JObj [(''type'', JStr ''card.move''), (''listId'', JStr ''l1'')]))]"

lemma pingpong_keeps: "all_keep_depth hq_machine pingpong_rules"
  by (auto simp: all_keep_depth_def pingpong_rules_def stored_row_def plain_input_def load_rule_def
      parseStoredCondition_def parseStoredActions_def has_type_def keeps_depth_def action_type_def
      depth_dropping_def OTHER_SERVICES_def condition_verdict_def)

theorem cascade_ends_witness:
  "\<exists>n. waiting ((engine_tick hq_machine ^^ n) (hq_world hq_tenancy pingpong_rules 0)) = []"
  using cascade_ends [of hq_machine "hq_world hq_tenancy pingpong_rules 0"] pingpong_keeps
  by (auto simp: hq_world_def)

text \<open>C31: the depth does not end every cascade. Two rules that saving accepts and loop protection lets run -
  revoke the grants of a member who is granted a permission, restore the defaults of the role when a grant is
  revoked - keep each other going: the tenancy services write their events without the depth, so each run is
  at depth 0, and after any number of runs up to the hourly budget of 1000 there is a next event waiting. Only
  the budget of the organization ends it.\<close>

theorem cascade_evades_cap:
  assumes "n \<le> HOURLY_EXECUTION_BUDGET"
  shows "accepted_rules = loop_rules \<and> w_rules (loop_after n) = loop_rules \<and> length (w_runs (loop_after n)) = n \<and>
    list_all (\<lambda>run. ro_status (run_outcome run) = Succeeded \<and> ro_depth (run_outcome run) = 0) (w_runs (loop_after n)) \<and>
    map ob_causationDepth (waiting (loop_after n)) = [0]"
  using loop_goes_on [OF assms] loop_accepted
  by (auto simp: loop_after_def looping_def list_all_iff about_staff_def)

theorem cascade_evades_cap_witness:
  "length (w_runs (loop_after HOURLY_EXECUTION_BUDGET)) = 1000"
  using cascade_evades_cap [of HOURLY_EXECUTION_BUDGET] by (simp add: HOURLY_EXECUTION_BUDGET_def)

text \<open>C32: one rule can stop the engine for everybody. An organization saves a rule whose condition compares a
  date with an offset that leaves the range of dates; evaluating it throws, outside every \<open>try\<close>, so no event of
  the batch is marked. After any number of ticks the same two events are first, and the rule of another
  organization, whose event comes before, has run as many times for its one event: it creates a card each
  time.\<close>

theorem poison_rule_stalls_engine:
  "(case poisoned of Inr w \<Rightarrow> map au_id (w_rules w) = [''a1'', ''a9''] | Inl _ \<Rightarrow> False) \<and> hq_cards (ticks 1) = 1 \<and>
   length (filter (\<lambda>run. run_eventId run = ''e1'') (w_runs (ticks n))) = n \<and>
   w_dispatch (ticks n) = Map.empty \<and> map ob_id (take 2 (waiting (ticks n))) = [''e1'', ''e2'']"
  using poison_accepted first_card stall_lasts [of n] stall_rows [of n] by (simp add: steady_def)

section \<open>Runs, results and the budget\<close>

definition grant_event :: TriggerEvent where
  "grant_event = \<lparr>te_id = ''e1'', te_orgId = hq, te_name = ''member_grant.created'',
     te_payload = JObj [(''userId'', JStr staff)], te_causationDepth = 0\<rparr>"

lemma hq_quiet: "quiet_services hq_machine" by (simp add: quiet_services_def hq_machine_def)

text \<open>C33: every rule of an event gets exactly one recorded run, in the order of the rules, the unusable ones
  included: the runs name the event, its organization and depth, the returned counts are the number of rules
  and of runs that executed, and an organization that is not active gets none.\<close>

theorem every_rule_recorded:
  assumes "quiet_services mc" "processEvent mc event w = (Inr (considered, n), w')"
  shows "\<exists>runs. w_runs w' = w_runs w @ runs \<and>
    map (ro_automationId \<circ> run_outcome) runs =
      (if orgIsActive (te_orgId event) w
       then map rule_id (loadRulesFor (mc_date mc) (te_orgId event) (te_name event) w) else []) \<and>
    considered = length runs \<and> n = length (filter executed runs) \<and>
    list_all (\<lambda>run. run_orgId run = te_orgId event \<and> run_eventId run = te_id event \<and>
      run_triggerEvent run = te_name event \<and> ro_depth (run_outcome run) = te_causationDepth event) runs"
proof (cases "orgIsActive (te_orgId event) w")
  case True
  let ?rules = "loadRulesFor (mc_date mc) (te_orgId event) (te_name event) w"
  have rules: "process_rules mc event ?rules w = (Inr n, w')" "considered = length ?rules"
    using assms(2) True by (auto simp: processEvent_def Let_def split: prod.splits)
  from process_rules_runs [OF assms(1) rules(1)] obtain runs where
    r: "w_runs w' = w_runs w @ runs" "map (ro_automationId \<circ> run_outcome) runs = map rule_id ?rules"
      "n = length (filter executed runs)"
      "\<forall>run \<in> set runs. run_orgId run = te_orgId event \<and> run_eventId run = te_id event \<and>
        run_triggerEvent run = te_name event \<and> ro_depth (run_outcome run) = te_causationDepth event"
    by blast
  moreover have "considered = length runs" using rules(2) arg_cong [OF r(2), of length] by simp
  ultimately show ?thesis using True by (auto simp: list_all_iff)
qed (use assms(2) in \<open>auto simp: processEvent_def\<close>)

theorem every_rule_recorded_witness:
  "map (ro_automationId \<circ> run_outcome) (w_runs (snd (processEvent hq_machine grant_event loop_world))) = [''a1'']"
proof -
  have "fst (processEvent hq_machine grant_event loop_world) = Inr (1, 1)" by code_simp
  then have run: "processEvent hq_machine grant_event loop_world =
      (Inr (1, 1), snd (processEvent hq_machine grant_event loop_world))" by (metis prod.collapse)
  have "w_runs loop_world = []" by (simp add: loop_world_def hq_world_def)
  moreover have "(if orgIsActive (te_orgId grant_event) loop_world
      then map rule_id (loadRulesFor (mc_date hq_machine) (te_orgId grant_event) (te_name grant_event) loop_world) else []) =
      [''a1'']" by code_simp
  ultimately show ?thesis using every_rule_recorded [OF hq_quiet run] by auto
qed



text \<open>C34: what an executor reports is what happened. If the owner is no member, every action has failed and
  nothing changed. Otherwise the results are those of the actions in order, each the outcome of that action in
  the state the ones before it left; they stop at the first failure and cover all actions when there is none,
  and the state is the one after exactly the reported actions.\<close>

theorem execute_reports:
  assumes "execute mc ru event d w = (Inr rs, w')"
    and "resolveOrgMembership (ru_createdBy ru) (ru_orgId ru) (now_of mc w) (w_tenancy w) = Inr m"
  shows "case m of
      None \<Rightarrow> w' = w \<and> map ar_index rs = [0..<length (ru_actions ru)] \<and> list_all (\<lambda>r. ar_error r \<noteq> None) rs
    | Some m \<Rightarrow>
        (let actor = rule_actor ru m event d in
         map ar_index rs = [0..<length rs] \<and> map ar_error rs = map (reported mc actor event (ru_actions ru) w) [0..<length rs] \<and>
         list_all (\<lambda>r. ar_error r = None) (butlast rs) \<and> length rs \<le> length (ru_actions ru) \<and>
         (length rs = length (ru_actions ru) \<or> rs \<noteq> [] \<and> ar_error (last rs) \<noteq> None) \<and>
         w' = after mc actor event (take (length rs) (ru_actions ru)) w)"
proof (cases m)
  case None
  have "w' = w" "rs = map (\<lambda>(i, a). \<lparr>ar_index = i, ar_type = action_type a, ar_error = Some no_member\<rparr>)
      (List.enumerate 0 (ru_actions ru))"
    using assms None by (auto simp: execute_def)
  moreover from this have "map ar_index rs = map fst (List.enumerate 0 (ru_actions ru))"
    by (simp add: comp_def case_prod_beta)
  ultimately show ?thesis using None by (auto simp: list_all_iff)
next
  case (Some k)
  let ?actor = "rule_actor ru k event d"
  have run: "run_actions mc ?actor event 0 (ru_actions ru) w = (rs, w')"
    using assms Some by (auto simp: execute_def split: prod.splits)
  note spec = run_actions_spec [OF run]
  have "map ar_index rs = [0..<length rs]"
    "map ar_error rs = map (reported mc ?actor event (ru_actions ru) w) [0..<length rs]"
    using spec by (auto intro!: nth_equalityI)
  moreover have "\<forall>k < length rs. Suc k < length rs \<longrightarrow> ar_error (rs ! k) = None" using spec by blast
  then have "list_all (\<lambda>r. ar_error r = None) (butlast rs)" by (simp add: list_all_length nth_butlast)
  ultimately show ?thesis using spec Some by (auto simp: Let_def)
qed

definition three_actions :: AutomationRule where
  "three_actions = restore_ru\<lparr>ru_actions := map typed [''member_grant.revoke_all'', ''card.assign'', ''card.unassign'']\<rparr>"

theorem execute_reports_witness:
  "case execute hq_machine three_actions grant_event 1 loop_world of
     (Inr rs, w') \<Rightarrow> map ar_index rs = [0, 1] \<and> ar_error (last rs) \<noteq> None \<and> live w' = []
   | _ \<Rightarrow> False"
proof -
  let ?r = "execute hq_machine three_actions grant_event 1 loop_world"
  have "case fst ?r of Inr rs \<Rightarrow> length rs = 2 | Inl _ \<Rightarrow> False" and live: "live (snd ?r) = []" by code_simp+
  then obtain rs w' where run: "?r = (Inr rs, w')" "length rs = 2" by (cases ?r) (auto split: sum.splits)
  have t: "members (w_tenancy loop_world) = hq_members"
    "orgs (w_tenancy loop_world) = [\<lparr>o_id = hq, o_status = ''active''\<rparr>]" by code_simp+
  obtain m where "resolveOrgMembership chief hq 0 (w_tenancy loop_world) = Inr (Some m)"
    using chief_resolves [OF t] by blast
  then have m: "resolveOrgMembership (ru_createdBy three_actions) (ru_orgId three_actions) (now_of hq_machine loop_world)
      (w_tenancy loop_world) = Inr (Some m)"
    by (simp add: three_actions_def restore_ru_def)
  have "length (ru_actions three_actions) = 3" by (simp add: three_actions_def)
  then have "map ar_index rs = [0, 1] \<and> ar_error (last rs) \<noteq> None"
    using execute_reports [OF run(1) m] run(2) by (simp add: Let_def eval_nat_numeral)
  then show ?thesis using run(1) live by simp
qed

section \<open>The rules\<close>

text \<open>C36: a rule the services accept, new or edited, is one the engine can run: it is loaded with the trigger, the
  condition and the actions that were given, never as unusable, and loop protection refuses it for the depth of
  its event only, never as triggering itself. The two copies of the table of emitted events agree.\<close>

theorem accepted_rules_load:
  assumes "createAutomation other registered actor input i drawn w = Inr (r, w') \<or>
      updateAutomation other registered actor i input drawn w = Inr (s, w')"
    and "list_all has_type (in_actions input)"
  shows "\<exists>row \<in> set (w_rules w'). au_id row = i \<and> au_orgId row = orgOf actor \<and> loads_as other input row"
  using assms(1)
proof
  assume "createAutomation other registered actor input i drawn w = Inr (r, w')"
  from created_Inr [OF this] obtain row where row: "w_rules w' = w_rules w @ [row]" "stores_input input row"
    "au_id row = i" "au_orgId row = orgOf actor" "rule_constraints (w_rules w) row = Inr ()"
    "input_ok other registered input = Inr ()" by blast
  moreover have "in_actions input \<noteq> []" using row(2,5) checks_actions [of row] by (simp add: stores_input_def constraints_Inr)
  ultimately have "loads_as other input row" using accepted_loads assms(2) by blast
  with row show ?thesis by auto
next
  assume update: "updateAutomation other registered actor i input drawn w = Inr (s, w')"
  from updated_Inr [OF this] obtain row where row: "row \<in> set (w_rules w')" "stores_input input row"
    "au_id row = i" "au_orgId row = orgOf actor" "in_actions input \<noteq> []"
    "input_ok other registered input = Inr ()" by blast
  then have "loads_as other input row" using accepted_loads assms(2) by blast
  with row show ?thesis by auto
qed

theorem accepted_rules_load_witness:
  "list_ex (loads_as (mc_date hq_machine) revoke_input)
     (case createAutomation (mc_date hq_machine) (\<lambda>_. True) the_chief revoke_input ''a1'' ((\<lambda>_. ''z''), 0)
        (hq_world hq_tenancy [] 0) of Inr (_, w') \<Rightarrow> w_rules w' | Inl _ \<Rightarrow> [])"
proof -
  let ?r = "createAutomation (mc_date hq_machine) (\<lambda>_. True) the_chief revoke_input ''a1'' ((\<lambda>_. ''z''), 0)
        (hq_world hq_tenancy [] 0)"
  have "case ?r of Inr _ \<Rightarrow> True | Inl _ \<Rightarrow> False" by code_simp
  then obtain r w' where r: "?r = Inr (r, w')" by (auto split: sum.splits)
  have "list_all has_type (in_actions revoke_input)" by code_simp
  with accepted_rules_load [OF disjI1 [OF r]] show ?thesis by (auto simp: r list_ex_iff)
qed

text \<open>C37: whatever the services of the rules and the engine do, in any order, ids stay unique, names stay unique in
  an organization whatever their case, and every rule keeps a name, a trigger and one to ten actions; no step changes the owner or the organization of a
  rule, and none touches a rule of another organization than the one that acts.\<close>

theorem rules_invariant:
  assumes "(\<lambda>w w'. \<exists>org. rule_step org w w')\<^sup>*\<^sup>* w0 w" "rules_ok (w_rules w0)" "rule_step orgId w w'"
  shows "rules_ok (w_rules w') \<and> owners_kept (w_rules w) (w_rules w') \<and> others_kept orgId (w_rules w) (w_rules w')"
proof -
  have "rules_ok (w_rules w)" using assms(1,2)
    by (induction rule: rtranclp_induct) (auto dest: rule_step_keeps)
  then show ?thesis using rule_step_keeps [OF assms(3)] by blast
qed

theorem rules_invariant_witness:
  "rules_ok (w_rules (engine_tick hq_machine loop_world)) \<and>
   others_kept rival loop_rules (w_rules (engine_tick hq_machine loop_world))"
proof -
  have "rules_ok (w_rules loop_world)"
    by (simp add: loop_world_def hq_world_def rules_ok_def) code_simp
  moreover have "w_rules loop_world = loop_rules" by (simp add: loop_world_def hq_world_def)
  ultimately show ?thesis
    using rules_invariant [OF rtranclp.rtrancl_refl _ Engine_Ticks [OF hq_quiet, of rival loop_world]] by simp
qed

section \<open>Moving a card\<close>

lemma place_nowhere: "place orgId l i None None db = Inr (ZERO_INTEGER, None, db)"
  by (simp add: place_def neighbour_rank_def rankOfNeighbour_def rank_between_def between_empty)

text \<open>C38: an automation's move never appends, whatever the list holds: both neighbours are absent, for which the
  rank is the first rank there is, so the card is put before every card that ranks after it.\<close>

theorem automation_move_ignores_the_list:
  assumes "action_type action = ''card.move''" "json_field ''cardId'' (te_payload event) = Some (JStr cardId)"
    and "json_field ''listId'' action = Some (JStr listId)" "runAction mc actor action event w = (None, w')"
  shows "\<exists>change. cards (work (w_tenancy w')) = map change (cards (work (w_tenancy w))) \<and>
    (\<forall>c \<in> set (cards (work (w_tenancy w))).
       if c_orgId c = orgOf actor \<and> c_id c = cardId
       then c_listId (change c) = listId \<and> c_rank (change c) = initialRank else change c = c)"
proof -
  obtain m db1 where m: "moveCard actor cardId listId None None (now_of mc w) (work_view (w_tenancy w)) = Inr (m, db1)"
    and w': "w' = w\<lparr>w_tenancy := publish (drawn_of mc w) (work_view (w_tenancy w)) db1 (w_tenancy w), w_draws := Suc (w_draws w)\<rparr>"
    using assms by (auto simp: runAction_def named_in_def given_text_def run_work_def Let_def done_work_Inr split: sum.splits)
  from moveCard_Inr [OF m] obtain c target n db2 db3 where
    c: "loadCard (orgOf actor) cardId (work_view (w_tenancy w)) = Inr c"
    and pl: "place (orgOf actor) listId cardId None None (work_view (w_tenancy w)) = Inr (mv_rank m, n, db2)"
    and up: "update_card_keys c (\<lambda>d. d\<lparr>c_listId := listId, c_boardId := l_boardId target,
        c_projectId := c_projectId c, c_rank := mv_rank m, c_updatedAt := now_of mc w\<rparr>) db2 = Inr db3"
    and db1: "db1 = append_events (moved_events actor c target (mv_rank m) n) db3"
    by blast
  have "mv_rank m = initialRank" "db2 = work_view (w_tenancy w)"
    using pl by (simp_all add: place_nowhere initialRank_def)
  moreover have "c_id c = cardId" "c_orgId c = orgOf actor" using loadCard_Inr [OF c] by simp_all
  moreover define change :: "CardRow \<Rightarrow> CardRow" where "change = (\<lambda>d. if c_orgId d = orgOf actor \<and> c_id d = cardId
      then d\<lparr>c_listId := listId, c_boardId := l_boardId target, c_projectId := c_projectId c,
             c_rank := initialRank, c_updatedAt := now_of mc w\<rparr> else d)"
  ultimately have "cards db1 = map change (cards (work (w_tenancy w)))"
    using up by (auto simp: db1 update_card_keys_def update_card_def work_view_def split: if_splits)
  then show ?thesis by (intro exI [of _ change]) (simp add: w' published change_def)
qed

definition listed :: "string \<Rightarrow> string \<Rightarrow> int \<Rightarrow> string \<Rightarrow> CardRow" where
  "listed i l n rank = a_card\<lparr>c_id := i, c_orgId := hq, c_projectId := ''p1'', c_boardId := ''b1'', c_listId := l,
     c_number := n, c_rank := rank\<rparr>"

definition move_world :: world where
  "move_world = hq_world (hq_tenancy\<lparr>work := stall_db\<lparr>cards :=
     [listed ''c1'' ''l1'' 1 ''a1'', listed ''c2'' ''l1'' 2 ''a2'', listed ''c3'' ''l2'' 3 ''a3'']\<rparr>\<rparr>) [] 0"

definition move_event :: TriggerEvent where
  "move_event = \<lparr>te_id = ''e1'', te_orgId = hq, te_name = ''card.status_changed'',
     te_payload = JObj [(''cardId'', JStr ''c3'')], te_causationDepth = 0\<rparr>"

definition move_action :: json where
  "move_action = JObj [(''type'', JStr ''card.move''), (''listId'', JStr ''l1'')]"

theorem automation_move_ignores_the_list_witness:
  "(\<exists>change. cards (work (w_tenancy (snd (runAction hq_machine the_chief move_action move_event move_world)))) =
      map change [listed ''c1'' ''l1'' 1 ''a1'', listed ''c2'' ''l1'' 2 ''a2'', listed ''c3'' ''l2'' 3 ''a3''] \<and>
      c_rank (change (listed ''c3'' ''l2'' 3 ''a3'')) = initialRank) \<and>
   map c_id (loadSiblings hq ''l1'' []
     (work (w_tenancy (snd (runAction hq_machine the_chief move_action move_event move_world))))) = [''c3'', ''c1'', ''c2'']"
proof
  show "map c_id (loadSiblings hq ''l1'' []
     (work (w_tenancy (snd (runAction hq_machine the_chief move_action move_event move_world))))) = [''c3'', ''c1'', ''c2'']"
    by code_simp
  have "fst (runAction hq_machine the_chief move_action move_event move_world) = None" by code_simp
  then have run: "runAction hq_machine the_chief move_action move_event move_world =
      (None, snd (runAction hq_machine the_chief move_action move_event move_world))" by (metis prod.collapse)
  have "action_type move_action = ''card.move''"
    "json_field ''cardId'' (te_payload move_event) = Some (JStr ''c3'')"
    "json_field ''listId'' move_action = Some (JStr ''l1'')"
    by (simp_all add: move_action_def move_event_def action_type_def)
  from automation_move_ignores_the_list [OF this run] obtain change where
    "cards (work (w_tenancy (snd (runAction hq_machine the_chief move_action move_event move_world)))) =
       map change (cards (work (w_tenancy move_world)))"
    "\<forall>c \<in> set (cards (work (w_tenancy move_world))).
       if c_orgId c = orgOf the_chief \<and> c_id c = ''c3''
       then c_listId (change c) = ''l1'' \<and> c_rank (change c) = initialRank else change c = c"
    by blast
  moreover have "cards (work (w_tenancy move_world)) =
      [listed ''c1'' ''l1'' 1 ''a1'', listed ''c2'' ''l1'' 2 ''a2'', listed ''c3'' ''l2'' 3 ''a3'']"
    by (simp add: move_world_def hq_world_def)
  moreover have "c_orgId (listed ''c3'' ''l2'' 3 ''a3'') = orgOf the_chief \<and> c_id (listed ''c3'' ''l2'' 3 ''a3'') = ''c3''"
    by (simp add: listed_def orgOf_def the_chief_def)
  ultimately show "\<exists>change. cards (work (w_tenancy (snd (runAction hq_machine the_chief move_action move_event move_world)))) =
      map change [listed ''c1'' ''l1'' 1 ''a1'', listed ''c2'' ''l1'' 2 ''a2'', listed ''c3'' ''l2'' 3 ''a3''] \<and>
      c_rank (change (listed ''c3'' ''l2'' 3 ''a3'')) = initialRank"
    by (intro exI [of _ change]) simp
qed

end
