(* ===== verification/Spec2Isabelle.thy ===== *)
theory Spec2Isabelle
  imports Rank_Correct Policy_Correct Tql_Correct Filter_Ast_Correct Dates_Correct Filter_Parity Work_Correct
    Realtime_Correct Owners Richtext_Correct Automation_Correct
begin

text \<open>
  A verification library for TaskFlow, a multi-tenant project tool: a Fastify and tRPC API
  (\<open>apps/api\<close>), a realtime server (\<open>apps/realtime\<close>), workers, a web and a mobile client, over PostgreSQL
  with row level security, and shared packages. The logic the product's guarantees rest on is in the
  packages and the API services; that is what is modelled here. The clients, the drivers and the
  integrations are not.

  Parts and theories.

  (1) Order. \<open>packages/contracts/src/rank.ts\<close> generates the string ranks that order cards, lists and boards.
  \<open>Rank\<close> translates it function by function; \<open>Rank_Correct\<close> shows that a rank between two valid ranks exists,
  is valid and lies strictly between them (with the one exception at the smallest integer), that
  \<open>between\<close> fails only for bad neighbours, and that a fresh sequence is ascending and short.

  (2) Authorization. \<open>packages/policy/src\<close>: \<open>Permissions\<close> is the catalogue (permissions, roles, relations and
  what each grants), \<open>Decide\<close> the engine (\<open>can\<close>, \<open>couldGrant\<close>, \<open>enforce\<close>), \<open>Errors\<close> the error contract of
  \<open>packages/contracts/src/errors.ts\<close>. \<open>Policy_Correct\<close> proves that the engine's loop implements the written
  policy (deny by default, the nearest relation decides, restrictive relations cap), that a refusal of
  what the subject may not see is a 404, and that every decision explains itself.

  (3) Filters. \<open>packages/filter/src\<close>: \<open>Filter_Ast\<close> and \<open>Filter_Fields\<close> are the tree, its wire schema and the
  whitelist of fields; \<open>Tokenize\<close>, \<open>Parse\<close>, \<open>Format\<close> the text language; \<open>Dates\<close> the JavaScript \<open>Date\<close> and the
  symbolic dates; \<open>Validate\<close>, \<open>Compile\<close>, \<open>Evaluate\<close> the checker, the SQL generator and the in-memory
  evaluator. \<open>Tql_Positions\<close>, \<open>Tql_Roundtrip\<close>, \<open>Tql_Trees\<close> and \<open>Tql_Correct\<close> prove that parsing always answers,
  that positions are exact and that formatting and parsing are inverse; \<open>Filter_Ast_Correct\<close> the limits of
  the schema; \<open>Dates_Correct\<close> the calendar; \<open>Compile_Correct\<close> that no value reaches the SQL text; \<open>Sql\<close> and
  \<open>Sql_Semantics\<close> give the emitted text a three-valued meaning, and \<open>Filter_Parity\<close> proves that the two
  back ends select the same rows, and on which trees they do not.

  (4) Work. \<open>apps/api/src/work\<close>: \<open>Work_Data\<close> holds the rows, events, errors and shared helpers, \<open>Work_Lists\<close>
  and \<open>Work_Cards\<close> the services that change lists and cards, which call (1) for ranks and (2) for
  permission. \<open>Work_Invariant\<close> makes the services a step relation and proves its invariant, \<open>Work_Moves\<close>
  what a move promises over the interface \<open>neighbour_ranks\<close>, \<open>Work_Correct\<close> the properties.

  (5) Tenancy. \<open>apps/api/src/tenancy\<close>: \<open>Tenancy_Data\<close> holds the rows, the event writer, and
  \<open>resolveOrgMembership\<close> with its loaders (\<open>resolve.ts\<close>), which turns rows into the subject that (2) decides
  about; \<open>Tenancy\<close> the services that change members, teams, relations and individual grants, with the calls
  a removed member leaves (\<open>rtc/participants.ts\<close>). \<open>Tenancy_Access\<close> proves what the services do to access:
  whatever they take from a person is named by an event of the same transaction, or the step is one of
  the two that break this. \<open>Owners\<close> proves that the services keep an owner when they run one after the
  other, and that two that overlap do not.

  (6) Realtime. \<open>apps/realtime/src\<close> is a Socket.io server that reads the outbox. \<open>Rooms\<close> decides a join
  (\<open>rooms.ts\<close>, \<open>rtc-rooms.ts\<close>) by (5) and (2), \<open>Event_Rooms\<close> routes an event to rooms, \<open>Gateway\<close> is the server:
  connections, joins, departures, typing, call signals, presence, rate limits, the sweep that a
  revocation starts (\<open>revocation.ts\<close>) and the dispatch of an event. \<open>Relay\<close> claims, delivers and marks the
  rows of the outbox; its locale \<open>poison_rows\<close> states what it needs of a delivery and is interpreted on
  the gateway's dispatch. \<open>Gateway_Sweep\<close> computes what a sweep does to each socket, \<open>Room_Access\<close> relates
  a join's decision to the tables, \<open>Rooms_Invariant\<close> runs gateway and services together as a step
  relation, and \<open>Realtime_Correct\<close> states the properties: rooms stay authorized, a sweep does exactly what
  it names, the relay drains exactly when it can, and where a revocation is missed.

  (7) Documents. \<open>packages/contracts/src/richtext.ts\<close> is the wire schema of descriptions, comments and messages:
  \<open>Richtext\<close> translates the schema of nodes, attributes and marks, the limits and the walk for mentions;
  \<open>Richtext_Correct\<close> characterises the accepted documents and shows that links stay safe. \<open>Tree_Walk\<close> is the
  early exit walk this schema and the one of filter trees (3) both use, stated as the locale \<open>bounded_walk\<close>
  and interpreted on both.

  (8) Automation. \<open>apps/worker/src/automation\<close> runs the rules of an organization on the events of the outbox, through
  the services of (4) and (5). \<open>Automation_Rules\<close> holds the rows, the loop protection, the loading of rules, the
  hourly budget (\<open>packages/db/src/automation-budget.ts\<close>) and the services that save rules and role defaults
  (\<open>apps/api/src/automation\<close>, \<open>role-default-grant.service.ts\<close>); \<open>Automation\<close> the executor, the engine and the relay.
  Its conditions are validated and evaluated by (3). \<open>Automation_Emits\<close> computes which events an action
  writes and at which depth, \<open>Automation_Cascade\<close> gives the multiset order in which a cascade of rules
  descends, \<open>Automation_Runs\<close> the invariants of the engine over the locale \<open>engine_invariant\<close>, \<open>Automation_Store\<close>
  those of the stored rules. \<open>Automation_Loop\<close> and \<open>Automation_Stall\<close> run two organizations' rules through the model;
  \<open>Automation_Correct\<close> states the properties: when a cascade ends and by which rules it does not, what the
  history, the executor and the budget promise, and how one rule stops the engine.

  \<open>Prelude\<close> holds what all of them share: JavaScript string operations, results that may be errors, and
  the fact collections.

  Conventions. A thrown error is the left of a sum, an optional value an \<open>option\<close>; a class or interface
  is a record, a union a datatype; state is passed explicitly. A \<open>database\<close> is the tables and the
  outbox; \<open>withOrgScope\<close> is a transaction that sees one organization, so a scoped service reads through a
  filter on the organization and returns a changed database or an error and none.

  Bounds. The recursive descent parser recurses on fuel, \<open>3 * tokens + 3\<close> for a token list: every call
  either consumes a token or descends one of the three levels (or, and, term), and \<open>Tql_Correct\<close> proves
  that the fuel never runs out. A cascade is five hops deep at most (\<open>MAX_HOPS\<close>), a tick of the engine reads at most 20
  batches of 50 rows and an organization runs at most 1000 rules an hour, the numbers of the source. The loops over digits, tokens, trees and rows are structural or have a
  measure. The drain of the outbox may not end: \<open>drainFully\<close> is a \<open>partial_function\<close> into \<open>option\<close>, and
  \<open>relay_drains_iff\<close> says when it returns.

  Assumptions of the model. Strings are 8-bit, a code unit above 255 is not represented (the parts that
  measure bytes take them as UTF-8 bytes). Numbers are decimals \<open>m * 10^e\<close>, which agree with the doubles
  of JavaScript up to 15 significant digits. \<open>Date.parse\<close> outside the ISO format the standard fixes, the
  clock, the ids drawn, the uuid check of the schema library and the cast of a text to \<open>timestamptz\<close> are
  parameters. The engine's are one record, \<open>machine\<close>: the clock, the ids, the URL parser, the columns a card row gets from
  tables not modelled, and the actions of services not modelled (labels, comments, channels, sessions),
  whose own guards in the executor are modelled. Transactions run one after the other, except in \<open>Owners\<close>, where the reads and the write of
  a role change are separate steps. There is one gateway, so a revocation needs no message between
  instances; a step of it is the code between two awaits of the transport. PostgreSQL orders ranks bytewise, as under the C locale of the compose file.

  Not modelled: \<open>apps/web\<close>, \<open>apps/mobile\<close> (interfaces), \<open>packages/db\<close> beyond the columns of the rows above
  (drivers, migrations), the routers (\<open>router.ts\<close>, input schemas), reads that are one SQL projection,
  the handshake that verifies a socket's token, the connectors that poll or receive the events of other
  products, and the remaining modules of the API (chat, docs, billing, telephony, AI) and workers, which
  are mostly calls of external services.
\<close>

end
